(* ===== verification/Prelude.thy ===== *)
theory Prelude
  imports Main "HOL-Library.Word" "HOL-Library.Monad_Syntax"
begin

text \<open>
  Shared vocabulary of the development: bytes, Go slices and buffer writes, the big-endian
  integers of \<^verbatim>\<open>encoding/binary\<close>, the hexadecimal strings of \<^verbatim>\<open>encoding/hex\<close>, decimal
  numbers of \<^verbatim>\<open>fmt.Sprintf("%d")\<close>, and the generic lemmas the component theories share.

  A Go expression that can panic (an index or a slice bound out of range) has a result in
  \<^typ>\<open>'a option\<close>, where \<^term>\<open>None\<close> is the panic; decoders compose such expressions
  with the option monad, so that ``the decoder never panics'' is a statement of the model.
\<close>

unbundle bit_operations_syntax

type_synonym byte = "8 word"
type_synonym bytes = "byte list"
type_synonym u16 = "16 word"
type_synonym u32 = "32 word"

text \<open>Times are nanoseconds since an arbitrary origin; durations are nanoseconds too.\<close>

type_synonym time = int

abbreviation millisecond :: int where "millisecond \<equiv> 1000000"
abbreviation second :: int where "second \<equiv> 1000000000"
abbreviation minute :: int where "minute \<equiv> 60000000000"

named_theorems codec_simps \<open>encoders as concatenations, decoders on concatenations\<close>
named_theorems panic_free \<open>decoders return on every input\<close>
named_theorems returns_intros \<open>expressions that do not panic\<close>
named_theorems slice_lengths \<open>lengths of what slicing returned\<close>

section \<open>Slices, indexing and buffer writes\<close>

text \<open>\<open>s[i]\<close>, \<open>s[i:j]\<close> and \<open>s[i:]\<close>; \<^term>\<open>None\<close> is the run-time panic.\<close>

definition idx :: "'a list \<Rightarrow> nat \<Rightarrow> 'a option" where
  "idx xs i = (if i < length xs then Some (xs ! i) else None)"

definition slice :: "'a list \<Rightarrow> nat \<Rightarrow> nat \<Rightarrow> 'a list option" where
  "slice xs i j = (if i \<le> j \<and> j \<le> length xs then Some (take (j - i) (drop i xs)) else None)"

definition slice_from :: "'a list \<Rightarrow> nat \<Rightarrow> 'a list option" where
  "slice_from xs i = (if i \<le> length xs then Some (drop i xs) else None)"

text \<open>\<open>copy(buf[i:], src)\<close>: writes as many bytes as fit.\<close>

definition copy_at :: "'a list \<Rightarrow> nat \<Rightarrow> 'a list \<Rightarrow> 'a list" where
  "copy_at buf i src = take i buf @ take (length buf - i) src @ drop (i + length src) buf"

lemma idx_Some [simp]: "i < length xs \<Longrightarrow> idx xs i = Some (xs ! i)"
  by (simp add: idx_def)

lemma slice_Some [simp]:
  "i \<le> j \<Longrightarrow> j \<le> length xs \<Longrightarrow> slice xs i j = Some (take (j - i) (drop i xs))"
  by (simp add: slice_def)

lemma slice_from_Some [simp]: "i \<le> length xs \<Longrightarrow> slice_from xs i = Some (drop i xs)"
  by (simp add: slice_from_def)

lemma length_copy_at [simp]: "i \<le> length buf \<Longrightarrow> length (copy_at buf i src) = length buf"
  by (simp add: copy_at_def)

text \<open>Filling a fresh buffer from the left is appending: the write at the end of what has
  been written so far replaces zeros by the source.\<close>

lemma copy_at_fill [codec_simps]:
  "i = length pre \<Longrightarrow> length src \<le> n \<Longrightarrow>
     copy_at (pre @ replicate n z) i src = pre @ src @ replicate (n - length src) z"
  by (simp add: copy_at_def)

lemma copy_at_fresh [codec_simps]:
  "length src \<le> n \<Longrightarrow> copy_at (replicate n z) 0 src = src @ replicate (n - length src) z"
  by (simp add: copy_at_def)

lemma take_drop_middle [codec_simps]:
  "i = length pre \<Longrightarrow> n = length mid \<Longrightarrow> take n (drop i (pre @ mid @ post)) = mid"
  by simp

lemma in_set_map_filter: "y \<in> set (List.map_filter f xs) \<longleftrightarrow> (\<exists>x \<in> set xs. f x = Some y)"
  by (induction xs) (auto split: option.split)

lemma if_None_eq_Some: "(if b then x else None) = Some y \<longleftrightarrow> b \<and> x = Some y"
  by simp

lemma in_set_if_Nil: "x \<in> set (if b then xs else []) \<longleftrightarrow> b \<and> x \<in> set xs"
  by simp

lemma in_set_case_option: "y \<in> set (case x of None \<Rightarrow> [] | Some z \<Rightarrow> [z]) \<longleftrightarrow> x = Some y"
  by (cases x) auto

lemmas in_set_filtered = in_set_map_filter if_None_eq_Some in_set_if_Nil in_set_case_option

section \<open>Big-endian integers\<close>

fun be_bytes :: "nat \<Rightarrow> nat \<Rightarrow> bytes" where
  "be_bytes 0 n = []"
| "be_bytes (Suc k) n = be_bytes k (n div 256) @ [word_of_nat n]"

definition be_val :: "bytes \<Rightarrow> nat" where
  "be_val bs = foldl (\<lambda>a b. a * 256 + unat b) 0 bs"

lemma be_val_Nil [simp]: "be_val [] = 0"
  by (simp add: be_val_def)

lemma be_val_snoc [simp]: "be_val (bs @ [b]) = be_val bs * 256 + unat b"
  by (simp add: be_val_def)

lemma be_val_foldl: "foldl (\<lambda>a b. a * 256 + unat b) x bs = x * 256 ^ length bs + be_val bs"
  by (induction bs rule: rev_induct) (auto simp: algebra_simps)

lemma be_val_Cons [simp]: "be_val (b # bs) = unat b * 256 ^ length bs + be_val bs"
  using be_val_foldl [of "unat b" bs] by (simp add: be_val_def)

lemma unat_byte_less [simp]: "unat (b :: byte) < 256"
  using unsigned_less [of b] by simp

lemma be_val_less: "be_val bs < 256 ^ length bs"
proof (induction bs rule: rev_induct)
  case (snoc b bs)
  have "be_val bs * 256 + unat b < (be_val bs + 1) * 256"
    using unat_byte_less [of b] by simp
  also have "\<dots> \<le> 256 ^ length bs * 256"
    using snoc by (intro mult_right_mono) auto
  finally show ?case by simp
qed simp

lemma length_be_bytes [simp]: "length (be_bytes k n) = k"
  by (induction k n rule: be_bytes.induct) auto

lemma be_val_be_bytes [simp]: "be_val (be_bytes k n) = n mod 256 ^ k"
proof (induction k n rule: be_bytes.induct)
  case (2 k n)
  have "n mod 256 ^ Suc k = 256 * (n div 256 mod 256 ^ k) + n mod 256"
    by (metis mod_mult2_eq power_Suc)
  with 2 show ?case by (simp add: unat_of_nat)
qed simp

lemma be_bytes_be_val [simp]: "n = length bs \<Longrightarrow> be_bytes n (be_val bs) = bs"
proof (induction bs arbitrary: n rule: rev_induct)
  case (snoc b bs)
  have "(256 :: byte) = 0" by (rule word_unat_eq_iff [THEN iffD2]) code_simp
  then have "word_of_nat (be_val bs) * (256 :: byte) = 0" by (simp only: mult_zero_right)
  then have "word_of_nat (be_val bs * 256 + unat b) = b" by simp
  with snoc show ?case by simp
qed simp

text \<open>\<^verbatim>\<open>binary.BigEndian.PutUint16/32\<close> as the bytes written, \<^verbatim>\<open>Uint16/32\<close> as a read of the
  first bytes of a slice, which panics on a shorter one.\<close>

definition put_be16 :: "u16 \<Rightarrow> bytes" where "put_be16 w = be_bytes 2 (unat w)"
definition put_be32 :: "u32 \<Rightarrow> bytes" where "put_be32 w = be_bytes 4 (unat w)"

definition get_be16 :: "bytes \<Rightarrow> u16 option" where
  "get_be16 bs = (if length bs < 2 then None else Some (word_of_nat (be_val (take 2 bs))))"

definition get_be32 :: "bytes \<Rightarrow> u32 option" where
  "get_be32 bs = (if length bs < 4 then None else Some (word_of_nat (be_val (take 4 bs))))"

lemma length_put_be [simp]: "length (put_be16 w) = 2" "length (put_be32 v) = 4"
  by (simp_all add: put_be16_def put_be32_def)

lemma get_put_be16 [simp]: "get_be16 (put_be16 w @ bs) = Some w"
  using unsigned_less [of w, where 'a = nat] by (simp add: get_be16_def put_be16_def)

lemma get_put_be32 [simp]: "get_be32 (put_be32 w @ bs) = Some w"
  using unsigned_less [of w, where 'a = nat] by (simp add: get_be32_def put_be32_def)

lemma get_be16_Some: "2 \<le> length bs \<Longrightarrow> get_be16 bs = Some (word_of_nat (be_val (take 2 bs)))"
  by (simp add: get_be16_def)

lemma get_be32_Some: "4 \<le> length bs \<Longrightarrow> get_be32 bs = Some (word_of_nat (be_val (take 4 bs)))"
  by (simp add: get_be32_def)

lemma put_be16_get: "length bs = 2 \<Longrightarrow> put_be16 (word_of_nat (be_val bs)) = bs"
  using be_val_less [of bs] by (simp add: put_be16_def unat_of_nat)

lemma put_be32_get: "length bs = 4 \<Longrightarrow> put_be32 (word_of_nat (be_val bs)) = bs"
  using be_val_less [of bs] by (simp add: put_be32_def unat_of_nat)

lemma unat_word_of_nat16 [simp]: "n < 65536 \<Longrightarrow> unat (word_of_nat n :: u16) = n"
  by (simp add: unat_of_nat)

lemma unat_word_of_nat32 [simp]: "n < 4294967296 \<Longrightarrow> unat (word_of_nat n :: u32) = n"
  by (simp add: unat_of_nat)

section \<open>Absence of panics\<close>

text \<open>\<open>returns x\<close>: evaluating the expression \<open>x\<close> does not panic. The introduction rules walk
  through a decoder and leave the bounds of its indexing as goals.\<close>

definition returns :: "'a option \<Rightarrow> bool" where "returns x \<longleftrightarrow> (\<exists>y. x = Some y)"

lemma returns_Some [returns_intros]: "returns (Some x)"
  by (simp add: returns_def)

lemma returns_bind [returns_intros]:
  "returns x \<Longrightarrow> (\<And>y. x = Some y \<Longrightarrow> returns (f y)) \<Longrightarrow> returns (x \<bind> f)"
  by (auto simp: returns_def)

lemma returns_if [returns_intros]:
  "(b \<Longrightarrow> returns x) \<Longrightarrow> (\<not> b \<Longrightarrow> returns y) \<Longrightarrow> returns (if b then x else y)"
  by simp

lemma returns_Let [returns_intros]: "(\<And>y. y = x \<Longrightarrow> returns (f y)) \<Longrightarrow> returns (Let x f)"
  by simp

lemma returns_case_option [returns_intros]:
  "(x = None \<Longrightarrow> returns a) \<Longrightarrow> (\<And>y. x = Some y \<Longrightarrow> returns (f y)) \<Longrightarrow> returns (case x of None \<Rightarrow> a | Some y \<Rightarrow> f y)"
  by (cases x) auto

lemma returns_idx [returns_intros]: "i < length xs \<Longrightarrow> returns (idx xs i)"
  by (simp add: returns_def)

lemma returns_slice [returns_intros]: "i \<le> j \<Longrightarrow> j \<le> length xs \<Longrightarrow> returns (slice xs i j)"
  by (simp add: returns_def)

lemma returns_slice_from [returns_intros]: "i \<le> length xs \<Longrightarrow> returns (slice_from xs i)"
  by (simp add: returns_def)

lemma returns_be16 [returns_intros]: "2 \<le> length bs \<Longrightarrow> returns (get_be16 bs)"
  by (simp add: returns_def get_be16_Some)

lemma returns_be32 [returns_intros]: "4 \<le> length bs \<Longrightarrow> returns (get_be32 bs)"
  by (simp add: returns_def get_be32_Some)

lemma slice_length [slice_lengths]: "slice xs i j = Some ys \<Longrightarrow> length ys = j - i"
  by (auto simp: slice_def split: if_splits)

lemma slice_from_length [slice_lengths]: "slice_from xs i = Some ys \<Longrightarrow> length ys = length xs - i"
  by (auto simp: slice_from_def split: if_splits)

end
