(* ===== verification/Go_Strings.thy ===== *)
theory Go_Strings
  imports Prelude
begin

text \<open>
  The pieces of Go's string library the repository uses. A Go string is a sequence of bytes,
  which is what \<^typ>\<open>string\<close> is: \<open>[]byte(s)\<close> is \<open>to_bytes s\<close>.
    \<^item> \<open>EncodeToString\<close>, \<open>hex_decode\<close>: \<^verbatim>\<open>encoding/hex\<close>;
    \<^item> \<open>base64_decode\<close>: \<^verbatim>\<open>base64.RawURLEncoding.DecodeString\<close>;
    \<^item> \<open>itoa\<close>: \<^verbatim>\<open>fmt.Sprintf("%d", n)\<close>;
    \<^item> \<open>SplitHostPort\<close>, \<open>JoinHostPort\<close>: \<^verbatim>\<open>net\<close>.
\<close>

definition to_bytes :: "string \<Rightarrow> bytes" where "to_bytes s = map (\<lambda>c. word_of_nat (of_char c)) s"
definition of_bytes :: "bytes \<Rightarrow> string" where "of_bytes bs = map (\<lambda>b. char_of (unat b)) bs"

section \<open>Hexadecimal\<close>

definition hex_digit :: "nat \<Rightarrow> char" where
  "hex_digit n = ''0123456789abcdef'' ! n"

definition hex_value :: "char \<Rightarrow> nat option" where
  "hex_value c = (let n = of_char c :: nat in
     if 48 \<le> n \<and> n \<le> 57 then Some (n - 48)
     else if 97 \<le> n \<and> n \<le> 102 then Some (n - 87)
     else if 65 \<le> n \<and> n \<le> 70 then Some (n - 55)
     else None)"

fun hex_encode :: "bytes \<Rightarrow> string" where
  "hex_encode [] = []"
| "hex_encode (b # bs) = hex_digit (unat b div 16) # hex_digit (unat b mod 16) # hex_encode bs"

fun hex_decode :: "string \<Rightarrow> bytes option" where
  "hex_decode [] = Some []"
| "hex_decode [c] = None"
| "hex_decode (c # d # s) = do {
     h \<leftarrow> hex_value c;
     l \<leftarrow> hex_value d;
     r \<leftarrow> hex_decode s;
     Some (word_of_nat (16 * h + l) # r) }"

section \<open>Unpadded URL-safe base64\<close>

definition b64_value :: "char \<Rightarrow> nat option" where
  "b64_value c = (let n = of_char c :: nat in
     if 65 \<le> n \<and> n \<le> 90 then Some (n - 65)
     else if 97 \<le> n \<and> n \<le> 122 then Some (n - 71)
     else if 48 \<le> n \<and> n \<le> 57 then Some (n + 4)
     else if n = 45 then Some 62
     else if n = 95 then Some 63
     else None)"

text \<open>Quanta of four characters; a last quantum of two or three gives one or two bytes and its
  unused low bits are ignored; one character alone is an error.\<close>

fun b64_quanta :: "nat list \<Rightarrow> bytes option" where
  "b64_quanta [] = Some []"
| "b64_quanta [a] = None"
| "b64_quanta [a, b] = Some [word_of_nat (4 * a + b div 16)]"
| "b64_quanta [a, b, c] = Some [word_of_nat (4 * a + b div 16), word_of_nat (16 * b + c div 4)]"
| "b64_quanta (a # b # c # d # r) = map_option
     (\<lambda>bs. [word_of_nat (4 * a + b div 16), word_of_nat (16 * b + c div 4), word_of_nat (64 * c + d)] @ bs)
     (b64_quanta r)"

definition base64_decode :: "string \<Rightarrow> bytes option" where
  "base64_decode s = do {
     vs \<leftarrow> those (map b64_value (filter (\<lambda>c. c \<noteq> CHR 0x0A \<and> c \<noteq> CHR 0x0D) s));
     b64_quanta vs }"

section \<open>Decimal\<close>

fun utoa :: "nat \<Rightarrow> string" where
  "utoa n = (if n < 10 then [char_of (48 + n)] else utoa (n div 10) @ [char_of (48 + n mod 10)])"

declare utoa.simps [simp del]

definition itoa :: "int \<Rightarrow> string" where
  "itoa n = (if n < 0 then CHR ''-'' # utoa (nat (- n)) else utoa (nat n))"

definition atou :: "string \<Rightarrow> nat" where
  "atou s = foldl (\<lambda>a c. a * 10 + (of_char c - 48)) 0 s"

section \<open>host:port\<close>

text \<open>The position of the last occurrence of a character (\<^verbatim>\<open>bytealg.LastIndexByteString\<close>).\<close>

fun last_index :: "char \<Rightarrow> string \<Rightarrow> nat option" where
  "last_index c [] = None"
| "last_index c (d # s) = (case last_index c s of
      Some i \<Rightarrow> Some (Suc i)
    | None \<Rightarrow> if c = d then Some 0 else None)"

fun first_index :: "char \<Rightarrow> string \<Rightarrow> nat option" where
  "first_index c [] = None"
| "first_index c (d # s) = (if c = d then Some 0 else map_option Suc (first_index c s))"

definition SplitHostPort :: "string \<Rightarrow> (string \<times> string) option" where
  "SplitHostPort hp = (case last_index CHR '':'' hp of
     None \<Rightarrow> None
   | Some i \<Rightarrow>
      if hp ! 0 = CHR ''['' then
        (case first_index CHR '']'' hp of
           None \<Rightarrow> None
         | Some e \<Rightarrow>
             if e + 1 \<noteq> i then None
             else if CHR ''['' \<in> set (drop 1 hp) \<or> CHR '']'' \<in> set (drop (e + 1) hp) then None
             else Some (take (e - 1) (drop 1 hp), drop (i + 1) hp))
      else if CHR '':'' \<in> set (take i hp) then None
      else if CHR ''['' \<in> set hp \<or> CHR '']'' \<in> set hp then None
      else Some (take i hp, drop (i + 1) hp))"

definition JoinHostPort :: "string \<Rightarrow> string \<Rightarrow> string" where
  "JoinHostPort host port =
     (if CHR '':'' \<in> set host then ''['' @ host @ '']:'' @ port else host @ '':'' @ port)"

section \<open>Facts\<close>

lemma length_to_bytes [simp]: "length (to_bytes s) = length s"
  by (simp add: to_bytes_def)

lemma length_of_bytes [simp]: "length (of_bytes s) = length s"
  by (simp add: of_bytes_def)

lemma of_bytes_to_bytes [simp]: "of_bytes (to_bytes s) = s"
  by (simp add: of_bytes_def to_bytes_def comp_def unat_of_nat)

lemma to_bytes_of_bytes [simp]: "to_bytes (of_bytes bs) = bs"
  by (simp add: of_bytes_def to_bytes_def comp_def map_idI)

lemma to_bytes_inject [simp]: "to_bytes s = to_bytes t \<longleftrightarrow> s = t"
  by (metis of_bytes_to_bytes)

lemma length_hex_encode [simp]: "length (hex_encode bs) = 2 * length bs"
  by (induction bs) auto

lemma hex_value_hex_digit: "n < 16 \<Longrightarrow> hex_value (hex_digit n) = Some n"
proof -
  have "\<forall>n \<in> set [0..<16]. hex_value (hex_digit n) = Some n" by code_simp
  then show "n < 16 \<Longrightarrow> hex_value (hex_digit n) = Some n" by auto
qed

lemma hex_decode_encode [simp]: "hex_decode (hex_encode bs) = Some bs"
proof (induction bs)
  case (Cons b bs)
  have "unat b div 16 < 16" using unat_byte_less [of b] by linarith
  moreover have "word_of_nat (16 * (unat b div 16) + unat b mod 16) = b" by simp
  ultimately show ?case using Cons by (simp add: hex_value_hex_digit del: of_nat_add of_nat_mult)
qed simp

lemma hex_encode_inject [simp]: "hex_encode a = hex_encode b \<longleftrightarrow> a = b"
  by (metis hex_decode_encode option.inject)

lemma hex_decode_length: "hex_decode s = Some bs \<Longrightarrow> length s = 2 * length bs"
  by (induction s arbitrary: bs rule: hex_decode.induct) (auto split: bind_splits)

lemma atou_snoc [simp]: "atou (s @ [c]) = atou s * 10 + (of_char c - 48)"
  by (simp add: atou_def)

lemma of_char_digit [simp]: "d < 10 \<Longrightarrow> (of_char (char_of (48 + d) :: char) :: nat) = 48 + d"
  by simp

lemma atou_utoa [simp]: "atou (utoa n) = n"
proof (induction n rule: utoa.induct)
  case (1 n)
  show ?case
  proof (cases "n < 10")
    case True
    then show ?thesis by (simp add: utoa.simps [of n] atou_def)
  next
    case False
    have "n mod 10 < 10" by simp
    with 1 False show ?thesis by (simp add: utoa.simps [of n])
  qed
qed

lemma utoa_inject [simp]: "utoa m = utoa n \<longleftrightarrow> m = n"
  by (metis atou_utoa)

definition is_digit :: "char \<Rightarrow> bool" where
  "is_digit c \<longleftrightarrow> (48::nat) \<le> of_char c \<and> of_char c \<le> (57::nat)"

lemma utoa_digits: "c \<in> set (utoa n) \<Longrightarrow> is_digit c"
proof (induction n rule: utoa.induct)
  case (1 n)
  show ?case
  proof (cases "n < 10")
    case True
    with 1(2) show ?thesis by (simp add: utoa.simps [of n] is_digit_def)
  next
    case False
    have "n mod 10 < 10" by simp
    with 1 False show ?thesis by (auto simp: utoa.simps [of n] is_digit_def)
  qed
qed

lemma utoa_not_Nil [simp]: "utoa n \<noteq> []"
  by (simp add: utoa.simps [of n])

lemma itoa_inject [simp]: "itoa m = itoa n \<longleftrightarrow> m = n"
proof -
  have minus: "CHR ''-'' \<notin> set (utoa k)" for k
    using utoa_digits [of "CHR ''-''" k] by (auto simp: is_digit_def)
  then have "CHR ''-'' # utoa k \<noteq> utoa l" "utoa l \<noteq> CHR ''-'' # utoa k" for k l
    by (metis list.set_intros(1))+
  then show ?thesis by (auto simp: itoa_def)
qed

end
