(* ===== verification/Kad_ID.thy ===== *)
theory Kad_ID
  imports Go_Strings
begin

text \<open>
  Kademlia node identifiers (\<^verbatim>\<open>dht/dht.go\<close>, section ``Node ID''): an \<open>ID\<close> is an array of 32
  bytes, modelled as a byte list that satisfies \<open>wf_id\<close>. The byte-wise operations of the code
  are related to the number \<^const>\<open>be_val\<close> an identifier denotes in big-endian order, which is
  what the XOR metric of Kademlia is defined on.
\<close>

type_synonym ID = bytes

definition IDBits :: nat where "IDBits = 256"
definition IDBytes :: nat where "IDBytes = 32"

definition wf_id :: "ID \<Rightarrow> bool" where "wf_id d \<longleftrightarrow> length d = IDBytes"

definition zero_id :: ID where "zero_id = replicate IDBytes 0"

text \<open>\<open>ParseID\<close> returns an error, here \<^term>\<open>None\<close>, on non-hex text and on any other length.\<close>

definition ParseID :: "string \<Rightarrow> ID option" where
  "ParseID s = (case hex_decode s of
     None \<Rightarrow> None
   | Some b \<Rightarrow> if length b \<noteq> IDBytes then None else Some (copy_at zero_id 0 b))"

definition ID_String :: "ID \<Rightarrow> string" where "ID_String d = hex_encode d"

definition XOR_id :: "ID \<Rightarrow> ID \<Rightarrow> ID" where "XOR_id a b = map2 (XOR) a b"

text \<open>\<^verbatim>\<open>bits.LeadingZeros8\<close> is 8 minus the bit length of the byte.\<close>

fun bit_len :: "nat \<Rightarrow> nat" where
  "bit_len n = (if n = 0 then 0 else Suc (bit_len (n div 2)))"

declare bit_len.simps [simp del]

definition LeadingZeros8 :: "byte \<Rightarrow> nat" where "LeadingZeros8 b = 8 - bit_len (unat b)"

fun bucket_scan :: "nat \<Rightarrow> bytes \<Rightarrow> nat" where
  "bucket_scan i [] = IDBits - 1"
| "bucket_scan i (b # bs) = (if b \<noteq> 0 then i * 8 + LeadingZeros8 b else bucket_scan (Suc i) bs)"

definition BucketIndex :: "ID \<Rightarrow> nat" where "BucketIndex d = bucket_scan 0 d"

fun bytes_less :: "bytes \<Rightarrow> bytes \<Rightarrow> bool" where
  "bytes_less (a # as) (b # bs) = (if a \<noteq> b then a < b else bytes_less as bs)"
| "bytes_less _ _ = False"

definition Closer :: "ID \<Rightarrow> ID \<Rightarrow> ID \<Rightarrow> bool" where
  "Closer a b target = bytes_less (XOR_id a target) (XOR_id b target)"

section \<open>XOR as a metric\<close>

lemma length_XOR_id [simp]: "length (XOR_id a b) = min (length a) (length b)"
  by (simp add: XOR_id_def)

lemma wf_XOR_id [simp]: "wf_id a \<Longrightarrow> wf_id b \<Longrightarrow> wf_id (XOR_id a b)"
  by (simp add: wf_id_def)

lemma XOR_id_Cons [simp]: "XOR_id (a # as) (b # bs) = (a XOR b) # XOR_id as bs"
  by (simp add: XOR_id_def)

lemma XOR_id_Nil [simp]: "XOR_id [] b = []" "XOR_id a [] = []"
  by (simp_all add: XOR_id_def)

lemma XOR_id_commute: "XOR_id a b = XOR_id b a"
  by (induction a b rule: list_induct2') (auto simp: xor.commute)

lemma XOR_id_cancel: "length a = length b \<Longrightarrow> XOR_id (XOR_id a b) b = a"
  by (induction a b rule: list_induct2) (auto simp: xor.assoc)

lemma XOR_id_eq_iff: "length a = length b \<Longrightarrow> length c = length b \<Longrightarrow> XOR_id a b = XOR_id c b \<longleftrightarrow> a = c"
  by (metis XOR_id_cancel)

lemma XOR_id_zero_iff: "length a = length b \<Longrightarrow> (\<forall>x \<in> set (XOR_id a b). x = 0) \<longleftrightarrow> a = b"
  by (induction a b rule: list_induct2) (auto, (metis xor.left_neutral xor.assoc xor_self_eq)+)

lemma be_val_zero_iff: "be_val bs = 0 \<longleftrightarrow> (\<forall>x \<in> set bs. x = 0)"
  by (induction bs) (auto simp: unat_eq_0)

lemma be_val_XOR_id_zero: "length a = length b \<Longrightarrow> be_val (XOR_id a b) = 0 \<longleftrightarrow> a = b"
  by (simp add: be_val_zero_iff XOR_id_zero_iff)

lemma be_val_inject: "length a = length b \<Longrightarrow> be_val a = be_val b \<longleftrightarrow> a = b"
  by (metis be_bytes_be_val)

lemma bytes_less_iff: "length a = length b \<Longrightarrow> bytes_less a b \<longleftrightarrow> be_val a < be_val b"
proof (induction a b rule: list_induct2)
  case (Cons a as b bs)
  have step: "unat x < unat y \<Longrightarrow> unat x * 256 ^ n + r < unat y * 256 ^ n + r'"
    if "r < 256 ^ n" for x y :: byte and r r' n :: nat
  proof -
    assume "unat x < unat y"
    then have "(unat x + 1) * 256 ^ n \<le> unat y * 256 ^ n" by (intro mult_right_mono) auto
    with that show ?thesis by simp
  qed
  have "unat a < unat b \<or> unat b < unat a" if "a \<noteq> b"
    using that by (metis linorder_neqE_nat word_unat_eq_iff)
  with Cons step [OF be_val_less [of as], of a b "be_val bs"]
    step [OF be_val_less [of bs], of b a "be_val as"]
  show ?case by (auto simp: word_less_nat_alt)
qed simp

lemma Closer_iff:
  "wf_id a \<Longrightarrow> wf_id b \<Longrightarrow> wf_id t \<Longrightarrow>
     Closer a b t \<longleftrightarrow> be_val (XOR_id a t) < be_val (XOR_id b t)"
  by (simp add: Closer_def bytes_less_iff wf_id_def)

section \<open>Bucket index\<close>

lemma bit_len_bounds: "0 < n \<Longrightarrow> 2 ^ (bit_len n - 1) \<le> n \<and> n < 2 ^ bit_len n \<and> 0 < bit_len n"
proof (induction n rule: bit_len.induct)
  case (1 n)
  show ?case
  proof (cases "n < 2")
    case True
    with 1(2) have "n = 1" by simp
    then show ?thesis by (simp add: bit_len.simps)
  next
    case False
    then have "0 < n div 2" "n \<noteq> 0" by auto
    with 1(1) have IH: "2 ^ (bit_len (n div 2) - 1) \<le> n div 2" "n div 2 < 2 ^ bit_len (n div 2)"
      "0 < bit_len (n div 2)" by auto
    then obtain l where l: "bit_len (n div 2) = Suc l" by (cases "bit_len (n div 2)") auto
    have "2 * 2 ^ l \<le> n" "n < 2 * 2 ^ Suc l" using IH unfolding l by auto
    with \<open>n \<noteq> 0\<close> l show ?thesis by (simp add: bit_len.simps [of n])
  qed
qed

lemma bit_len_byte: "bit_len (unat (b::byte)) \<le> 8"
proof (rule ccontr)
  assume *: "\<not> ?thesis"
  then have "unat b \<noteq> 0" by (metis bit_len.simps le0)
  with bit_len_bounds [of "unat b"] have "2 ^ (bit_len (unat b) - 1) \<le> unat b" by simp
  moreover have "(2::nat) ^ 8 \<le> 2 ^ (bit_len (unat b) - 1)" using * by (intro power_increasing) auto
  ultimately show False using unat_byte_less [of b] by simp
qed

text \<open>The scan from byte \<open>i\<close> finds the highest set bit of the rest of the identifier.\<close>

lemma bucket_scan_spec:
  "i + length ds = 32 \<Longrightarrow> be_val ds \<noteq> 0 \<Longrightarrow>
     bucket_scan i ds < 256 \<and>
     2 ^ (255 - bucket_scan i ds) \<le> be_val ds \<and> be_val ds < 2 ^ (256 - bucket_scan i ds)"
proof (induction i ds rule: bucket_scan.induct)
  case (2 i b bs)
  show ?case
  proof (cases "b = 0")
    case False
    define n l where "n = length bs" and "l = bit_len (unat b)"
    have l: "2 ^ (l - 1) \<le> unat b" "unat b < 2 ^ l" "0 < l" "l \<le> 8"
      using bit_len_bounds [of "unat b"] bit_len_byte [of b] False by (auto simp: l_def unat_gt_0)
    have exps: "255 - (i * 8 + (8 - l)) = (l - 1) + 8 * n" "256 - (i * 8 + (8 - l)) = l + 8 * n"
      "i * 8 + (8 - l) < 256"
      using 2(2) l by (auto simp: n_def)
    have pow: "(2::nat) ^ (m + 8 * n) = 2 ^ m * 256 ^ n" for m
      by (simp add: power_add power_mult)
    have lo: "2 ^ (l - 1) * 256 ^ n \<le> unat b * 256 ^ n + be_val bs"
      using l by (simp add: trans_le_add1)
    have "unat b * 256 ^ n + be_val bs < (unat b + 1) * 256 ^ n"
      using be_val_less [of bs] by (simp add: n_def)
    also have "\<dots> \<le> 2 ^ l * 256 ^ n" using l by (intro mult_right_mono) auto
    finally have hi: "unat b * 256 ^ n + be_val bs < 2 ^ l * 256 ^ n" .
    show ?thesis
      using exps(3) lo hi
      unfolding bucket_scan.simps LeadingZeros8_def l_def [symmetric] n_def [symmetric] be_val_Cons
        if_P [OF False] exps(1,2) pow
      by (intro conjI)
  next
    case True
    with 2 show ?thesis by simp
  qed
qed simp

lemma BucketIndex_spec:
  "wf_id d \<Longrightarrow> be_val d \<noteq> 0 \<Longrightarrow>
     2 ^ (255 - BucketIndex d) \<le> be_val d \<and> be_val d < 2 ^ (256 - BucketIndex d)"
  using bucket_scan_spec [of 0 d] by (simp add: BucketIndex_def wf_id_def IDBytes_def)

lemma LeadingZeros8_le: "b \<noteq> 0 \<Longrightarrow> LeadingZeros8 b \<le> 7"
  using bit_len_bounds [of "unat b"] by (auto simp: LeadingZeros8_def unat_gt_0)

lemma bucket_scan_less: "i + length ds \<le> 32 \<Longrightarrow> bucket_scan i ds < IDBits"
proof (induction i ds rule: bucket_scan.induct)
  case (2 i b bs)
  then show ?case using LeadingZeros8_le [of b] by (auto simp: IDBits_def)
qed (simp add: IDBits_def)

lemma BucketIndex_less: "length d \<le> IDBytes \<Longrightarrow> BucketIndex d < IDBits"
  using bucket_scan_less [of 0 d] by (simp add: BucketIndex_def IDBytes_def)

section \<open>Parsing\<close>

lemma ParseID_wf: "ParseID s = Some d \<Longrightarrow> wf_id d"
  by (auto simp: ParseID_def wf_id_def zero_id_def IDBytes_def split: option.splits if_splits)

lemma ParseID_String [simp]: "wf_id d \<Longrightarrow> ParseID (ID_String d) = Some d"
  by (simp add: ParseID_def ID_String_def wf_id_def zero_id_def codec_simps)

lemma ParseID_decode: "ParseID s = Some d \<longleftrightarrow> hex_decode s = Some d \<and> wf_id d"
  by (auto simp: ParseID_def wf_id_def zero_id_def codec_simps split: option.splits if_splits)

lemma ID_String_inject [simp]: "ID_String a = ID_String b \<longleftrightarrow> a = b"
  by (simp add: ID_String_def)

section \<open>Properties\<close>

text \<open>Byte-by-byte comparison decides the Kademlia metric: \<open>Closer a b t\<close> holds exactly
  when the XOR of \<open>a\<close> and \<open>t\<close>, read as a 256-bit number, is smaller than that of \<open>b\<close> and \<open>t\<close>;
  the distance is zero only between equal identifiers, so two contacts are never tied unless they
  are the same.\<close>

lemma Closer_is_xor_metric:
  assumes "wf_id a" "wf_id b" "wf_id t"
  shows "(Closer a b t \<longleftrightarrow> be_val (XOR_id a t) < be_val (XOR_id b t)) \<and>
    (be_val (XOR_id a t) = 0 \<longleftrightarrow> a = t) \<and>
    (\<not> Closer a b t \<and> \<not> Closer b a t \<longleftrightarrow> a = b)"
proof (intro conjI)
  show "Closer a b t \<longleftrightarrow> be_val (XOR_id a t) < be_val (XOR_id b t)" using assms by (rule Closer_iff)
  show "be_val (XOR_id a t) = 0 \<longleftrightarrow> a = t" using assms by (simp add: be_val_XOR_id_zero wf_id_def)
  have "be_val (XOR_id a t) = be_val (XOR_id b t) \<longleftrightarrow> a = b"
    using assms by (simp add: be_val_inject XOR_id_eq_iff wf_id_def)
  then show "\<not> Closer a b t \<and> \<not> Closer b a t \<longleftrightarrow> a = b"
    using Closer_iff assms by (metis linorder_less_linear order_less_irrefl)
qed

definition id_of_nat :: "nat \<Rightarrow> ID" where "id_of_nat n = be_bytes IDBytes n"

lemma wf_id_of_nat [simp]: "wf_id (id_of_nat n)"
  by (simp add: id_of_nat_def wf_id_def)

text \<open>The bucket of a non-zero distance is the position of its highest set bit, counted
  from the most significant end: a distance lies in bucket \<open>i\<close> exactly when it is between
  \<open>2^(255-i)\<close> and \<open>2^(256-i)\<close>, so each bucket halves the distance range of the one before.\<close>

lemma BucketIndex_highest_bit:
  assumes "wf_id d" "be_val d \<noteq> 0" "i < IDBits"
  shows "BucketIndex d = i \<longleftrightarrow> 2 ^ (255 - i) \<le> be_val d \<and> be_val d < 2 ^ (256 - i)"
proof
  assume "BucketIndex d = i"
  then show "2 ^ (255 - i) \<le> be_val d \<and> be_val d < 2 ^ (256 - i)" using BucketIndex_spec assms by blast
next
  assume i: "2 ^ (255 - i) \<le> be_val d \<and> be_val d < 2 ^ (256 - i)"
  let ?j = "BucketIndex d"
  have j: "2 ^ (255 - ?j) \<le> be_val d" "be_val d < 2 ^ (256 - ?j)" "?j < 256"
    using BucketIndex_spec [OF assms(1,2)] BucketIndex_less [of d] assms(1)
    by (auto simp: wf_id_def IDBits_def)
  have "(2::nat) ^ (255 - i) < 2 ^ (256 - ?j)" by (rule le_less_trans [OF conjunct1 [OF i] j(2)])
  then have "255 - i < 256 - ?j" by (rule power_less_imp_less_exp [rotated]) simp
  moreover have "(2::nat) ^ (255 - ?j) < 2 ^ (256 - i)" by (rule le_less_trans [OF j(1) conjunct2 [OF i]])
  then have "255 - ?j < 256 - i" by (rule power_less_imp_less_exp [rotated]) simp
  ultimately show "?j = i" using j(3) assms(3) by (simp add: IDBits_def)
qed

end
