(* ===== verification/Routing_Table.thy ===== *)
theory Routing_Table
  imports Kad_ID
begin

text \<open>
  The Kademlia routing table (\<^verbatim>\<open>dht/dht.go\<close>, sections ``Contacts'', ``Routing table'' and
  ``Bucket''): 256 buckets of at most \<open>K\<close> contacts. The loops over a bucket that stop at the
  first match are recursions over the list. The locks of the code make every operation atomic,
  so an operation is a function from table to table.

  The locale \<open>contact_store\<close> is the interface the protocol code relies on; it is interpreted
  on a bucket and on the whole table.
\<close>

definition K :: nat where "K = 8"
definition maxMissedPings :: int where "maxMissedPings = 4"

record contact =
  cID :: ID
  cAddr :: string
  LastSeen :: time
  MissedPings :: int
  Suspect :: bool

type_synonym bucket = "contact list"

section \<open>Buckets\<close>

fun bucket_replace :: "contact \<Rightarrow> bucket \<Rightarrow> bucket option" where
  "bucket_replace c [] = None"
| "bucket_replace c (e # es) =
     (if cID e = cID c then Some (c # es) else map_option ((#) e) (bucket_replace c es))"

definition bucket_add :: "contact \<Rightarrow> bucket \<Rightarrow> bucket" where
  "bucket_add c b = (case bucket_replace c b of
     Some b' \<Rightarrow> b'
   | None \<Rightarrow> (if length b \<ge> K then drop 1 b else b) @ [c])"

fun bucket_remove :: "ID \<Rightarrow> bucket \<Rightarrow> bucket" where
  "bucket_remove i [] = []"
| "bucket_remove i (e # es) = (if cID e = i then es else e # bucket_remove i es)"

fun bucket_markMissed :: "ID \<Rightarrow> bucket \<Rightarrow> bucket" where
  "bucket_markMissed i [] = []"
| "bucket_markMissed i (e # es) =
     (if cID e = i then
        (let e' = e\<lparr>MissedPings := MissedPings e + 1, Suspect := True\<rparr> in
         if MissedPings e' \<ge> maxMissedPings then es else e' # es)
      else e # bucket_markMissed i es)"

fun bucket_resetMissed :: "ID \<Rightarrow> bucket \<Rightarrow> bucket" where
  "bucket_resetMissed i [] = []"
| "bucket_resetMissed i (e # es) =
     (if cID e = i then e\<lparr>MissedPings := 0, Suspect := False\<rparr> # es
      else e # bucket_resetMissed i es)"

definition bucket_snapshot :: "bucket \<Rightarrow> contact list" where "bucket_snapshot b = b"
definition bucket_len :: "bucket \<Rightarrow> nat" where "bucket_len b = length b"

section \<open>The table\<close>

record routing_table =
  rt_self :: ID
  rt_buckets :: "bucket list"

definition NewRoutingTable :: "ID \<Rightarrow> routing_table" where
  "NewRoutingTable self = \<lparr>rt_self = self, rt_buckets = replicate IDBits []\<rparr>"

definition rt_index :: "routing_table \<Rightarrow> ID \<Rightarrow> nat" where
  "rt_index rt i = BucketIndex (XOR_id (rt_self rt) i)"

definition rt_update :: "(bucket \<Rightarrow> bucket) \<Rightarrow> nat \<Rightarrow> routing_table \<Rightarrow> routing_table" where
  "rt_update f k rt = rt\<lparr>rt_buckets := (rt_buckets rt)[k := f (rt_buckets rt ! k)]\<rparr>"

definition rt_Add :: "contact \<Rightarrow> routing_table \<Rightarrow> routing_table" where
  "rt_Add c rt = (if cID c = rt_self rt then rt else rt_update (bucket_add c) (rt_index rt (cID c)) rt)"

definition rt_Remove :: "ID \<Rightarrow> routing_table \<Rightarrow> routing_table" where
  "rt_Remove i rt = rt_update (bucket_remove i) (rt_index rt i) rt"

definition rt_MarkMissed :: "ID \<Rightarrow> routing_table \<Rightarrow> routing_table" where
  "rt_MarkMissed i rt = rt_update (bucket_markMissed i) (rt_index rt i) rt"

definition rt_ResetMissed :: "ID \<Rightarrow> routing_table \<Rightarrow> routing_table" where
  "rt_ResetMissed i rt = rt_update (bucket_resetMissed i) (rt_index rt i) rt"

definition rt_All :: "routing_table \<Rightarrow> contact list" where
  "rt_All rt = concat (map bucket_snapshot (rt_buckets rt))"

definition rt_SuspectContacts :: "routing_table \<Rightarrow> contact list" where
  "rt_SuspectContacts rt = concat (map (\<lambda>b. filter Suspect (bucket_snapshot b)) (rt_buckets rt))"

definition rt_Size :: "routing_table \<Rightarrow> nat" where
  "rt_Size rt = foldl (\<lambda>n b. n + bucket_len b) 0 (rt_buckets rt)"

text \<open>\<open>Closest\<close> sorts by the first eight bytes of the distance only. \<^verbatim>\<open>sort.Slice\<close> is not
  stable; the facts below hold for every order of contacts with equal keys.\<close>

definition prefix_distance :: "ID \<Rightarrow> contact \<Rightarrow> nat" where
  "prefix_distance target c = be_val (take 8 (XOR_id (cID c) target))"

definition rt_Closest :: "ID \<Rightarrow> nat \<Rightarrow> routing_table \<Rightarrow> contact list" where
  "rt_Closest target n rt =
     (let all = concat (map (\<lambda>b. filter (\<lambda>c. \<not> Suspect c) (bucket_snapshot b)) (rt_buckets rt))
      in take n (sort_key (prefix_distance target) all))"

text \<open>What a client observes: the contact stored under an identifier.\<close>

definition bucket_lookup :: "bucket \<Rightarrow> ID \<Rightarrow> contact option" where
  "bucket_lookup b i = find (\<lambda>c. cID c = i) b"

definition rt_lookup :: "routing_table \<Rightarrow> ID \<Rightarrow> contact option" where
  "rt_lookup rt i = bucket_lookup (rt_buckets rt ! rt_index rt i) i"

section \<open>Invariants\<close>

text \<open>A contact is marked suspect exactly when it has missed pings, and is evicted before the
  count reaches the maximum.\<close>

definition ok_contact :: "contact \<Rightarrow> bool" where
  "ok_contact c \<longleftrightarrow> wf_id (cID c) \<and> 0 \<le> MissedPings c \<and> MissedPings c < maxMissedPings \<and>
     (Suspect c \<longleftrightarrow> 0 < MissedPings c)"

definition bucket_inv :: "bucket \<Rightarrow> bool" where
  "bucket_inv b \<longleftrightarrow> length b \<le> K \<and> distinct (map cID b) \<and> (\<forall>c \<in> set b. ok_contact c)"

definition rt_inv :: "routing_table \<Rightarrow> bool" where
  "rt_inv rt \<longleftrightarrow> wf_id (rt_self rt) \<and> length (rt_buckets rt) = IDBits \<and>
     (\<forall>k < IDBits. bucket_inv (rt_buckets rt ! k) \<and>
        (\<forall>c \<in> set (rt_buckets rt ! k). cID c \<noteq> rt_self rt \<and> rt_index rt (cID c) = k))"

section \<open>The interface of a contact store\<close>

locale contact_store =
  fixes inv :: "'s \<Rightarrow> bool"
    and lookup :: "'s \<Rightarrow> ID \<Rightarrow> contact option"
    and add :: "contact \<Rightarrow> 's \<Rightarrow> 's"
    and remove :: "ID \<Rightarrow> 's \<Rightarrow> 's"
    and accepts :: "'s \<Rightarrow> contact \<Rightarrow> bool"
  assumes add_inv: "inv s \<Longrightarrow> ok_contact c \<Longrightarrow> inv (add c s)"
    and remove_inv: "inv s \<Longrightarrow> inv (remove i s)"
    and lookup_id: "inv s \<Longrightarrow> lookup s i = Some c \<Longrightarrow> cID c = i \<and> ok_contact c"
    and lookup_add_same: "inv s \<Longrightarrow> accepts s c \<Longrightarrow> lookup (add c s) (cID c) = Some c"
    and lookup_add_origin:
      "inv s \<Longrightarrow> lookup (add c s) i = Some e \<Longrightarrow> e = c \<or> lookup s i = Some e"
    and lookup_remove: "inv s \<Longrightarrow> lookup (remove i s) j = (if i = j then None else lookup s j)"
begin

lemma fold_add_inv: "inv s \<Longrightarrow> \<forall>c \<in> set cs. ok_contact c \<Longrightarrow> inv (fold add cs s)"
  by (induction cs arbitrary: s) (auto simp: add_inv)

text \<open>Adding a batch of contacts invents nothing.\<close>

lemma fold_add_origin:
  "inv s \<Longrightarrow> \<forall>c \<in> set cs. ok_contact c \<Longrightarrow> lookup (fold add cs s) i = Some e \<Longrightarrow>
     e \<in> set cs \<or> lookup s i = Some e"
  by (induction cs arbitrary: s) (auto, metis add_inv lookup_add_origin)

lemma remove_add: "inv s \<Longrightarrow> ok_contact c \<Longrightarrow> lookup (remove (cID c) (add c s)) (cID c) = None"
  by (simp add: add_inv lookup_remove)

lemma fold_remove:
  "inv s \<Longrightarrow> lookup (fold remove is s) j = (if j \<in> set is then None else lookup s j)"
  by (induction "is" arbitrary: s) (auto simp: remove_inv lookup_remove)

end

section \<open>Buckets satisfy the interface\<close>

lemma bucket_lookup_Nil [simp]: "bucket_lookup [] i = None"
  by (simp add: bucket_lookup_def)

lemma bucket_lookup_Cons [simp]:
  "bucket_lookup (c # b) i = (if cID c = i then Some c else bucket_lookup b i)"
  by (simp add: bucket_lookup_def)

lemma bucket_lookup_append [simp]:
  "bucket_lookup (a @ b) i = (case bucket_lookup a i of None \<Rightarrow> bucket_lookup b i | Some c \<Rightarrow> Some c)"
  by (induction a) auto

lemma bucket_lookup_None: "bucket_lookup b i = None \<longleftrightarrow> i \<notin> cID ` set b"
  by (induction b) auto

lemma bucket_lookup_absent [simp]: "i \<notin> cID ` set b \<Longrightarrow> bucket_lookup b i = None"
  by (simp add: bucket_lookup_None)

lemma bucket_lookup_Some:
  "distinct (map cID b) \<Longrightarrow> bucket_lookup b i = Some c \<longleftrightarrow> c \<in> set b \<and> cID c = i"
  by (induction b) (auto simp: image_iff)

lemma bucket_replace_None: "bucket_replace c b = None \<longleftrightarrow> cID c \<notin> cID ` set b"
  by (induction b) auto

lemma bucket_replace_Some:
  "bucket_replace c b = Some b' \<Longrightarrow>
     map cID b' = map cID b \<and> set b' \<subseteq> insert c (set b) \<and>
     bucket_lookup b' i = (if i = cID c then Some c else bucket_lookup b i)"
  by (induction b arbitrary: b') (auto split: if_splits)

text \<open>The full effect of an insertion: the newcomer is found, the oldest contact of a full bucket
  is dropped, everything else stays.\<close>

lemma bucket_lookup_add:
  assumes "bucket_inv b"
  shows "bucket_lookup (bucket_add c b) i =
    (if i = cID c then Some c
     else if length b = K \<and> cID c \<notin> cID ` set b \<and> i = cID (hd b) then None
     else bucket_lookup b i)"
proof (cases "bucket_replace c b")
  case None
  then have "cID c \<notin> cID ` set b" by (simp add: bucket_replace_None)
  with None assms show ?thesis
    by (cases b) (auto simp: bucket_add_def bucket_inv_def K_def split: option.split)
next
  case (Some b')
  then have "cID c \<in> cID ` set b" using bucket_replace_None [of c b] by auto
  then show ?thesis
    using bucket_replace_Some [OF Some, of i] Some by (simp add: bucket_add_def)
qed

lemma bucket_add_set: "set (bucket_add c b) \<subseteq> insert c (set b)"
  using bucket_replace_Some [of c b] by (auto simp: bucket_add_def split: option.splits dest: in_set_dropD)

lemma bucket_add_inv: "bucket_inv b \<Longrightarrow> ok_contact c \<Longrightarrow> bucket_inv (bucket_add c b)"
proof (cases "bucket_replace c b")
  case None
  then have "cID c \<notin> cID ` set b" by (simp add: bucket_replace_None)
  moreover assume "bucket_inv b" "ok_contact c"
  ultimately show ?thesis using None
    by (auto simp: bucket_add_def bucket_inv_def K_def drop_map [symmetric] dest!: in_set_dropD)
next
  case (Some b')
  moreover have "length b' = length b" using bucket_replace_Some [OF Some] by (metis length_map)
  moreover assume "bucket_inv b" "ok_contact c"
  ultimately show ?thesis
    using bucket_replace_Some [OF Some] by (auto simp: bucket_add_def bucket_inv_def)
qed

lemma bucket_remove_set: "set (bucket_remove i b) \<subseteq> set b"
  by (induction b) auto

lemma bucket_remove_inv: "bucket_inv b \<Longrightarrow> bucket_inv (bucket_remove i b)"
proof -
  have "distinct (map cID b) \<Longrightarrow> distinct (map cID (bucket_remove i b))"
    by (induction b) (auto dest: subsetD [OF bucket_remove_set])
  moreover have "length (bucket_remove i b) \<le> length b" by (induction b) auto
  ultimately show "bucket_inv b \<Longrightarrow> ?thesis"
    using bucket_remove_set [of i b] by (auto simp: bucket_inv_def)
qed

lemma bucket_lookup_remove:
  "bucket_inv b \<Longrightarrow> bucket_lookup (bucket_remove i b) j = (if i = j then None else bucket_lookup b j)"
proof -
  have "distinct (map cID b) \<Longrightarrow>
    bucket_lookup (bucket_remove i b) j = (if i = j then None else bucket_lookup b j)"
    by (induction b) (auto simp: bucket_lookup_None)
  then show "bucket_inv b \<Longrightarrow> ?thesis" by (simp add: bucket_inv_def)
qed

interpretation bk: contact_store bucket_inv bucket_lookup bucket_add bucket_remove "\<lambda>_ _. True"
proof
  show "bucket_inv b \<Longrightarrow> bucket_lookup b i = Some c \<Longrightarrow> cID c = i \<and> ok_contact c" for b i c
    by (auto simp: bucket_inv_def bucket_lookup_Some)
qed (auto simp: bucket_add_inv bucket_remove_inv bucket_lookup_add bucket_lookup_remove split: if_splits)

section \<open>The table satisfies the interface\<close>

lemma rt_index_less: "rt_inv rt \<Longrightarrow> rt_index rt i < IDBits"
  by (auto simp: rt_index_def rt_inv_def wf_id_def intro!: BucketIndex_less)

lemma rt_bucket_inv: "rt_inv rt \<Longrightarrow> k < IDBits \<Longrightarrow> bucket_inv (rt_buckets rt ! k)"
  by (simp add: rt_inv_def)

lemma rt_member:
  "rt_inv rt \<Longrightarrow> k < IDBits \<Longrightarrow> c \<in> set (rt_buckets rt ! k) \<Longrightarrow>
     cID c \<noteq> rt_self rt \<and> rt_index rt (cID c) = k \<and> ok_contact c"
  by (auto simp: rt_inv_def bucket_inv_def)

lemma rt_lookup_at: "rt_index rt i = k \<Longrightarrow> bucket_lookup (rt_buckets rt ! k) i = rt_lookup rt i"
  by (simp add: rt_lookup_def)

lemma rt_update_fields [simp]:
  "rt_self (rt_update f k rt) = rt_self rt" "rt_index (rt_update f k rt) i = rt_index rt i"
  by (simp_all add: rt_update_def rt_index_def)

lemma rt_update_inv:
  assumes "rt_inv rt" "k < IDBits" "bucket_inv (f (rt_buckets rt ! k))"
    and "\<And>c. c \<in> set (f (rt_buckets rt ! k)) \<Longrightarrow> cID c \<noteq> rt_self rt \<and> rt_index rt (cID c) = k"
  shows "rt_inv (rt_update f k rt)"
  using assms unfolding rt_inv_def rt_update_fields
  by (auto simp: rt_update_def nth_list_update rt_index_def)

lemma rt_lookup_update:
  assumes "rt_inv rt" "k < IDBits"
  shows "rt_lookup (rt_update f k rt) i =
    (if rt_index rt i = k then bucket_lookup (f (rt_buckets rt ! k)) i else rt_lookup rt i)"
  using assms unfolding rt_lookup_def rt_update_fields
  by (auto simp: rt_update_def rt_inv_def)

text \<open>An update that keeps a bucket's invariant and introduces no foreign identifier keeps the
  table's; the three operations below only drop or modify contacts in place.\<close>

lemma rt_update_shrink:
  assumes "rt_inv rt" "\<And>b. bucket_inv b \<Longrightarrow> bucket_inv (f b)" "\<And>b. cID ` set (f b) \<subseteq> cID ` set b"
  shows "rt_inv (rt_update f (rt_index rt i) rt)"
proof (rule rt_update_inv)
  fix c assume "c \<in> set (f (rt_buckets rt ! rt_index rt i))"
  then have "cID c \<in> cID ` set (rt_buckets rt ! rt_index rt i)" using assms(3) by blast
  then obtain e where "e \<in> set (rt_buckets rt ! rt_index rt i)" "cID c = cID e" by blast
  then show "cID c \<noteq> rt_self rt \<and> rt_index rt (cID c) = rt_index rt i"
    using rt_member [OF assms(1) rt_index_less [OF assms(1)]] by metis
qed (simp_all add: assms rt_index_less rt_bucket_inv)

lemma rt_Add_inv: "rt_inv rt \<Longrightarrow> ok_contact c \<Longrightarrow> rt_inv (rt_Add c rt)"
proof (cases "cID c = rt_self rt")
  case False
  assume inv: "rt_inv rt" "ok_contact c"
  have "e = c \<or> e \<in> set (rt_buckets rt ! rt_index rt (cID c))"
    if "e \<in> set (bucket_add c (rt_buckets rt ! rt_index rt (cID c)))" for e
    using that bucket_add_set by blast
  with inv False rt_index_less [OF inv(1), of "cID c"] have
    "rt_inv (rt_update (bucket_add c) (rt_index rt (cID c)) rt)"
    by (intro rt_update_inv bucket_add_inv) (auto simp: rt_bucket_inv, auto simp: rt_inv_def)
  with False show ?thesis by (simp add: rt_Add_def)
qed (simp add: rt_Add_def)

lemma rt_Remove_inv: "rt_inv rt \<Longrightarrow> rt_inv (rt_Remove i rt)"
  unfolding rt_Remove_def
  by (rule rt_update_shrink) (simp_all add: bucket_remove_inv bucket_remove_set image_mono)

lemma bucket_markMissed_ids: "cID ` set (bucket_markMissed i b) \<subseteq> cID ` set b"
  by (induction b) (auto simp: Let_def)

lemma bucket_resetMissed_ids: "cID ` set (bucket_resetMissed i b) \<subseteq> cID ` set b"
  by (induction b) auto

lemma bucket_markMissed_inv: "bucket_inv b \<Longrightarrow> bucket_inv (bucket_markMissed i b)"
proof -
  have "distinct (map cID b) \<Longrightarrow> distinct (map cID (bucket_markMissed i b))"
  proof (induction b)
    case (Cons e es)
    have "cID e \<notin> cID ` set (bucket_markMissed i es)"
      using Cons.prems bucket_markMissed_ids [of i es] by auto
    with Cons show ?case by (auto simp: Let_def)
  qed simp
  moreover have "length (bucket_markMissed i b) \<le> length b" by (induction b) (auto simp: Let_def)
  moreover have "ok_contact c \<Longrightarrow> MissedPings c + 1 < maxMissedPings \<Longrightarrow>
    ok_contact (c\<lparr>MissedPings := MissedPings c + 1, Suspect := True\<rparr>)" for c
    by (simp add: ok_contact_def)
  then have "\<forall>c \<in> set b. ok_contact c \<Longrightarrow> \<forall>c \<in> set (bucket_markMissed i b). ok_contact c"
    by (induction b) (simp_all add: Let_def)
  ultimately show "bucket_inv b \<Longrightarrow> ?thesis" by (simp add: bucket_inv_def)
qed

lemma bucket_resetMissed_inv: "bucket_inv b \<Longrightarrow> bucket_inv (bucket_resetMissed i b)"
proof -
  have "map cID (bucket_resetMissed i b) = map cID b" by (induction b) auto
  moreover from this have "length (bucket_resetMissed i b) = length b" by (metis length_map)
  moreover have "ok_contact c \<Longrightarrow> ok_contact (c\<lparr>MissedPings := 0, Suspect := False\<rparr>)" for c
    by (simp add: ok_contact_def maxMissedPings_def)
  then have "\<forall>c \<in> set b. ok_contact c \<Longrightarrow> \<forall>c \<in> set (bucket_resetMissed i b). ok_contact c"
    by (induction b) simp_all
  ultimately show "bucket_inv b \<Longrightarrow> ?thesis" by (simp add: bucket_inv_def)
qed

lemma rt_MarkMissed_inv: "rt_inv rt \<Longrightarrow> rt_inv (rt_MarkMissed i rt)"
  unfolding rt_MarkMissed_def
  by (rule rt_update_shrink) (simp_all add: bucket_markMissed_inv bucket_markMissed_ids)

lemma rt_ResetMissed_inv: "rt_inv rt \<Longrightarrow> rt_inv (rt_ResetMissed i rt)"
  unfolding rt_ResetMissed_def
  by (rule rt_update_shrink) (simp_all add: bucket_resetMissed_inv bucket_resetMissed_ids)

lemma NewRoutingTable_inv: "wf_id self \<Longrightarrow> rt_inv (NewRoutingTable self)"
  by (simp add: rt_inv_def NewRoutingTable_def bucket_inv_def)

text \<open>The effect of every operation on what a lookup sees.\<close>

lemma rt_lookup_Add:
  assumes "rt_inv rt" "cID c \<noteq> rt_self rt"
  shows "rt_lookup (rt_Add c rt) i =
    (let b = rt_buckets rt ! rt_index rt (cID c) in
     if i = cID c then Some c
     else if length b = K \<and> cID c \<notin> cID ` set b \<and> i = cID (hd b) then None
     else rt_lookup rt i)"
proof -
  define k where "k = rt_index rt (cID c)"
  have k: "k < IDBits" using assms rt_index_less by (simp add: k_def)
  have hd: "rt_index rt (cID (hd (rt_buckets rt ! k))) = k" if "length (rt_buckets rt ! k) = K"
  proof -
    have "hd (rt_buckets rt ! k) \<in> set (rt_buckets rt ! k)"
      using that by (intro hd_in_set) (auto simp: K_def)
    with assms k show ?thesis using rt_member by blast
  qed
  show ?thesis
    using assms k hd
    by (auto simp: rt_Add_def rt_lookup_update bucket_lookup_add rt_bucket_inv Let_def rt_lookup_at
        simp flip: k_def)
qed

lemma rt_lookup_Remove:
  "rt_inv rt \<Longrightarrow> rt_lookup (rt_Remove i rt) j = (if i = j then None else rt_lookup rt j)"
  by (auto simp: rt_Remove_def rt_lookup_update rt_index_less bucket_lookup_remove rt_bucket_inv rt_lookup_at)

interpretation rt: contact_store rt_inv rt_lookup rt_Add rt_Remove "\<lambda>rt c. cID c \<noteq> rt_self rt"
proof
  show "rt_inv rt \<Longrightarrow> rt_lookup rt i = Some c \<Longrightarrow> cID c = i \<and> ok_contact c" for rt i c
    unfolding rt_lookup_def by (erule bk.lookup_id [OF rt_bucket_inv, rotated 2]) (simp_all add: rt_index_less)
  show "e = c \<or> rt_lookup rt i = Some e" if "rt_inv rt" "rt_lookup (rt_Add c rt) i = Some e"
    for rt c i e
    using that
    by (cases "cID c = rt_self rt", simp add: rt_Add_def) (simp add: rt_lookup_Add Let_def split: if_splits)
qed (simp_all add: rt_Add_inv rt_Remove_inv rt_lookup_Add rt_lookup_Remove Let_def)

section \<open>Missed pings\<close>

lemma bucket_lookup_markMissed:
  "bucket_inv b \<Longrightarrow> bucket_lookup (bucket_markMissed i b) j =
     (case bucket_lookup b j of
        Some c \<Rightarrow> if i \<noteq> j then Some c
          else if MissedPings c + 1 \<ge> maxMissedPings then None
          else Some (c\<lparr>MissedPings := MissedPings c + 1, Suspect := True\<rparr>)
      | None \<Rightarrow> None)"
proof -
  have "distinct (map cID b) \<Longrightarrow> bucket_lookup (bucket_markMissed i b) j =
     (case bucket_lookup b j of
        Some c \<Rightarrow> if i \<noteq> j then Some c
          else if MissedPings c + 1 \<ge> maxMissedPings then None
          else Some (c\<lparr>MissedPings := MissedPings c + 1, Suspect := True\<rparr>)
      | None \<Rightarrow> None)"
    by (induction b) (auto simp: Let_def split: option.split)
  then show "bucket_inv b \<Longrightarrow> ?thesis" by (simp add: bucket_inv_def)
qed

lemma bucket_lookup_resetMissed:
  "bucket_lookup (bucket_resetMissed i b) j =
     (case bucket_lookup b j of
        Some c \<Rightarrow> Some (if i = j then c\<lparr>MissedPings := 0, Suspect := False\<rparr> else c)
      | None \<Rightarrow> None)"
  by (induction b) (auto split: option.split)

lemma rt_lookup_MarkMissed:
  "rt_inv rt \<Longrightarrow> rt_lookup (rt_MarkMissed i rt) j =
     (case rt_lookup rt j of
        Some c \<Rightarrow> if i \<noteq> j then Some c
          else if MissedPings c + 1 \<ge> maxMissedPings then None
          else Some (c\<lparr>MissedPings := MissedPings c + 1, Suspect := True\<rparr>)
      | None \<Rightarrow> None)"
  by (auto simp: rt_MarkMissed_def rt_lookup_update rt_index_less bucket_lookup_markMissed
      rt_bucket_inv rt_lookup_at split: option.split)

lemma rt_lookup_ResetMissed:
  "rt_inv rt \<Longrightarrow> rt_lookup (rt_ResetMissed i rt) j =
     (case rt_lookup rt j of
        Some c \<Rightarrow> Some (if i = j then c\<lparr>MissedPings := 0, Suspect := False\<rparr> else c)
      | None \<Rightarrow> None)"
  by (auto simp: rt_ResetMissed_def rt_lookup_update rt_index_less bucket_lookup_resetMissed
      rt_lookup_at split: option.split)

lemma rt_MarkMissed_pow_inv: "rt_inv rt \<Longrightarrow> rt_inv ((rt_MarkMissed i ^^ n) rt)"
  by (induction n) (simp_all add: rt_MarkMissed_inv)

lemma rt_MarkMissed_pow:
  assumes "rt_inv rt" "rt_lookup rt i = Some c"
  shows "rt_lookup ((rt_MarkMissed i ^^ n) rt) i =
    (if MissedPings c + int n \<ge> maxMissedPings then None
     else if n = 0 then Some c
     else Some (c\<lparr>MissedPings := MissedPings c + int n, Suspect := True\<rparr>))"
proof (induction n)
  case 0
  have "ok_contact c" using rt.lookup_id assms by blast
  with assms show ?case by (simp add: ok_contact_def)
next
  case (Suc n)
  then show ?case
    using rt_lookup_MarkMissed [OF rt_MarkMissed_pow_inv [OF assms(1)], of i n i i] by auto
qed

section \<open>Enumeration\<close>

lemma map_bucket_snapshot [simp]: "map bucket_snapshot bs = bs"
  by (induction bs) (simp_all add: bucket_snapshot_def)

lemma rt_buckets_nth: "rt_inv rt \<Longrightarrow> b \<in> set (rt_buckets rt) \<Longrightarrow> \<exists>k < IDBits. b = rt_buckets rt ! k"
  by (metis in_set_conv_nth rt_inv_def)

lemma set_rt_All: "rt_inv rt \<Longrightarrow> c \<in> set (rt_All rt) \<longleftrightarrow> rt_lookup rt (cID c) = Some c"
proof
  assume inv: "rt_inv rt"
  { assume "c \<in> set (rt_All rt)"
    then obtain k where "k < IDBits" "c \<in> set (rt_buckets rt ! k)"
      using rt_buckets_nth [OF inv] by (fastforce simp: rt_All_def)
    moreover from this have "rt_index rt (cID c) = k" using rt_member [OF inv] by blast
    ultimately show "rt_lookup rt (cID c) = Some c"
      using rt_bucket_inv [OF inv] by (simp add: rt_lookup_def bucket_lookup_Some bucket_inv_def) }
  { assume "rt_lookup rt (cID c) = Some c"
    then have "c \<in> set (rt_buckets rt ! rt_index rt (cID c))"
      using rt_bucket_inv [OF inv rt_index_less [OF inv]]
      by (simp add: rt_lookup_def bucket_lookup_Some bucket_inv_def)
    moreover have "rt_buckets rt ! rt_index rt (cID c) \<in> set (rt_buckets rt)"
      using inv rt_index_less [OF inv] by (auto simp: rt_inv_def)
    ultimately show "c \<in> set (rt_All rt)" by (auto simp: rt_All_def) }
qed

lemma rt_Size_All: "rt_Size rt = length (rt_All rt)"
proof -
  have "foldl (\<lambda>n b. n + bucket_len b) m bs = m + length (concat (map bucket_snapshot bs))" for m bs
    by (induction bs arbitrary: m) (auto simp: bucket_len_def bucket_snapshot_def)
  then show ?thesis by (simp add: rt_Size_def rt_All_def)
qed

lemma rt_Size_le: "rt_inv rt \<Longrightarrow> rt_Size rt \<le> IDBits * K"
proof -
  have "\<forall>b \<in> set bs. length b \<le> K \<Longrightarrow> length (concat bs) \<le> length bs * K" for bs :: "bucket list"
    by (induction bs) auto
  moreover assume inv: "rt_inv rt"
  then have "\<forall>b \<in> set (rt_buckets rt). length b \<le> K"
    by (metis bucket_inv_def rt_bucket_inv rt_buckets_nth)
  ultimately show ?thesis using inv by (simp add: rt_Size_All rt_All_def) (metis rt_inv_def)
qed

lemma rt_suspects_All: "rt_SuspectContacts rt = filter Suspect (rt_All rt)"
  by (simp add: rt_SuspectContacts_def rt_All_def filter_concat comp_def bucket_snapshot_def)

lemma rt_Closest_All:
  "rt_Closest t n rt = take n (sort_key (prefix_distance t) (filter (\<lambda>c. \<not> Suspect c) (rt_All rt)))"
  by (simp add: rt_Closest_def rt_All_def filter_concat comp_def bucket_snapshot_def)

lemma sorted_take_drop_le:
  "sorted (map f xs) \<Longrightarrow> x \<in> set (take n xs) \<Longrightarrow> y \<in> set (drop n xs) \<Longrightarrow> f x \<le> f y"
  by (subst (asm) append_take_drop_id [of n xs, symmetric]) (simp only: map_append sorted_append set_map, blast)

lemma rt_Closest_min:
  assumes "c \<in> set (rt_Closest t n rt)" "d \<in> set (rt_All rt)" "\<not> Suspect d" "d \<notin> set (rt_Closest t n rt)"
  shows "prefix_distance t c \<le> prefix_distance t d"
proof -
  let ?xs = "sort_key (prefix_distance t) (filter (\<lambda>c. \<not> Suspect c) (rt_All rt))"
  have "d \<in> set ?xs" using assms(2,3) by simp
  then have "d \<in> set (drop n ?xs)"
    using assms(4) by (metis Un_iff append_take_drop_id rt_Closest_All set_append)
  then show ?thesis
    using sorted_take_drop_le [of "prefix_distance t" ?xs c n d] assms(1) by (simp add: rt_Closest_All)
qed

lemma rt_Closest_subset: "set (rt_Closest t n rt) \<subseteq> {c \<in> set (rt_All rt). \<not> Suspect c}"
  unfolding rt_Closest_All by (auto dest!: in_set_takeD)

lemma length_rt_Closest:
  "length (rt_Closest t n rt) = min n (length (filter (\<lambda>c. \<not> Suspect c) (rt_All rt)))"
  by (simp add: rt_Closest_All)

lemma distinct_rt_All:
  assumes "rt_inv rt"
  shows "distinct (map cID (rt_All rt))"
proof -
  have "distinct (map cID (concat (take m (rt_buckets rt))))" if "m \<le> IDBits" for m
    using that
  proof (induction m)
    case (Suc m)
    then have m: "m < IDBits" "m < length (rt_buckets rt)" using assms by (auto simp: rt_inv_def)
    have "rt_index rt (cID c) < m" if "c \<in> set (concat (take m (rt_buckets rt)))" for c
    proof -
      from that obtain k where "k < m" "c \<in> set (rt_buckets rt ! k)"
        using m by (auto simp: in_set_conv_nth [of _ "take m _"])
      then show ?thesis using m rt_member [OF assms, of k c] by simp
    qed
    moreover have "rt_index rt (cID c) = m" if "c \<in> set (rt_buckets rt ! m)" for c
      using that m rt_member [OF assms] by blast
    ultimately have "cID ` set (concat (take m (rt_buckets rt))) \<inter> cID ` set (rt_buckets rt ! m) = {}"
      by (auto simp del: set_concat) (metis less_irrefl)
    with Suc m rt_bucket_inv [OF assms m(1)] show ?case
      by (simp add: take_Suc_conv_app_nth bucket_inv_def image_Un)
  qed simp
  from this [of IDBits] assms show ?thesis
    by (simp add: rt_All_def rt_inv_def)
qed

section \<open>Properties\<close>

text \<open>Every operation on the routing table keeps it well formed: 256 buckets of at most
  eight contacts, distinct identifiers, each contact in the bucket of its distance, never the node
  itself, and a contact is suspect exactly when it has between one and three missed pings.\<close>

lemma routing_table_invariant:
  assumes "rt_inv rt" "ok_contact c"
  shows "rt_inv (rt_Add c rt) \<and> rt_inv (rt_Remove i rt) \<and>
    rt_inv (rt_MarkMissed i rt) \<and> rt_inv (rt_ResetMissed i rt) \<and>
    rt_Size rt \<le> IDBits * K \<and> distinct (map cID (rt_All rt))"
  using assms
  by (simp_all add: rt_Add_inv rt_Remove_inv rt_MarkMissed_inv rt_ResetMissed_inv rt_Size_le distinct_rt_All)

definition sample_contact :: "nat \<Rightarrow> contact" where
  "sample_contact n = \<lparr>cID = id_of_nat n, cAddr = ''192.0.2.1:443'', LastSeen = 0, MissedPings = 0, Suspect = False\<rparr>"

lemma sample_contact_ok [simp]: "ok_contact (sample_contact n)" "cID (sample_contact n) = id_of_nat n"
  by (simp_all add: sample_contact_def ok_contact_def maxMissedPings_def)

lemma id_of_nat_eq [simp]: "m < 256 \<Longrightarrow> n < 256 \<Longrightarrow> id_of_nat m = id_of_nat n \<longleftrightarrow> m = n"
proof
  assume "m < 256" "n < 256" "id_of_nat m = id_of_nat n"
  then have "be_val (id_of_nat m) = be_val (id_of_nat n)" by simp
  moreover have "(256::nat) \<le> 256 ^ 32" by simp
  ultimately show "m = n" using \<open>m < 256\<close> \<open>n < 256\<close> by (simp add: id_of_nat_def IDBytes_def)
qed simp

text \<open>Insertion is exactly replace-or-append with eviction of the oldest: after
  \<open>Add c\<close> the table holds \<open>c\<close>; if the bucket was full and did not know \<open>c\<close> its first contact is
  gone; every other contact is unchanged. Adding the node itself changes nothing.\<close>

lemma Add_effect:
  assumes "rt_inv rt"
  shows "rt_lookup (rt_Add c rt) i =
    (let b = rt_buckets rt ! rt_index rt (cID c) in
     if cID c = rt_self rt then rt_lookup rt i
     else if i = cID c then Some c
     else if length b = K \<and> cID c \<notin> cID ` set b \<and> i = cID (hd b) then None
     else rt_lookup rt i)"
proof (cases "cID c = rt_self rt")
  case True
  then show ?thesis by (simp add: rt_Add_def Let_def)
next
  case False
  with rt_lookup_Add [OF assms False] show ?thesis by (simp add: Let_def)
qed

text \<open>Failure counting: \<open>n\<close> consecutive missed pings leave a contact in the table,
  suspect, with its count raised by \<open>n\<close>, until the count reaches four; from then on it is gone. A
  response in between clears the count, and other contacts are not affected.\<close>

lemma missed_pings_evict:
  assumes "rt_inv rt" "rt_lookup rt i = Some c"
  shows "rt_lookup ((rt_MarkMissed i ^^ n) rt) i =
      (if MissedPings c + int n \<ge> maxMissedPings then None
       else if n = 0 then Some c
       else Some (c\<lparr>MissedPings := MissedPings c + int n, Suspect := True\<rparr>)) \<and>
    rt_lookup (rt_ResetMissed i rt) i = Some (c\<lparr>MissedPings := 0, Suspect := False\<rparr>) \<and>
    (j \<noteq> i \<longrightarrow> rt_lookup (rt_MarkMissed i rt) j = rt_lookup rt j)"
  using assms by (simp_all add: rt_MarkMissed_pow rt_lookup_ResetMissed rt_lookup_MarkMissed split: option.split)

lemma Closest_truly_closer:
  assumes c: "c \<in> set (rt_Closest t n rt)" and d: "d \<in> set (rt_All rt)" "\<not> Suspect d"
    "d \<notin> set (rt_Closest t n rt)" and wf: "wf_id (cID c)" "wf_id (cID d)" "wf_id t"
  shows "\<not> Closer (cID d) (cID c) t \<or> take 8 (XOR_id (cID d) t) = take 8 (XOR_id (cID c) t)"
proof -
  have split: "be_val x = be_val (take 8 x) * 256 ^ 24 + be_val (drop 8 x) \<and> be_val (drop 8 x) < 256 ^ 24"
    if "wf_id x" for x
  proof -
    have "be_val (take 8 x @ drop 8 x) = be_val (take 8 x) * 256 ^ length (drop 8 x) + be_val (drop 8 x)"
      unfolding be_val_def foldl_append by (rule be_val_foldl [unfolded be_val_def])
    with that be_val_less [of "drop 8 x"] show ?thesis by (simp add: wf_id_def IDBytes_def)
  qed
  have le: "be_val (take 8 (XOR_id (cID c) t)) \<le> be_val (take 8 (XOR_id (cID d) t))"
    using rt_Closest_min [OF c d] by (simp add: prefix_distance_def)
  show ?thesis
  proof (rule disjCI)
    assume ne: "take 8 (XOR_id (cID d) t) \<noteq> take 8 (XOR_id (cID c) t)"
    have "length (take 8 (XOR_id (cID c) t)) = length (take 8 (XOR_id (cID d) t))"
      using wf by (simp add: wf_id_def)
    with ne le have "be_val (take 8 (XOR_id (cID c) t)) + 1 \<le> be_val (take 8 (XOR_id (cID d) t))"
      using be_val_inject by (metis Suc_eq_plus1 Suc_leI le_neq_implies_less)
    then have "(be_val (take 8 (XOR_id (cID c) t)) + 1) * 256 ^ 24 \<le> be_val (take 8 (XOR_id (cID d) t)) * 256 ^ 24"
      by (rule mult_right_mono) simp
    then show "\<not> Closer (cID d) (cID c) t"
      using split [of "XOR_id (cID c) t"] split [of "XOR_id (cID d) t"] wf by (simp add: Closer_iff)
  qed
qed

text \<open>\<open>Closest t n\<close> returns the \<open>n\<close> best of the contacts that are not suspect (all of
  them if there are fewer), and nothing else; any contact it leaves out is at least as far in the
  first 64 bits of the distance, so it is truly farther unless it agrees with a returned one on
  those 64 bits.\<close>

lemma Closest_selects:
  assumes "rt_inv rt" "wf_id t"
  shows "length (rt_Closest t n rt) = min n (length (filter (\<lambda>c. \<not> Suspect c) (rt_All rt))) \<and>
    set (rt_Closest t n rt) \<subseteq> {c \<in> set (rt_All rt). \<not> Suspect c} \<and>
    (\<forall>c \<in> set (rt_Closest t n rt). \<forall>d \<in> set (rt_All rt).
       \<not> Suspect d \<and> d \<notin> set (rt_Closest t n rt) \<longrightarrow>
       \<not> Closer (cID d) (cID c) t \<or> take 8 (XOR_id (cID d) t) = take 8 (XOR_id (cID c) t))"
proof (intro conjI ballI impI)
  fix c d
  assume c: "c \<in> set (rt_Closest t n rt)" and d: "d \<in> set (rt_All rt)"
    "\<not> Suspect d \<and> d \<notin> set (rt_Closest t n rt)"
  have "wf_id (cID x)" if "x \<in> set (rt_All rt)" for x
    using that set_rt_All [OF assms(1)] rt.lookup_id [OF assms(1)] by (metis ok_contact_def)
  then show "\<not> Closer (cID d) (cID c) t \<or> take 8 (XOR_id (cID d) t) = take 8 (XOR_id (cID c) t)"
    using c d assms(2) rt_Closest_subset [of t n rt] by (intro Closest_truly_closer) auto
qed (rule length_rt_Closest rt_Closest_subset)+

text \<open>The comparison of \<open>Closest\<close> stops after 64 bits, so the documented ``nearest to
  target'' can fail: in a table with two contacts that share the first 64 bits of their distance,
  asking for the single closest contact to an identifier that is itself in the table returns the
  other, strictly farther one. (For slices this short \<^verbatim>\<open>sort.Slice\<close> is an insertion sort, which
  keeps the order of ties, as the model does.)\<close>

lemma Closest_prefix_tie:
  "let rt = rt_Add (sample_contact 2) (rt_Add (sample_contact 3) (NewRoutingTable (id_of_nat 1))) in
   rt_inv rt \<and> rt_lookup rt (id_of_nat 2) = Some (sample_contact 2) \<and>
   rt_Closest (id_of_nat 2) 1 rt = [sample_contact 3] \<and>
   Closer (id_of_nat 2) (id_of_nat 3) (id_of_nat 2)"
proof -
  let ?rt = "rt_Add (sample_contact 2) (rt_Add (sample_contact 3) (NewRoutingTable (id_of_nat 1)))"
  have "rt_inv ?rt" by (simp add: rt_Add_inv NewRoutingTable_inv)
  moreover have "rt_lookup ?rt (id_of_nat 2) = Some (sample_contact 2)" by code_simp
  moreover have "rt_Closest (id_of_nat 2) 1 ?rt = [sample_contact 3]" by code_simp
  moreover have "Closer (id_of_nat 2) (id_of_nat 3) (id_of_nat 2)" by code_simp
  ultimately show ?thesis by (simp add: Let_def)
qed

end
