(* ===== verification/Versioned_Register.thy ===== *)
theory Versioned_Register
  imports Prelude
begin

text \<open>
  The contract shared by every gossiped value of the program (control manifest, content manifest,
  relay entry of a node, completion record of a peer): a register that keeps the newest accepted
  version it was offered. The client lemmas are the reasons gossip converges: the version never
  goes back, the result is one of the offered values, and two replicas that were offered the same
  values, in any order and with any repetition, hold the same one.
\<close>

locale versioned_register =
  fixes cur :: "'s \<Rightarrow> 'v option"
    and put :: "'v \<Rightarrow> 's \<Rightarrow> 's"
    and ver :: "'v \<Rightarrow> int"
    and accepts :: "'v \<Rightarrow> bool"
  assumes cur_put: "cur (put v s) =
    (if accepts v \<and> (case cur s of None \<Rightarrow> True | Some w \<Rightarrow> ver w < ver v) then Some v else cur s)"
begin

lemma cur_put_mono: "cur s = Some w \<Longrightarrow> \<exists>w'. cur (put v s) = Some w' \<and> ver w \<le> ver w'"
  by (auto simp: cur_put)

lemma fold_mono: "cur s = Some w \<Longrightarrow> \<exists>w'. cur (fold put vs s) = Some w' \<and> ver w \<le> ver w'"
proof (induction vs arbitrary: s w)
  case (Cons v vs)
  then obtain w1 where "cur (put v s) = Some w1" "ver w \<le> ver w1" using cur_put_mono by blast
  with Cons.IH [of "put v s" w1] show ?case by fastforce
qed simp

lemma fold_origin:
  "cur (fold put vs s) = Some v \<Longrightarrow> v \<in> set vs \<and> accepts v \<or> cur s = Some v"
proof (induction vs arbitrary: s)
  case (Cons u vs)
  from Cons.prems have "v \<in> set vs \<and> accepts v \<or> cur (put u s) = Some v" by (auto dest: Cons.IH)
  then show ?case by (auto simp: cur_put split: if_splits)
qed simp

lemma fold_upper:
  "v \<in> set vs \<Longrightarrow> accepts v \<Longrightarrow> \<exists>w. cur (fold put vs s) = Some w \<and> ver v \<le> ver w"
proof (induction vs arbitrary: s)
  case (Cons u vs)
  show ?case
  proof (cases "v \<in> set vs")
    case False
    with Cons.prems have "v = u" by simp
    then have "\<exists>w. cur (put u s) = Some w \<and> ver v \<le> ver w"
      using Cons.prems by (cases "cur s") (auto simp: cur_put)
    then show ?thesis using fold_mono [of "put u s" _ vs] by fastforce
  qed (use Cons in simp)
qed simp

text \<open>Convergence: versions identify values, so the newest accepted one is unique.\<close>

lemma fold_converges:
  assumes same: "set vs = set ws"
    and uniq: "\<And>v w. v \<in> insert x (set vs) \<Longrightarrow> w \<in> insert x (set vs) \<Longrightarrow> ver v = ver w \<Longrightarrow> v = w"
    and init: "cur s = Some x" "cur t = Some x"
  shows "cur (fold put vs s) = cur (fold put ws t)"
proof -
  obtain a where a: "cur (fold put vs s) = Some a" "ver x \<le> ver a" using fold_mono init(1) by blast
  obtain b where b: "cur (fold put ws t) = Some b" "ver x \<le> ver b" using fold_mono init(2) by blast
  have a_in: "a \<in> set vs \<and> accepts a \<or> a = x" using fold_origin [OF a(1)] init by auto
  have b_in: "b \<in> set vs \<and> accepts b \<or> b = x" using fold_origin [OF b(1)] init same by auto
  have "ver a \<le> ver b" using a_in b fold_upper [of a ws t] same by auto
  moreover have "ver b \<le> ver a" using b_in a fold_upper [of b vs s] by auto
  ultimately have "a = b" using uniq [of a b] a_in b_in by auto
  with a b show ?thesis by simp
qed

lemma fold_converges_fresh:
  assumes same: "set vs = set ws"
    and uniq: "\<And>v w. v \<in> set vs \<Longrightarrow> w \<in> set vs \<Longrightarrow> accepts v \<Longrightarrow> accepts w \<Longrightarrow> ver v = ver w \<Longrightarrow> v = w"
    and init: "cur s = None" "cur t = None"
  shows "cur (fold put vs s) = cur (fold put ws t)"
proof (cases "\<exists>v \<in> set vs. accepts v")
  case False
  then show ?thesis
    using fold_origin [of vs s] fold_origin [of ws t] init same by (metis option.exhaust option.simps(3))
next
  case True
  then obtain a where a: "cur (fold put vs s) = Some a" using fold_upper by blast
  from True obtain b where b: "cur (fold put ws t) = Some b" using fold_upper same by blast
  have a_in: "a \<in> set vs" "accepts a" using fold_origin [OF a] init by auto
  have b_in: "b \<in> set vs" "accepts b" using fold_origin [OF b] init same by auto
  have "ver a \<le> ver b" using fold_upper [of a ws t] a_in b same by auto
  moreover have "ver b \<le> ver a" using fold_upper [of b vs s] b_in a by auto
  ultimately show ?thesis using uniq a_in b_in a b by (metis order_antisym)
qed

end

end
