(* ===== verification/Relay_Store.thy ===== *)
theory Relay_Store
  imports Go_Strings Versioned_Register "HOL-Library.AList"
begin

text \<open>
  Relay entries (\<^verbatim>\<open>dht/dht.go\<close>, ``Relay entry'') and the store that keeps the newest one per
  node (\<^verbatim>\<open>dht/dht_node.go\<close>, ``RelayStore''). \<open>edv pub msg sig\<close> stands for
  \<^verbatim>\<open>ed25519.Verify\<close>. The Go map is an association list without duplicate keys; the order in
  which \<open>all\<close> enumerates it is unspecified in Go, and no fact below depends on it. Unix times are
  \<^verbatim>\<open>int64\<close>: subtractions wrap.
\<close>

definition wrap64 :: "int \<Rightarrow> int" where
  "wrap64 x = (x + 2 ^ 63) mod 2 ^ 64 - 2 ^ 63"

definition is_int64 :: "int \<Rightarrow> bool" where "is_int64 x \<longleftrightarrow> - (2 ^ 63) \<le> x \<and> x < 2 ^ 63"

record RelayEntry =
  NodeID :: string
  reAddr :: string
  CountryCode :: string
  TS :: int
  Sig :: string

definition RelayTTL_s :: int where "RelayTTL_s = 120"

definition relayEntryPayload :: "RelayEntry \<Rightarrow> bytes" where
  "relayEntryPayload e =
     to_bytes (NodeID e @ ''|'' @ reAddr e @ ''|'' @ CountryCode e @ ''|'' @ itoa (TS e))"

datatype verify_error = BadNodeIDLength | NodeIDNotHex | BadSigEncoding | SignatureFailed

text \<open>The error result of \<open>VerifyRelayEntry\<close>; \<^term>\<open>None\<close> is Go's \<^verbatim>\<open>nil\<close>.\<close>

definition VerifyRelayEntry ::
  "(bytes \<Rightarrow> bytes \<Rightarrow> bytes \<Rightarrow> bool) \<Rightarrow> RelayEntry \<Rightarrow> verify_error option" where
  "VerifyRelayEntry edv e =
     (if length (NodeID e) \<noteq> 64 then Some BadNodeIDLength
      else case hex_decode (NodeID e) of
        None \<Rightarrow> Some NodeIDNotHex
      | Some pubBytes \<Rightarrow>
         (case base64_decode (Sig e) of
            None \<Rightarrow> Some BadSigEncoding
          | Some sig \<Rightarrow>
              if length sig \<noteq> 64 then Some BadSigEncoding
              else if \<not> edv pubBytes (relayEntryPayload e) sig then Some SignatureFailed
              else None))"

section \<open>The store\<close>

type_synonym relayStore = "(string \<times> RelayEntry) list"

definition newRelayStore :: relayStore where "newRelayStore = []"

datatype store_error = InvalidSig verify_error | StaleOrFuture

definition relay_age :: "int \<Rightarrow> RelayEntry \<Rightarrow> int" where "relay_age now e = wrap64 (now - TS e)"

definition relayStore_store ::
  "(bytes \<Rightarrow> bytes \<Rightarrow> bytes \<Rightarrow> bool) \<Rightarrow> int \<Rightarrow> RelayEntry \<Rightarrow> relayStore \<Rightarrow> store_error option \<times> relayStore" where
  "relayStore_store edv now e s =
     (case VerifyRelayEntry edv e of
        Some err \<Rightarrow> (Some (InvalidSig err), s)
      | None \<Rightarrow>
         let age = relay_age now e in
         if age > RelayTTL_s \<or> age < - RelayTTL_s then (Some StaleOrFuture, s)
         else (case map_of s (NodeID e) of
             Some existing \<Rightarrow>
               if TS existing \<ge> TS e then (None, s) else (None, AList.update (NodeID e) e s)
           | None \<Rightarrow> (None, AList.update (NodeID e) e s)))"

definition relayStore_all :: "int \<Rightarrow> relayStore \<Rightarrow> RelayEntry list" where
  "relayStore_all now s = filter (\<lambda>e. wrap64 (now - TS e) \<le> RelayTTL_s) (map snd s)"

section \<open>Facts about the payload\<close>

lemma sep_inject:
  "c \<notin> set x \<Longrightarrow> c \<notin> set x' \<Longrightarrow> x @ c # y = x' @ c # y' \<longleftrightarrow> x = x' \<and> y = y'"
proof (induction x arbitrary: x')
  case Nil
  then show ?case by (cases x') auto
next
  case (Cons a x)
  then show ?case by (cases x') auto
qed

lemma relayEntryPayload_inject:
  assumes "CHR ''|'' \<notin> set (NodeID e) \<union> set (reAddr e) \<union> set (CountryCode e)"
    and "CHR ''|'' \<notin> set (NodeID f) \<union> set (reAddr f) \<union> set (CountryCode f)"
    and "relayEntryPayload e = relayEntryPayload f"
  shows "NodeID e = NodeID f \<and> reAddr e = reAddr f \<and> CountryCode e = CountryCode f \<and> TS e = TS f"
  using assms by (auto simp: relayEntryPayload_def sep_inject)

lemma hex_value_bar: "hex_value CHR ''|'' = None"
  by code_simp

lemma hex_decode_no_bar: "hex_decode s = Some bs \<Longrightarrow> CHR ''|'' \<notin> set s"
  by (induction s arbitrary: bs rule: hex_decode.induct) (auto simp: hex_value_bar split: bind_splits)

lemma VerifyRelayEntry_ok:
  "VerifyRelayEntry edv e = None \<longleftrightarrow>
     (\<exists>pub sig. length pub = 32 \<and> hex_decode (NodeID e) = Some pub \<and> base64_decode (Sig e) = Some sig \<and>
        length sig = 64 \<and> edv pub (relayEntryPayload e) sig)"
  by (auto simp: VerifyRelayEntry_def split: option.splits if_splits dest: hex_decode_length)

section \<open>Facts about the store\<close>

lemma wrap64_id [simp]: "is_int64 x \<Longrightarrow> wrap64 x = x"
  by (simp add: wrap64_def is_int64_def)

text \<open>The freshness window is exact despite the wrapping subtraction.\<close>

lemma wrap64_window:
  assumes "0 \<le> now" "now < 2 ^ 62" "is_int64 t"
  shows "(wrap64 (now - t) \<le> 120 \<and> - 120 \<le> wrap64 (now - t)) \<longleftrightarrow> \<bar>now - t\<bar> \<le> 120"
proof (cases "is_int64 (now - t)")
  case False
  then have "2 ^ 63 \<le> now - t" using assms by (auto simp: is_int64_def)
  moreover have "now - t < 2 ^ 62 + 2 ^ 63 + 1" using assms by (auto simp: is_int64_def)
  ultimately have "(now - t + 2 ^ 63) mod 2 ^ 64 = now - t + 2 ^ 63 - 2 ^ 64"
    by (intro int_mod_pos_eq [of _ _ 1]) auto
  with \<open>2 ^ 63 \<le> now - t\<close> \<open>now - t < 2 ^ 62 + 2 ^ 63 + 1\<close> show ?thesis by (simp add: wrap64_def)
qed auto

definition relay_accepts ::
  "(bytes \<Rightarrow> bytes \<Rightarrow> bytes \<Rightarrow> bool) \<Rightarrow> int \<Rightarrow> string \<Rightarrow> RelayEntry \<Rightarrow> bool" where
  "relay_accepts edv now k e \<longleftrightarrow> NodeID e = k \<and> VerifyRelayEntry edv e = None \<and>
     relay_age now e \<le> RelayTTL_s \<and> - RelayTTL_s \<le> relay_age now e"

definition relay_put ::
  "(bytes \<Rightarrow> bytes \<Rightarrow> bytes \<Rightarrow> bool) \<Rightarrow> int \<Rightarrow> RelayEntry \<Rightarrow> relayStore \<Rightarrow> relayStore" where
  "relay_put edv now e s = snd (relayStore_store edv now e s)"

lemma relayStore_lookup:
  "map_of (relay_put edv now e s) k =
    (if relay_accepts edv now k e \<and> (case map_of s k of None \<Rightarrow> True | Some w \<Rightarrow> TS w < TS e)
     then Some e else map_of s k)"
  by (auto simp: relay_put_def relayStore_store_def relay_accepts_def Let_def update_conv
      split: option.splits)

interpretation rs: versioned_register "\<lambda>s. map_of s k" "relay_put edv now" TS "relay_accepts edv now k"
  for edv now k
  by unfold_locales (rule relayStore_lookup)

definition relayStore_inv :: "(bytes \<Rightarrow> bytes \<Rightarrow> bytes \<Rightarrow> bool) \<Rightarrow> relayStore \<Rightarrow> bool" where
  "relayStore_inv edv s \<longleftrightarrow> distinct (map fst s) \<and>
     (\<forall>(k, e) \<in> set s. NodeID e = k \<and> VerifyRelayEntry edv e = None)"

lemma relayStore_inv_new: "relayStore_inv edv newRelayStore"
  by (simp add: relayStore_inv_def newRelayStore_def)

lemma set_AList_update: "set (AList.update k v al) \<subseteq> insert (k, v) (set al)"
  by (induction al) auto

lemma relayStore_inv_put: "relayStore_inv edv s \<Longrightarrow> relayStore_inv edv (relay_put edv now e s)"
  using set_AList_update [of "NodeID e" e s] distinct_update [of s "NodeID e" e]
  by (auto simp: relay_put_def relayStore_store_def relayStore_inv_def Let_def split: option.splits if_splits)

lemma relayStore_inv_fold: "relayStore_inv edv s \<Longrightarrow> relayStore_inv edv (fold (relay_put edv now) es s)"
  by (induction es arbitrary: s) (auto simp: relayStore_inv_put)

lemma relayStore_all_sound:
  "relayStore_inv edv s \<Longrightarrow> e \<in> set (relayStore_all now s) \<Longrightarrow>
     VerifyRelayEntry edv e = None \<and> relay_age now e \<le> RelayTTL_s \<and> map_of s (NodeID e) = Some e"
  by (auto simp: relayStore_all_def relayStore_inv_def relay_age_def)

section \<open>Properties\<close>

text \<open>What it takes to be stored: \<open>store\<close> reports success exactly when the entry's
  signature verifies under the key its node identifier names and its timestamp is within two
  minutes of the clock, in either direction; the 64-bit subtraction cannot be tricked by extreme
  timestamps. In every other case the store is unchanged.\<close>

lemma relay_store_admission:
  assumes "0 \<le> now" "now < 2 ^ 62" "is_int64 (TS e)"
  shows "(fst (relayStore_store edv now e s) = None \<longleftrightarrow>
      (\<exists>pub sig. length pub = 32 \<and> hex_decode (NodeID e) = Some pub \<and> base64_decode (Sig e) = Some sig \<and>
         length sig = 64 \<and> edv pub (relayEntryPayload e) sig) \<and> \<bar>now - TS e\<bar> \<le> 120) \<and>
    (fst (relayStore_store edv now e s) \<noteq> None \<longrightarrow> snd (relayStore_store edv now e s) = s)"
proof
  have age: "(relay_age now e > RelayTTL_s \<or> relay_age now e < - RelayTTL_s) \<longleftrightarrow> \<not> \<bar>now - TS e\<bar> \<le> 120"
    using wrap64_window [OF assms] by (auto simp: relay_age_def RelayTTL_s_def)
  show "fst (relayStore_store edv now e s) = None \<longleftrightarrow>
      (\<exists>pub sig. length pub = 32 \<and> hex_decode (NodeID e) = Some pub \<and> base64_decode (Sig e) = Some sig \<and>
         length sig = 64 \<and> edv pub (relayEntryPayload e) sig) \<and> \<bar>now - TS e\<bar> \<le> 120"
    unfolding VerifyRelayEntry_ok [symmetric] relayStore_store_def Let_def age
    by (auto split: option.split)
  show "fst (relayStore_store edv now e s) \<noteq> None \<longrightarrow> snd (relayStore_store edv now e s) = s"
    by (auto simp: relayStore_store_def Let_def split: option.split)
qed

definition sample_entry :: "int \<Rightarrow> RelayEntry" where
  "sample_entry ts = \<lparr>NodeID = replicate 64 CHR ''a'', reAddr = ''192.0.2.7:443'', CountryCode = ''NL'',
     TS = ts, Sig = replicate 86 CHR ''A''\<rparr>"

lemma TS_sample_entry [simp]: "TS (sample_entry ts) = ts"
  by (simp add: sample_entry_def)

lemma sample_entry_verifies: "VerifyRelayEntry (\<lambda>_ _ _. True) (sample_entry ts) = None"
proof -
  have "length (NodeID (sample_entry ts)) = 64" by (simp add: sample_entry_def)
  moreover have "hex_decode (replicate 64 CHR ''a'') = Some (replicate 32 0xAA)" by code_simp
  moreover have "map_option length (base64_decode (replicate 86 CHR ''A'')) = Some 64" by code_simp
  ultimately show ?thesis by (auto simp: VerifyRelayEntry_def sample_entry_def)
qed

text \<open>Property C16. Gossiped relay entries converge: two empty stores that are offered the same set
  of entries at the same time, in any order and with any repetition, end up with the same entry
  for a node, provided no two authentic fresh entries of that node carry the same timestamp; and
  that entry is the newest one.\<close>

theorem relay_gossip_converges:
  assumes "set es = set fs"
    and "\<And>e f. e \<in> set es \<Longrightarrow> f \<in> set es \<Longrightarrow> relay_accepts edv now k e \<Longrightarrow> relay_accepts edv now k f \<Longrightarrow>
      TS e = TS f \<Longrightarrow> e = f"
  shows "map_of (fold (relay_put edv now) es newRelayStore) k =
      map_of (fold (relay_put edv now) fs newRelayStore) k \<and>
    (\<forall>e \<in> set es. relay_accepts edv now k e \<longrightarrow>
       (\<exists>f. map_of (fold (relay_put edv now) es newRelayStore) k = Some f \<and> f \<in> set es \<and> TS e \<le> TS f))"
proof (intro conjI ballI impI)
  show "map_of (fold (relay_put edv now) es newRelayStore) k =
      map_of (fold (relay_put edv now) fs newRelayStore) k"
    by (rule rs.fold_converges_fresh [OF assms]) (simp_all add: newRelayStore_def)
  fix e assume "e \<in> set es" "relay_accepts edv now k e"
  from rs.fold_upper [OF this] obtain f where
    f: "map_of (fold (relay_put edv now) es newRelayStore) k = Some f" "TS e \<le> TS f" by blast
  then have "f \<in> set es" using rs.fold_origin [OF f(1)] by (auto simp: newRelayStore_def)
  with f show "\<exists>f. map_of (fold (relay_put edv now) es newRelayStore) k = Some f \<and> f \<in> set es \<and> TS e \<le> TS f"
    by blast
qed

theorem relay_gossip_converges_witness:
  "map_of (fold (relay_put (\<lambda>_ _ _. True) 1000) [sample_entry 950, sample_entry 990] newRelayStore) (replicate 64 CHR ''a'') =
   map_of (fold (relay_put (\<lambda>_ _ _. True) 1000) [sample_entry 990, sample_entry 950, sample_entry 990] newRelayStore) (replicate 64 CHR ''a'')"
  by (rule relay_gossip_converges [THEN conjunct1]) auto

text \<open>The signed payload determines the entry: two entries whose text fields are free
  of the separator and whose payloads are equal agree on node, address, country and timestamp, so a
  signature made for one cannot be presented with another.\<close>

lemma relay_payload_injective:
  assumes "VerifyRelayEntry edv e = None" "VerifyRelayEntry edv f = None"
    and "CHR ''|'' \<notin> set (reAddr e) \<union> set (CountryCode e)"
    and "CHR ''|'' \<notin> set (reAddr f) \<union> set (CountryCode f)"
    and "relayEntryPayload e = relayEntryPayload f"
  shows "NodeID e = NodeID f \<and> reAddr e = reAddr f \<and> CountryCode e = CountryCode f \<and> TS e = TS f"
proof (rule relayEntryPayload_inject)
  have "CHR ''|'' \<notin> set (NodeID e)" "CHR ''|'' \<notin> set (NodeID f)"
    using assms(1,2) hex_decode_no_bar unfolding VerifyRelayEntry_ok by blast+
  with assms show "CHR ''|'' \<notin> set (NodeID e) \<union> set (reAddr e) \<union> set (CountryCode e)"
    "CHR ''|'' \<notin> set (NodeID f) \<union> set (reAddr f) \<union> set (CountryCode f)" by auto
qed (rule assms(5))

end
