(* ===== verification/DHT_Wire.thy ===== *)
theory DHT_Wire
  imports Prelude
begin

text \<open>
  Encrypted framing of DHT datagrams (\<^verbatim>\<open>dht/dht_wire.go\<close>). The ChaCha20-Poly1305 cipher, keyed
  with the constant key of the package, is the pair of parameters \<open>sealf nonce plain\<close> and
  \<open>openf nonce ciphertext\<close>; \<open>aead\<close> states what its documentation promises. The marshalled JSON
  body and the random bytes are arguments. The outer \<^typ>\<open>'a option\<close> of \<open>Open\<close> is the panic of
  an index out of range.
\<close>

definition NonceSize :: nat where "NonceSize = 12"
definition MaxTTL :: byte where "MaxTTL = 8"
definition aead_Overhead :: nat where "aead_Overhead = 16"

type_synonym aead_seal = "bytes \<Rightarrow> bytes \<Rightarrow> bytes"
type_synonym aead_open = "bytes \<Rightarrow> bytes \<Rightarrow> bytes option"

definition seal_plain :: "byte \<Rightarrow> byte \<Rightarrow> bytes \<Rightarrow> byte \<Rightarrow> bytes \<Rightarrow> bytes" where
  "seal_plain msgType ttl0 body padByte rnd =
     (let ttl = (if ttl0 = 0 then MaxTTL else ttl0);
          padLen = unat (padByte AND 0x0F);
          plain = replicate (3 + padLen + length body) 0;
          plain = plain[0 := msgType];
          plain = plain[1 := ttl];
          plain = plain[2 := word_of_nat padLen];
          plain = (if padLen > 0 then copy_at plain 3 (take padLen rnd) else plain)
      in copy_at plain (3 + padLen) body)"

definition Seal ::
  "aead_seal \<Rightarrow> byte \<Rightarrow> byte \<Rightarrow> bytes \<Rightarrow> byte \<Rightarrow> bytes \<Rightarrow> bytes \<Rightarrow> bytes" where
  "Seal sealf msgType ttl body padByte rnd nonce =
     nonce @ sealf nonce (seal_plain msgType ttl body padByte rnd)"

datatype open_error = PacketTooShort | AuthFailed | InvalidPadLen

definition Open :: "aead_open \<Rightarrow> bytes \<Rightarrow> (open_error + byte \<times> byte \<times> bytes) option" where
  "Open openf pkt =
     (if length pkt < NonceSize + 3 + aead_Overhead then Some (Inl PacketTooShort)
      else do {
        nonce \<leftarrow> slice pkt 0 NonceSize;
        ct \<leftarrow> slice_from pkt NonceSize;
        case openf nonce ct of
          None \<Rightarrow> Some (Inl AuthFailed)
        | Some plain \<Rightarrow> do {
            p \<leftarrow> idx plain 2;
            let padLen = unat p;
            if 3 + padLen > length plain then Some (Inl InvalidPadLen)
            else do {
              t \<leftarrow> idx plain 0;
              l \<leftarrow> idx plain 1;
              body \<leftarrow> slice_from plain (3 + padLen);
              Some (Inr (t, l, body)) } } })"

text \<open>What the cipher promises: opening inverts sealing, and the ciphertext is the plaintext's
  length plus the tag's.\<close>

definition aead :: "aead_seal \<Rightarrow> aead_open \<Rightarrow> bool" where
  "aead sealf openf \<longleftrightarrow>
     (\<forall>n p. length n = NonceSize \<longrightarrow> openf n (sealf n p) = Some p) \<and>
     (\<forall>n p. length (sealf n p) = length p + aead_Overhead) \<and>
     (\<forall>n c p. openf n c = Some p \<longrightarrow> length c = length p + aead_Overhead)"

section \<open>Facts\<close>

lemma padLen_less: "unat ((b :: byte) AND 0x0F) < 16"
proof -
  have "b AND 0x0F = take_bit 4 b" by (simp add: take_bit_eq_mask mask_eq_exp_minus_1)
  then show ?thesis using take_bit_nat_less_exp [of 4 "unat b"] by (simp add: unsigned_take_bit_eq)
qed

lemma replicate_3: "replicate (3 + n) z = z # z # z # replicate n z"
  by (simp add: numeral_3_eq_3)

lemma seal_plain_layout:
  assumes "padLen = unat (padByte AND 0x0F)" "padLen \<le> length rnd"
  shows "seal_plain t l body padByte rnd =
    [t, if l = 0 then MaxTTL else l, word_of_nat padLen] @ take padLen rnd @ body"
proof -
  define ttl where "ttl = (if l = 0 then MaxTTL else l)"
  have "replicate (3 + padLen + length body) (0::byte) = 0 # 0 # 0 # replicate (padLen + length body) 0"
    using replicate_3 [of "padLen + length body" "0::byte"] by (simp add: add.assoc)
  then have "(replicate (3 + padLen + length body) (0::byte))[0 := t, 1 := ttl, 2 := word_of_nat padLen] =
    [t, ttl, word_of_nat padLen] @ replicate (padLen + length body) 0"
    by (simp add: numeral_2_eq_2)
  moreover have "copy_at ([t, ttl, word_of_nat padLen] @ replicate (padLen + length body) 0) 3 (take padLen rnd) =
    [t, ttl, word_of_nat padLen] @ take padLen rnd @ replicate (length body) 0"
    using assms by (subst copy_at_fill) auto
  moreover have "copy_at (([t, ttl, word_of_nat padLen] @ take padLen rnd) @ replicate (length body) 0) (3 + padLen) body =
    ([t, ttl, word_of_nat padLen] @ take padLen rnd) @ body"
    using assms by (subst copy_at_fill) auto
  ultimately show ?thesis
    unfolding seal_plain_def Let_def assms(1) [symmetric] ttl_def [symmetric]
    by (cases "padLen = 0") simp_all
qed

lemma Open_Seal:
  assumes "aead sealf openf" "length nonce = NonceSize" "unat (padByte AND 0x0F) \<le> length rnd"
  shows "Open openf (Seal sealf t l body padByte rnd nonce) =
    Some (Inr (t, if l = 0 then MaxTTL else l, body))"
proof -
  define padLen where "padLen = unat (padByte AND 0x0F)"
  have pad: "padLen < 16" "unat (word_of_nat padLen :: byte) = padLen"
    using padLen_less [of padByte] by (auto simp: padLen_def)
  let ?plain = "seal_plain t l body padByte rnd"
  have plain: "?plain = [t, if l = 0 then MaxTTL else l, word_of_nat padLen] @ take padLen rnd @ body"
    using assms(3) padLen_def by (simp add: seal_plain_layout)
  have "openf nonce (sealf nonce ?plain) = Some ?plain"
    using assms(1,2) by (simp add: aead_def)
  moreover have "length (Seal sealf t l body padByte rnd nonce) = NonceSize + (length ?plain + aead_Overhead)"
    using assms(1,2) by (simp add: aead_def Seal_def)
  moreover have "3 + padLen + length body = length ?plain"
    using assms(3) padLen_def unfolding plain by simp
  ultimately show ?thesis
    using assms(2) pad unfolding Open_def Seal_def
    by (simp add: plain numeral_2_eq_2 numeral_3_eq_3 assms(3) [folded padLen_def])
qed

lemma Open_total [panic_free]:
  assumes "aead sealf openf"
  shows "\<exists>r. Open openf pkt = Some r"
proof (cases "length pkt < NonceSize + 3 + aead_Overhead")
  case False
  have "3 \<le> length plain" if "openf (take NonceSize pkt) (drop NonceSize pkt) = Some plain" for plain
  proof -
    from that assms have "length (drop NonceSize pkt) = length plain + aead_Overhead"
      unfolding aead_def by blast
    with False show ?thesis by simp
  qed
  with False show ?thesis
    by (auto simp: Open_def Let_def split: option.split) (auto simp: idx_def)
qed (simp add: Open_def)

section \<open>Properties\<close>

text \<open>Property C21. Framing round trip: for every message type, hop limit and body, every choice of
  padding and nonce, opening a sealed datagram yields the type, the hop limit (the default one when
  zero was passed) and the body.\<close>

theorem wire_roundtrip:
  assumes "aead sealf openf" "length nonce = NonceSize" "15 \<le> length rnd"
  shows "Open openf (Seal sealf t ttl body padByte rnd nonce) =
    Some (Inr (t, if ttl = 0 then MaxTTL else ttl, body))"
  using assms padLen_less [of padByte] by (intro Open_Seal) auto

text \<open>A cipher that satisfies the contract: the plaintext followed by a tag of zeros.\<close>

definition plain_seal :: aead_seal where "plain_seal n p = p @ replicate 16 0"

definition plain_open :: aead_open where
  "plain_open n c =
     (if 16 \<le> length c \<and> drop (length c - 16) c = replicate 16 0 then Some (take (length c - 16) c) else None)"

lemma aead_plain: "aead plain_seal plain_open"
  by (auto simp: aead_def plain_seal_def plain_open_def aead_Overhead_def split: if_splits)

theorem wire_roundtrip_witness:
  "aead plain_seal plain_open \<and>
   Open plain_open (Seal plain_seal 5 0 [1, 2] 0xF3 (replicate 15 9) (replicate 12 7)) = Some (Inr (5, 8, [1, 2]))"
  using wire_roundtrip [OF aead_plain, of "replicate 12 7" "replicate 15 9" 5 0 "[1, 2]" "0xF3"] aead_plain
  by (simp add: NonceSize_def MaxTTL_def)

text \<open>Arbitrary bytes from the network never crash the decoder: \<open>Open\<close> returns a
  message or one of its three errors on every input, because the cipher never returns a plaintext
  shorter than the three header bytes.\<close>

lemma Open_never_panics:
  assumes "aead sealf openf"
  shows "\<exists>r. Open openf pkt = Some r"
  by (rule Open_total [OF assms])

end
