(* ===== verification/IP_Addr.thy ===== *)
theory IP_Addr
  imports Go_Strings
begin

text \<open>
  \<^verbatim>\<open>net.ParseIP\<close>, as the standard library implements it (\<^verbatim>\<open>netip.ParseAddr\<close>, then refusal of a
  zone), and \<^verbatim>\<open>IP.IsUnspecified\<close>. An address is its 16-byte form; an IPv4 address is mapped
  under the prefix \<^verbatim>\<open>::ffff:0:0/96\<close>.
\<close>

type_synonym ip = bytes

definition v4InV6Prefix :: bytes where "v4InV6Prefix = replicate 10 0 @ [0xFF, 0xFF]"

definition char_digit :: "char \<Rightarrow> nat option" where
  "char_digit c = (if is_digit c then Some (of_char c - 48) else None)"

text \<open>The octet scanner: \<open>v4_scan val digLen done s\<close> has read the octets \<open>done\<close> and is inside
  an octet of \<open>digLen\<close> digits with value \<open>val\<close>.\<close>

fun v4_scan :: "nat \<Rightarrow> nat \<Rightarrow> bytes \<Rightarrow> string \<Rightarrow> bytes option" where
  "v4_scan val digLen acc [] =
     (if digLen = 0 \<or> length acc < 3 then None else Some (acc @ [word_of_nat val]))"
| "v4_scan val digLen acc (c # s) = (case char_digit c of
      Some d \<Rightarrow>
        if digLen = 1 \<and> val = 0 then None
        else if val * 10 + d > 255 then None
        else v4_scan (val * 10 + d) (digLen + 1) acc s
    | None \<Rightarrow>
        if c \<noteq> CHR ''.'' then None
        else if digLen = 0 \<or> s = [] then None
        else if length acc = 3 then None
        else v4_scan 0 0 (acc @ [word_of_nat val]) s)"

definition parseIPv4Fields :: "string \<Rightarrow> bytes option" where
  "parseIPv4Fields s = v4_scan 0 0 [] s"

text \<open>The hexadecimal group at the head of \<open>s\<close>: its value, number of digits and what follows;
  \<^term>\<open>None\<close> for a fifth digit.\<close>

fun hex_group :: "nat \<Rightarrow> nat \<Rightarrow> string \<Rightarrow> (nat \<times> nat \<times> string) option" where
  "hex_group acc off [] = Some (acc, off, [])"
| "hex_group acc off (c # s) = (case hex_value c of
      None \<Rightarrow> Some (acc, off, c # s)
    | Some v \<Rightarrow> if off > 3 then None else hex_group (16 * acc + v) (off + 1) s)"

lemma hex_group_length:
  "hex_group acc off s = Some (a, o', r) \<Longrightarrow> length r + o' = length s + off"
  by (induction acc off s rule: hex_group.induct) (auto split: option.splits if_splits)

text \<open>One iteration of the group loop: \<open>acc\<close> holds the bytes read, \<open>ell\<close> the position of the
  ellipsis; the iteration fails, leaves the loop or goes on.\<close>

datatype v6_step = V6Err | V6Break bytes "nat option" | V6Next bytes "nat option" string

definition v6_group :: "bytes \<Rightarrow> nat option \<Rightarrow> string \<Rightarrow> v6_step" where
  "v6_group acc ell s = (case hex_group 0 0 s of
      None \<Rightarrow> V6Err
    | Some (v, off, r) \<Rightarrow>
        if off = 0 then V6Err
        else if r \<noteq> [] \<and> hd r = CHR ''.'' then
          (if ell = None \<and> length acc \<noteq> 12 then V6Err
           else if length acc + 4 > 16 then V6Err
           else (case parseIPv4Fields s of None \<Rightarrow> V6Err | Some f \<Rightarrow> V6Break (acc @ f) ell))
        else
          (let acc' = acc @ [word_of_nat (v div 256), word_of_nat v] in
           if r = [] then V6Break acc' ell
           else if hd r \<noteq> CHR '':'' then V6Err
           else if length r = 1 then V6Err
           else if hd (drop 1 r) = CHR '':'' then
             (if ell \<noteq> None then V6Err
              else if drop 2 r = [] then V6Break acc' (Some (length acc'))
              else V6Next acc' (Some (length acc')) (drop 2 r))
           else V6Next acc' ell (drop 1 r)))"

lemma v6_group_decreases: "v6_group acc ell s = V6Next a e r \<Longrightarrow> length r < length s"
  by (auto simp: v6_group_def Let_def split: option.splits if_splits dest!: hex_group_length)

text \<open>The loop ends with the bytes, the ellipsis and the unread rest.\<close>

function v6_loop :: "bytes \<Rightarrow> nat option \<Rightarrow> string \<Rightarrow> (bytes \<times> nat option \<times> string) option" where
  "v6_loop acc ell s =
     (if length acc \<ge> 16 then Some (acc, ell, s)
      else (case v6_group acc ell s of
        V6Err \<Rightarrow> None
      | V6Break acc' ell' \<Rightarrow> Some (acc', ell', [])
      | V6Next acc' ell' s' \<Rightarrow> v6_loop acc' ell' s'))"
  by pat_completeness auto

termination
  by (relation "measure (\<lambda>(acc, ell, s). length s)") (auto dest!: v6_group_decreases)

declare v6_loop.simps [simp del]

definition parseIPv6 :: "string \<Rightarrow> ip option" where
  "parseIPv6 s0 =
     (let lead = (length s0 \<ge> 2 \<and> s0 ! 0 = CHR '':'' \<and> s0 ! 1 = CHR '':'');
          s = (if lead then drop 2 s0 else s0) in
      if lead \<and> s = [] then Some (replicate 16 0)
      else case v6_loop [] (if lead then Some 0 else None) s of
        None \<Rightarrow> None
      | Some (acc, ell, rest) \<Rightarrow>
          if rest \<noteq> [] then None
          else if length acc < 16 then
            (case ell of
               None \<Rightarrow> None
             | Some e \<Rightarrow> Some (take e acc @ replicate (16 - length acc) 0 @ drop e acc))
          else if ell \<noteq> None then None
          else Some acc)"

fun parse_dispatch :: "string \<Rightarrow> string \<Rightarrow> ip option" where
  "parse_dispatch s [] = None"
| "parse_dispatch s (c # r) =
     (if c = CHR ''.'' then map_option ((@) v4InV6Prefix) (parseIPv4Fields s)
      else if c = CHR '':'' then parseIPv6 s
      else if c = CHR ''%'' then None
      else parse_dispatch s r)"

text \<open>A zone (\<^verbatim>\<open>%\<close> and what follows) makes \<open>ParseIP\<close> return \<^verbatim>\<open>nil\<close>.\<close>

definition ParseIP :: "string \<Rightarrow> ip option" where
  "ParseIP s = (if CHR ''%'' \<in> set s then None else parse_dispatch s s)"

definition IsUnspecified :: "ip \<Rightarrow> bool" where
  "IsUnspecified a \<longleftrightarrow> a = replicate 16 0 \<or> a = v4InV6Prefix @ replicate 4 0"

section \<open>Facts\<close>

lemma v4_scan_length: "v4_scan val n acc s = Some b \<Longrightarrow> length acc \<le> 3 \<Longrightarrow> length b = 4"
  by (induction val n acc s rule: v4_scan.induct) (auto split: option.splits if_splits)

lemma parseIPv4Fields_length: "parseIPv4Fields s = Some b \<Longrightarrow> length b = 4"
  using v4_scan_length [of 0 0 "[]" s b] by (simp add: parseIPv4Fields_def)

lemma v6_group_length:
  assumes "length acc + 2 \<le> 16" "\<forall>k. ell = Some k \<longrightarrow> k \<le> length acc"
  shows "v6_group acc ell s = V6Break b e \<Longrightarrow> length b \<le> 16 \<and> (\<forall>k. e = Some k \<longrightarrow> k \<le> length b)"
    and "v6_group acc ell s = V6Next b e r \<Longrightarrow>
      length b = length acc + 2 \<and> (\<forall>k. e = Some k \<longrightarrow> k \<le> length b)"
  using assms
  by (auto simp: v6_group_def Let_def split: option.splits if_splits dest!: parseIPv4Fields_length)

lemma v6_loop_length:
  "v6_loop acc ell s = Some (b, e, r) \<Longrightarrow> length acc \<le> 16 \<Longrightarrow> even (length acc) \<Longrightarrow>
     (\<forall>k. ell = Some k \<longrightarrow> k \<le> length acc) \<Longrightarrow>
     length b \<le> 16 \<and> (\<forall>k. e = Some k \<longrightarrow> k \<le> length b)"
proof (induction acc ell s rule: v6_loop.induct)
  case (1 acc ell s)
  show ?case
  proof (cases "16 \<le> length acc")
    case True
    with 1 show ?thesis by (auto simp: v6_loop.simps [of acc])
  next
    case False
    with 1(3,4) have two: "length acc + 2 \<le> 16" by presburger
    show ?thesis
    proof (cases "v6_group acc ell s")
      case V6Err
      with 1 False show ?thesis by (simp add: v6_loop.simps [of acc])
    next
      case (V6Break b' e')
      with 1(2) False have "b = b'" "e = e'" by (simp_all add: v6_loop.simps [of acc])
      with v6_group_length(1) [OF two 1(5) V6Break] show ?thesis by simp
    next
      case (V6Next b' e' r')
      with 1(2) False have "v6_loop b' e' r' = Some (b, e, r)" by (simp add: v6_loop.simps [of acc])
      moreover note v6_group_length(2) [OF two 1(5) V6Next]
      ultimately show ?thesis using 1(1) [OF False V6Next] two 1(4) by auto
    qed
  qed
qed

lemma parseIPv6_length: "parseIPv6 s = Some a \<Longrightarrow> length a = 16"
  by (auto simp: parseIPv6_def Let_def split: option.splits if_splits dest!: v6_loop_length)

lemma ParseIP_length: "ParseIP s = Some a \<Longrightarrow> length a = 16"
proof -
  have "parse_dispatch s t = Some a \<Longrightarrow> length a = 16" for t
    by (induction s t rule: parse_dispatch.induct)
      (auto simp: v4InV6Prefix_def split: if_splits dest!: parseIPv4Fields_length parseIPv6_length)
  then show "ParseIP s = Some a \<Longrightarrow> length a = 16" by (simp add: ParseIP_def split: if_splits)
qed

text \<open>Parsing what is printed: a dotted quad gives the mapped address back.\<close>

definition ipv4_string :: "byte \<Rightarrow> byte \<Rightarrow> byte \<Rightarrow> byte \<Rightarrow> string" where
  "ipv4_string a b c d =
     utoa (unat a) @ ''.'' @ utoa (unat b) @ ''.'' @ utoa (unat c) @ ''.'' @ utoa (unat d)"

lemma utoa_snoc_ge: "\<not> n < 10 \<Longrightarrow> utoa n = utoa (n div 10) @ [char_of (48 + n mod 10)]"
  by (subst utoa.simps) simp

lemma char_digit_of [simp]: "d < 10 \<Longrightarrow> char_digit (char_of (48 + d)) = Some d"
  by (simp add: char_digit_def is_digit_def)

lemma v4_scan_utoa:
  "n \<le> 255 \<Longrightarrow> v4_scan 0 0 acc (utoa n @ s) = v4_scan n (length (utoa n)) acc s"
proof (induction n arbitrary: s rule: utoa.induct)
  case (1 n)
  show ?case
  proof (cases "n < 10")
    case True
    then have "utoa n = [char_of (48 + n)]" by (subst utoa.simps) simp
    with True show ?thesis by simp
  next
    case False
    have "n mod 10 < 10" "n div 10 * 10 + n mod 10 = n" "n div 10 \<noteq> 0" using False by auto
    with 1 False show ?thesis by (simp add: utoa_snoc_ge)
  qed
qed

lemma char_digit_dot [simp]: "char_digit CHR ''.'' = None"
  by code_simp

lemma v4_scan_octet:
  "length acc < 3 \<Longrightarrow> s \<noteq> [] \<Longrightarrow>
     v4_scan 0 0 acc (utoa (unat b) @ CHR ''.'' # s) = v4_scan 0 0 (acc @ [b]) s"
  using v4_scan_utoa [of "unat b" acc "CHR ''.'' # s"] unat_byte_less [of b] by simp

lemma parseIPv4Fields_string: "parseIPv4Fields (ipv4_string a b c d) = Some [a, b, c, d]"
proof -
  have "v4_scan 0 0 [a, b, c] (utoa (unat d)) = Some [a, b, c, d]"
    using v4_scan_utoa [of "unat d" "[a, b, c]" "[]"] unat_byte_less [of d] by simp
  then show ?thesis by (simp add: parseIPv4Fields_def ipv4_string_def v4_scan_octet)
qed

lemma digit_not_sep: "is_digit c \<Longrightarrow> c \<noteq> CHR ''.'' \<and> c \<noteq> CHR '':'' \<and> c \<noteq> CHR ''%''"
  by (auto simp: is_digit_def)

lemma parse_dispatch_digits:
  "\<forall>c \<in> set p. is_digit c \<Longrightarrow> parse_dispatch s (p @ r) = parse_dispatch s r"
  by (induction p) (auto dest: digit_not_sep)

lemma ParseIP_ipv4_string: "ParseIP (ipv4_string a b c d) = Some (v4InV6Prefix @ [a, b, c, d])"
proof -
  have dig: "\<forall>c \<in> set (utoa n). is_digit c" for n using utoa_digits by blast
  then have "CHR ''%'' \<notin> set (utoa n)" for n using digit_not_sep by blast
  then have "CHR ''%'' \<notin> set (ipv4_string a b c d)" by (simp add: ipv4_string_def)
  moreover have "parse_dispatch s (ipv4_string a b c d) =
      map_option ((@) v4InV6Prefix) (parseIPv4Fields s)" for s
    by (simp add: ipv4_string_def parse_dispatch_digits dig)
  ultimately show ?thesis by (simp add: ParseIP_def parseIPv4Fields_string)
qed

section \<open>Networks\<close>

text \<open>\<^verbatim>\<open>IP.To4\<close>: the four-byte form of an IPv4 address.\<close>

definition To4 :: "ip \<Rightarrow> bytes option" where
  "To4 a = (if length a = 4 then Some a
     else if length a = 16 \<and> take 12 a = v4InV6Prefix then Some (drop 12 a) else None)"

text \<open>\<^verbatim>\<open>CIDRMask(n, 8*l)\<close>.\<close>

fun CIDRMask :: "nat \<Rightarrow> nat \<Rightarrow> bytes" where
  "CIDRMask 0 n = []"
| "CIDRMask (Suc l) n =
     (if n \<ge> 8 then 0xFF # CIDRMask l (n - 8) else NOT (drop_bit n 0xFF) # CIDRMask l 0)"

record IPNet =
  net_IP :: bytes
  net_Mask :: bytes

definition and_bytes :: "bytes \<Rightarrow> bytes \<Rightarrow> bytes" where "and_bytes a m = map2 (AND) a m"

text \<open>Which parser \<^verbatim>\<open>netip.ParseAddr\<close> takes decides the bit length.\<close>

definition addr_is4 :: "string \<Rightarrow> bool" where
  "addr_is4 s \<longleftrightarrow> find (\<lambda>c. c = CHR ''.'' \<or> c = CHR '':'') s = Some CHR ''.''"

text \<open>\<^verbatim>\<open>net.ParseCIDR\<close>. The prefix length is a non-empty string of digits; the overflow limit of
  the scanner is far above the largest length accepted.\<close>

definition ParseCIDR :: "string \<Rightarrow> IPNet option" where
  "ParseCIDR s = (case first_index CHR ''/'' s of
     None \<Rightarrow> None
   | Some i \<Rightarrow>
      (let addr = take i s; msk = drop (i + 1) s in
       case ParseIP addr of
         None \<Rightarrow> None
       | Some a \<Rightarrow>
          (let l = (if addr_is4 addr then 4 else 16) in
           if msk = [] \<or> \<not> list_all is_digit msk \<or> atou msk > 8 * l then None
           else (let m = CIDRMask l (atou msk) in
             Some \<lparr>net_IP = and_bytes (if l = 4 then drop 12 a else a) m, net_Mask = m\<rparr>))))"

lemma length_CIDRMask [simp]: "length (CIDRMask l n) = l"
  by (induction l n rule: CIDRMask.induct) auto

lemma length_and_bytes [simp]: "length (and_bytes a m) = min (length a) (length m)"
  by (simp add: and_bytes_def)

lemma and_bytes_Cons [simp]: "and_bytes (x # a) (y # m) = (x AND y) # and_bytes a m"
  by (simp add: and_bytes_def)

lemma and_bytes_Nil [simp]: "and_bytes [] m = []" "and_bytes a [] = []"
  by (simp_all add: and_bytes_def)

lemma and_bytes_idem [simp]: "and_bytes (and_bytes a m) m = and_bytes a m"
  by (induction a m rule: list_induct2') (simp_all add: and.assoc)

definition wf_net :: "IPNet \<Rightarrow> bool" where
  "wf_net n \<longleftrightarrow> (\<exists>l k. (l = 4 \<or> l = 16) \<and> k \<le> 8 * l \<and> net_Mask n = CIDRMask l k \<and> length (net_IP n) = l \<and>
     and_bytes (net_IP n) (net_Mask n) = net_IP n)"

lemma wf_net_masked:
  "l = 4 \<or> l = 16 \<Longrightarrow> k \<le> 8 * l \<Longrightarrow> length a = l \<Longrightarrow>
   wf_net \<lparr>net_IP = and_bytes a (CIDRMask l k), net_Mask = CIDRMask l k\<rparr>"
  unfolding wf_net_def by (rule exI [of _ l], rule exI [of _ k]) simp

lemma ParseCIDR_wf: "ParseCIDR s = Some n \<Longrightarrow> wf_net n"
  by (auto simp: ParseCIDR_def Let_def split: option.splits if_splits dest!: ParseIP_length intro!: wf_net_masked)

end
