(* ===== verification/DHT_Node.thy ===== *)
theory DHT_Node
  imports Routing_Table Relay_Store DHT_Wire IP_Addr
begin

text \<open>
  The DHT node (\<^verbatim>\<open>dht/dht_node.go\<close>, \<^verbatim>\<open>dht/dht_content.go\<close>): its state, the message handlers,
  the active operations, the maintenance ticks, the setters and the persistence of its contacts.

  A handler is a function from the state to the new state and the list of effects the code
  performs, in order: datagrams handed to the socket (before \<open>Seal\<close>), callbacks invoked, timers
  started, files written. What lies outside the repository is in the record \<open>env\<close>: name
  resolution, the JSON encoder and decoder of the message structs, signature verification. A
  handler runs to completion; the code's locks make the operations on each field atomic.
\<close>

section \<open>Messages\<close>

definition MsgPing :: byte where "MsgPing = 0x01"
definition MsgPong :: byte where "MsgPong = 0x02"
definition MsgFindNode :: byte where "MsgFindNode = 0x03"
definition MsgNodes :: byte where "MsgNodes = 0x04"
definition MsgAnnounce :: byte where "MsgAnnounce = 0x05"
definition MsgAck :: byte where "MsgAck = 0x06"
definition MsgGetRelays :: byte where "MsgGetRelays = 0x07"
definition MsgRelayList :: byte where "MsgRelayList = 0x08"
definition MsgManifestHave :: byte where "MsgManifestHave = 0x09"
definition MsgManifestWant :: byte where "MsgManifestWant = 0x0A"
definition MsgManifest :: byte where "MsgManifest = 0x0B"
definition MsgHolePunch :: byte where "MsgHolePunch = 0x0C"
definition MsgContentHave :: byte where "MsgContentHave = 0x0D"
definition MsgContentWant :: byte where "MsgContentWant = 0x0E"
definition MsgContent :: byte where "MsgContent = 0x0F"
definition MsgMirrorPunch :: byte where "MsgMirrorPunch = 0x10"

lemmas msg_defs = MsgPing_def MsgPong_def MsgFindNode_def MsgNodes_def MsgAnnounce_def MsgAck_def
  MsgGetRelays_def MsgRelayList_def MsgManifestHave_def MsgManifestWant_def MsgManifest_def
  MsgHolePunch_def MsgContentHave_def MsgContentWant_def MsgContent_def MsgMirrorPunch_def

record ContactJSON =
  jID :: string
  jAddr :: string

text \<open>The payload structs of \<^verbatim>\<open>dht_wire.go\<close>, fields in declaration order.\<close>

datatype payload =
    FindNodePayload ContactJSON string
  | NodesPayload ContactJSON "ContactJSON list"
  | AnnouncePayload RelayEntry
  | RelayListPayload "RelayEntry list"
  | ManifestHavePayload int
  | ManifestPayload int bytes
  | HolePunchPayload string string
  | ContentHavePayload int bool
  | ContentPayload int bytes
  | MirrorPunchPayload string

definition ContactToJSON :: "contact \<Rightarrow> ContactJSON" where
  "ContactToJSON c = \<lparr>jID = ID_String (cID c), jAddr = cAddr c\<rparr>"

definition ContactFromJSON :: "time \<Rightarrow> ContactJSON \<Rightarrow> contact option" where
  "ContactFromJSON now j = (case ParseID (jID j) of
     None \<Rightarrow> None
   | Some i \<Rightarrow> Some \<lparr>cID = i, cAddr = jAddr j, LastSeen = now, MissedPings = 0, Suspect = False\<rparr>)"

record env =
  resolve :: "string \<Rightarrow> string option"
  marshal :: "payload \<Rightarrow> bytes option"
  unmarshal :: "byte \<Rightarrow> bytes \<Rightarrow> payload option"
  marshal_peers :: "ContactJSON list \<Rightarrow> bytes option"
  unmarshal_peers :: "bytes \<Rightarrow> ContactJSON list option"
  edverify :: "bytes \<Rightarrow> bytes \<Rightarrow> bytes \<Rightarrow> bool"
  localAddr :: string

datatype effect =
    Send byte byte bytes string
  | CallManifest bytes
  | CallContent bytes
  | CallHolePunch string string
  | CallMirrorPunch string
  | StartPingTimer string ID
  | WritePeers string bytes

text \<open>\<open>Seal\<close> then \<open>send\<close>: nothing is sent when marshalling fails; a nil payload has no body.\<close>

definition seal_send :: "env \<Rightarrow> byte \<Rightarrow> byte \<Rightarrow> payload option \<Rightarrow> string \<Rightarrow> effect list" where
  "seal_send E t ttl p dst = (case p of
     None \<Rightarrow> [Send t ttl [] dst]
   | Some q \<Rightarrow> (case marshal E q of None \<Rightarrow> [] | Some body \<Rightarrow> [Send t ttl body dst]))"

definition seal_resolve_send :: "env \<Rightarrow> byte \<Rightarrow> byte \<Rightarrow> payload option \<Rightarrow> string \<Rightarrow> effect list" where
  "seal_resolve_send E t ttl p addr = (case resolve E addr of
     None \<Rightarrow> []
   | Some raddr \<Rightarrow> seal_send E t ttl p raddr)"

section \<open>State\<close>

record completePeerEntry =
  cp_addr :: string
  cp_ts :: int
  cp_complete :: bool
  cp_lastSeen :: time

type_synonym completeStore = "(string \<times> completePeerEntry) list"

record node =
  nd_id :: ID
  nd_ownAddr :: string
  nd_rt :: routing_table
  nd_relays :: relayStore
  nd_peersPath :: string
  nd_ownEntry :: "RelayEntry option"
  nd_entryRefresher :: "(int \<Rightarrow> RelayEntry option) option"
  nd_pendingPings :: "string \<Rightarrow> ID option"
  nd_manifestRaw :: bytes
  nd_manifestTS :: int
  nd_onManifest :: bool
  nd_contentRaw :: bytes
  nd_contentTS :: int
  nd_contentComplete :: bool
  nd_onContent :: bool
  nd_completePeers :: completeStore
  nd_holePunchHandler :: bool
  nd_mirrorPunchHandler :: bool
  nd_encryptFn :: "bytes \<Rightarrow> bytes option"
  nd_decryptFn :: "bytes \<Rightarrow> bytes option"

definition NewNode ::
  "ID \<Rightarrow> string \<Rightarrow> (bytes \<Rightarrow> bytes option) option \<Rightarrow> (bytes \<Rightarrow> bytes option) option \<Rightarrow> node" where
  "NewNode i peersPath enc dec =
     \<lparr>nd_id = i, nd_ownAddr = [], nd_rt = NewRoutingTable i, nd_relays = newRelayStore,
      nd_peersPath = peersPath, nd_ownEntry = None, nd_entryRefresher = None,
      nd_pendingPings = (\<lambda>_. None), nd_manifestRaw = [], nd_manifestTS = 0, nd_onManifest = False,
      nd_contentRaw = [], nd_contentTS = 0, nd_contentComplete = False, nd_onContent = False,
      nd_completePeers = [], nd_holePunchHandler = False, nd_mirrorPunchHandler = False,
      nd_encryptFn = (case enc of None \<Rightarrow> Some | Some f \<Rightarrow> f),
      nd_decryptFn = (case dec of None \<Rightarrow> Some | Some f \<Rightarrow> f)\<rparr>"

type_synonym action = "node \<Rightarrow> node \<times> effect list"

definition unix :: "time \<Rightarrow> int" where "unix now = now div second"

section \<open>Setters\<close>

definition SetManifest :: "bytes \<Rightarrow> int \<Rightarrow> node \<Rightarrow> node" where
  "SetManifest raw ts n =
     (if ts > nd_manifestTS n then n\<lparr>nd_manifestRaw := raw, nd_manifestTS := ts\<rparr> else n)"

definition SetContent :: "bytes \<Rightarrow> int \<Rightarrow> node \<Rightarrow> node" where
  "SetContent raw ts n =
     (if ts > nd_contentTS n
      then n\<lparr>nd_contentRaw := raw, nd_contentTS := ts, nd_contentComplete := False\<rparr> else n)"

definition SetContentComplete :: "int \<Rightarrow> bool \<Rightarrow> node \<Rightarrow> node" where
  "SetContentComplete ts complete n =
     (if ts = nd_contentTS n then n\<lparr>nd_contentComplete := complete\<rparr> else n)"

definition selfAddr :: "env \<Rightarrow> node \<Rightarrow> string" where
  "selfAddr E n = (if nd_ownAddr n \<noteq> [] then nd_ownAddr n else localAddr E)"

definition isValidContactAddr :: "string \<Rightarrow> bool" where
  "isValidContactAddr addr = (case SplitHostPort addr of
     None \<Rightarrow> False
   | Some (host, _) \<Rightarrow> (case ParseIP host of None \<Rightarrow> False | Some a \<Rightarrow> \<not> IsUnspecified a))"

section \<open>Completion index\<close>

definition completeStore_record :: "time \<Rightarrow> string \<Rightarrow> int \<Rightarrow> bool \<Rightarrow> completeStore \<Rightarrow> completeStore" where
  "completeStore_record now addr ts complete s =
     AList.update addr \<lparr>cp_addr = addr, cp_ts = ts, cp_complete = complete, cp_lastSeen = now\<rparr> s"

definition completeStore_peersFor :: "time \<Rightarrow> int \<Rightarrow> completeStore \<Rightarrow> string list" where
  "completeStore_peersFor now ts s =
     (let cutoff = now - RelayTTL_s * second in
      map cp_addr (filter (\<lambda>e. cp_complete e \<and> cp_ts e = ts \<and> cp_lastSeen e > cutoff) (map snd s)))"

section \<open>Handlers\<close>

definition clearSuspectByAddr :: "string \<Rightarrow> node \<Rightarrow> node" where
  "clearSuspectByAddr addr n = (case nd_pendingPings n addr of
     None \<Rightarrow> n
   | Some i \<Rightarrow> n\<lparr>nd_pendingPings := (nd_pendingPings n)(addr := None),
                nd_rt := rt_ResetMissed i (nd_rt n)\<rparr>)"

definition handlePing :: "env \<Rightarrow> string \<Rightarrow> action" where
  "handlePing E src n = (n, seal_send E MsgPong MaxTTL None src)"

definition handleFindNode :: "env \<Rightarrow> time \<Rightarrow> string \<Rightarrow> bytes \<Rightarrow> action" where
  "handleFindNode E now src raw n = (case unmarshal E MsgFindNode raw of
     Some (FindNodePayload from target) \<Rightarrow>
      (case ParseID target of
         None \<Rightarrow> (n, [])
       | Some t \<Rightarrow>
          let n' = (case ContactFromJSON now from of
                      Some c \<Rightarrow> n\<lparr>nd_rt := rt_Add c (nd_rt n)\<rparr>
                    | None \<Rightarrow> n);
              nodes = map ContactToJSON (rt_Closest t K (nd_rt n'))
          in (n', seal_send E MsgNodes MaxTTL
                (Some (NodesPayload \<lparr>jID = ID_String (nd_id n'), jAddr = selfAddr E n'\<rparr> nodes)) src))
   | _ \<Rightarrow> (n, []))"

text \<open>The contacts \<open>handleNodes\<close> adds, in order: the responder, then the listed nodes.\<close>

definition nodes_contacts :: "time \<Rightarrow> ContactJSON \<Rightarrow> ContactJSON list \<Rightarrow> contact list" where
  "nodes_contacts now from nodes =
     (if jID from \<noteq> [] \<and> isValidContactAddr (jAddr from)
      then (case ContactFromJSON now from of Some c \<Rightarrow> [c] | None \<Rightarrow> []) else []) @
     List.map_filter (\<lambda>j. if isValidContactAddr (jAddr j) then ContactFromJSON now j else None) nodes"

definition handleNodes :: "env \<Rightarrow> time \<Rightarrow> bytes \<Rightarrow> action" where
  "handleNodes E now raw n = (case unmarshal E MsgNodes raw of
     Some (NodesPayload from nodes) \<Rightarrow>
       (n\<lparr>nd_rt := fold rt_Add (nodes_contacts now from nodes) (nd_rt n)\<rparr>, [])
   | _ \<Rightarrow> (n, []))"

definition handleAnnounce :: "env \<Rightarrow> time \<Rightarrow> string \<Rightarrow> bytes \<Rightarrow> action" where
  "handleAnnounce E now src raw n = (case unmarshal E MsgAnnounce raw of
     Some (AnnouncePayload entry) \<Rightarrow>
      (case relayStore_store (edverify E) (unix now) entry (nd_relays n) of
         (Some err, _) \<Rightarrow> (n, [])
       | (None, s') \<Rightarrow> (n\<lparr>nd_relays := s'\<rparr>, seal_send E MsgAck MaxTTL None src))
   | _ \<Rightarrow> (n, []))"

definition handleGetRelays :: "env \<Rightarrow> time \<Rightarrow> string \<Rightarrow> action" where
  "handleGetRelays E now src n =
     (n, seal_send E MsgRelayList MaxTTL (Some (RelayListPayload (relayStore_all (unix now) (nd_relays n)))) src)"

definition handleRelayList :: "env \<Rightarrow> time \<Rightarrow> bytes \<Rightarrow> action" where
  "handleRelayList E now raw n = (case unmarshal E MsgRelayList raw of
     Some (RelayListPayload entries) \<Rightarrow>
       (n\<lparr>nd_relays := fold (\<lambda>e s. snd (relayStore_store (edverify E) (unix now) e s)) entries (nd_relays n)\<rparr>, [])
   | _ \<Rightarrow> (n, []))"

definition handleManifestHave :: "env \<Rightarrow> string \<Rightarrow> bytes \<Rightarrow> action" where
  "handleManifestHave E src raw n = (case unmarshal E MsgManifestHave raw of
     Some (ManifestHavePayload ts) \<Rightarrow>
       if ts > nd_manifestTS n then (n, seal_send E MsgManifestWant MaxTTL None src) else (n, [])
   | _ \<Rightarrow> (n, []))"

definition handleManifestWant :: "env \<Rightarrow> string \<Rightarrow> action" where
  "handleManifestWant E src n =
     (if nd_manifestRaw n = [] then (n, [])
      else (n, seal_send E MsgManifest MaxTTL (Some (ManifestPayload (nd_manifestTS n) (nd_manifestRaw n))) src))"

definition handleManifestData :: "env \<Rightarrow> bytes \<Rightarrow> action" where
  "handleManifestData E raw n = (case unmarshal E MsgManifest raw of
     Some (ManifestPayload ts mraw) \<Rightarrow>
       if ts \<le> nd_manifestTS n then (n, [])
       else (n, if nd_onManifest n then [CallManifest mraw] else [])
   | _ \<Rightarrow> (n, []))"

definition handleHolePunch :: "env \<Rightarrow> bytes \<Rightarrow> action" where
  "handleHolePunch E raw n =
     (if raw = [] then (n, [])
      else (case unmarshal E MsgHolePunch raw of
        Some (HolePunchPayload peer control) \<Rightarrow>
          if peer = [] then (n, [])
          else if \<not> nd_holePunchHandler n then (n, [])
          else if control \<noteq> [] \<and> control = selfAddr E n then (n, [])
          else (n, [CallHolePunch peer control])
      | _ \<Rightarrow> (n, [])))"

definition handleContentHave :: "env \<Rightarrow> time \<Rightarrow> string \<Rightarrow> bytes \<Rightarrow> action" where
  "handleContentHave E now src raw n = (case unmarshal E MsgContentHave raw of
     Some (ContentHavePayload ts complete) \<Rightarrow>
       let n' = n\<lparr>nd_completePeers := completeStore_record now src ts complete (nd_completePeers n)\<rparr> in
       if ts > nd_contentTS n' then (n', seal_send E MsgContentWant MaxTTL None src) else (n', [])
   | _ \<Rightarrow> (n, []))"

definition handleContentWant :: "env \<Rightarrow> string \<Rightarrow> action" where
  "handleContentWant E src n =
     (if nd_contentRaw n = [] then (n, [])
      else (n, seal_send E MsgContent MaxTTL (Some (ContentPayload (nd_contentTS n) (nd_contentRaw n))) src))"

definition handleContentData :: "env \<Rightarrow> bytes \<Rightarrow> action" where
  "handleContentData E raw n = (case unmarshal E MsgContent raw of
     Some (ContentPayload ts craw) \<Rightarrow>
       if ts \<le> nd_contentTS n then (n, [])
       else (n, if nd_onContent n then [CallContent craw] else [])
   | _ \<Rightarrow> (n, []))"

definition handleMirrorPunch :: "env \<Rightarrow> bytes \<Rightarrow> action" where
  "handleMirrorPunch E raw n =
     (if raw = [] then (n, [])
      else (case unmarshal E MsgMirrorPunch raw of
        Some (MirrorPunchPayload peer) \<Rightarrow>
          if peer = [] then (n, [])
          else if \<not> nd_mirrorPunchHandler n then (n, [])
          else (n, [CallMirrorPunch peer])
      | _ \<Rightarrow> (n, [])))"

text \<open>The dispatch on the message type, after decryption.\<close>

definition dispatch :: "env \<Rightarrow> time \<Rightarrow> string \<Rightarrow> byte \<Rightarrow> bytes \<Rightarrow> action" where
  "dispatch E now src t raw n =
     (if t = MsgPing then handlePing E src n
      else if t = MsgPong then (n, [])
      else if t = MsgFindNode then handleFindNode E now src raw n
      else if t = MsgNodes then handleNodes E now raw n
      else if t = MsgAnnounce then handleAnnounce E now src raw n
      else if t = MsgAck then (n, [])
      else if t = MsgGetRelays then handleGetRelays E now src n
      else if t = MsgRelayList then handleRelayList E now raw n
      else if t = MsgManifestHave then handleManifestHave E src raw n
      else if t = MsgManifestWant then handleManifestWant E src n
      else if t = MsgManifest then handleManifestData E raw n
      else if t = MsgHolePunch then handleHolePunch E raw n
      else if t = MsgMirrorPunch then handleMirrorPunch E raw n
      else if t = MsgContentHave then handleContentHave E now src raw n
      else if t = MsgContentWant then handleContentWant E src n
      else if t = MsgContent then handleContentData E raw n
      else (n, []))"

text \<open>A packet; \<^term>\<open>None\<close> is a panic of the decoder.\<close>

definition handlePacket ::
  "env \<Rightarrow> aead_open \<Rightarrow> time \<Rightarrow> bytes \<Rightarrow> string \<Rightarrow> node \<Rightarrow> (node \<times> effect list) option" where
  "handlePacket E openf now pkt src n = (case Open openf pkt of
     None \<Rightarrow> None
   | Some (Inl err) \<Rightarrow> Some (n, [])
   | Some (Inr (t, ttl, raw)) \<Rightarrow> Some (dispatch E now src t raw (clearSuspectByAddr src n)))"

end
