(* ===== verification/DHT_Maintenance.thy ===== *)
theory DHT_Maintenance
  imports DHT_Node
begin

text \<open>
  The active half of the DHT node: pings and their timeouts, lookups, announcements, gossip, the
  branches of \<open>maintainLoop\<close>, bootstrap and the persistence of contacts and relays
  (\<^verbatim>\<open>dht/dht_node.go\<close>). Every way the node's state can change is an \<open>event\<close>; \<open>node_step\<close> runs
  one, and the invariant \<open>node_inv\<close> holds after every sequence of events.
\<close>

definition bootstrapAlpha :: nat where "bootstrapAlpha = 3"

section \<open>Pings\<close>

definition pingAddr :: "env \<Rightarrow> string \<Rightarrow> action" where
  "pingAddr E addr n = (case resolve E addr of
     None \<Rightarrow> (n, [])
   | Some raddr \<Rightarrow>
      let sent = seal_send E MsgPing 0 None raddr in
      (case find (\<lambda>c. cAddr c = addr) (rt_Closest (nd_id n) (K * IDBits) (nd_rt n)) of
         None \<Rightarrow> (n, sent)
       | Some c \<Rightarrow> (n\<lparr>nd_pendingPings := (nd_pendingPings n)(addr \<mapsto> cID c)\<rparr>,
                    sent @ [StartPingTimer addr (cID c)])))"

text \<open>The goroutine of \<open>pingAddr\<close> once \<open>pingTimeout\<close> has passed.\<close>

definition pingTimeout :: "string \<Rightarrow> ID \<Rightarrow> node \<Rightarrow> node" where
  "pingTimeout addr i n =
     (if nd_pendingPings n addr \<noteq> None
      then n\<lparr>nd_pendingPings := (nd_pendingPings n)(addr := None), nd_rt := rt_MarkMissed i (nd_rt n)\<rparr>
      else n)"

text \<open>A loop over addresses that threads the state and collects the effects.\<close>

fun each :: "('a \<Rightarrow> action) \<Rightarrow> 'a list \<Rightarrow> action" where
  "each f [] n = (n, [])"
| "each f (x # xs) n = (let (n1, e1) = f x n; (n2, e2) = each f xs n1 in (n2, e1 @ e2))"

definition reprobeSuspects :: "env \<Rightarrow> action" where
  "reprobeSuspects E n = each (\<lambda>c. pingAddr E (cAddr c)) (rt_SuspectContacts (nd_rt n)) n"

fun oldest_contact :: "contact \<Rightarrow> contact list \<Rightarrow> contact" where
  "oldest_contact o' [] = o'"
| "oldest_contact o' (c # cs) = oldest_contact (if LastSeen c < LastSeen o' then c else o') cs"

definition pingStale :: "env \<Rightarrow> action" where
  "pingStale E n = (case rt_All (nd_rt n) of
     [] \<Rightarrow> (n, [])
   | c # cs \<Rightarrow> pingAddr E (cAddr (oldest_contact c cs)) n)"

section \<open>Lookups, announcements and gossip\<close>

definition find_payload :: "env \<Rightarrow> ID \<Rightarrow> node \<Rightarrow> payload" where
  "find_payload E target n =
     FindNodePayload \<lparr>jID = ID_String (nd_id n), jAddr = selfAddr E n\<rparr> (ID_String target)"

definition findNode :: "env \<Rightarrow> ID \<Rightarrow> node \<Rightarrow> effect list" where
  "findNode E target n =
     concat (map (\<lambda>c. seal_resolve_send E MsgFindNode 0 (Some (find_payload E target n)) (cAddr c))
       (rt_Closest target bootstrapAlpha (nd_rt n)))"

definition findNodeDirect :: "env \<Rightarrow> string \<Rightarrow> ID \<Rightarrow> node \<Rightarrow> effect list" where
  "findNodeDirect E addr target n =
     seal_resolve_send E MsgFindNode 0 (Some (find_payload E target n)) addr"

definition announce :: "env \<Rightarrow> time \<Rightarrow> action" where
  "announce E now n =
     (let n' = (case nd_entryRefresher n of
          None \<Rightarrow> n
        | Some f \<Rightarrow> (case f (unix now) of Some fresh \<Rightarrow> n\<lparr>nd_ownEntry := Some fresh\<rparr> | None \<Rightarrow> n)) in
      (n', case nd_ownEntry n' of
          None \<Rightarrow> []
        | Some entry \<Rightarrow> (case ParseID (NodeID entry) of
             None \<Rightarrow> []
           | Some i \<Rightarrow> concat (map (\<lambda>c. seal_resolve_send E MsgAnnounce 0 (Some (AnnouncePayload entry)) (cAddr c))
                         (rt_Closest i K (nd_rt n'))))))"

definition SetOwnEntry :: "env \<Rightarrow> time \<Rightarrow> RelayEntry \<Rightarrow> action" where
  "SetOwnEntry E now e n = announce E now (n\<lparr>nd_ownEntry := Some e\<rparr>)"

definition getRelays :: "env \<Rightarrow> node \<Rightarrow> effect list" where
  "getRelays E n = concat (map (\<lambda>c. seal_resolve_send E MsgGetRelays 0 None (cAddr c))
     (rt_Closest (nd_id n) K (nd_rt n)))"

definition gossipManifestHave :: "env \<Rightarrow> node \<Rightarrow> effect list" where
  "gossipManifestHave E n =
     (if nd_manifestTS n = 0 then []
      else concat (map (\<lambda>c. seal_resolve_send E MsgManifestHave MaxTTL
               (Some (ManifestHavePayload (nd_manifestTS n))) (cAddr c))
             (rt_Closest (nd_id n) K (nd_rt n))))"

definition gossipContentHave :: "env \<Rightarrow> node \<Rightarrow> effect list" where
  "gossipContentHave E n =
     (if nd_contentTS n = 0 then []
      else concat (map (\<lambda>c. seal_resolve_send E MsgContentHave MaxTTL
               (Some (ContentHavePayload (nd_contentTS n) (nd_contentComplete n))) (cAddr c))
             (rt_Closest (nd_id n) K (nd_rt n))))"

definition SendHolePunch :: "env \<Rightarrow> string \<Rightarrow> string \<Rightarrow> string \<Rightarrow> effect list" where
  "SendHolePunch E relayAddr ownAddr controlURL =
     seal_resolve_send E MsgHolePunch MaxTTL (Some (HolePunchPayload ownAddr controlURL)) relayAddr"

definition SendMirrorPunch :: "env \<Rightarrow> string \<Rightarrow> string \<Rightarrow> effect list" where
  "SendMirrorPunch E peerAddr ownAddr =
     seal_resolve_send E MsgMirrorPunch MaxTTL (Some (MirrorPunchPayload ownAddr)) peerAddr"

section \<open>Persistence\<close>

definition savePeers :: "env \<Rightarrow> node \<Rightarrow> effect list" where
  "savePeers E n =
     (if nd_peersPath n = [] then []
      else (case marshal_peers E (map ContactToJSON (rt_All (nd_rt n))) of
        None \<Rightarrow> []
      | Some plain \<Rightarrow> (case nd_encryptFn n plain of
          None \<Rightarrow> []
        | Some enc \<Rightarrow> [WritePeers (nd_peersPath n) enc])))"

text \<open>\<open>file\<close> is what reading the file returns, \<^term>\<open>None\<close> on an error.\<close>

definition loadPeers :: "env \<Rightarrow> time \<Rightarrow> bytes option \<Rightarrow> node \<Rightarrow> node" where
  "loadPeers E now file n =
     (if nd_peersPath n = [] then n
      else (case file of
        None \<Rightarrow> n
      | Some enc \<Rightarrow>
          let plain = (case nd_decryptFn n enc of Some p \<Rightarrow> p | None \<Rightarrow> enc) in
          (case unmarshal_peers E plain of
             None \<Rightarrow> n
           | Some js \<Rightarrow> n\<lparr>nd_rt := fold rt_Add (List.map_filter (ContactFromJSON now) js) (nd_rt n)\<rparr>)))"

definition LoadRelays :: "env \<Rightarrow> time \<Rightarrow> RelayEntry list \<Rightarrow> node \<Rightarrow> node" where
  "LoadRelays E now entries n =
     n\<lparr>nd_relays := fold (\<lambda>e s. snd (relayStore_store (edverify E) (unix now) e s)) entries (nd_relays n)\<rparr>"

definition Bootstrap :: "env \<Rightarrow> time \<Rightarrow> bytes option \<Rightarrow> string list \<Rightarrow> action" where
  "Bootstrap E now file seeds n =
     (let n' = loadPeers E now file n in
      (n', concat (map (\<lambda>addr. findNodeDirect E addr (nd_id n') n') seeds) @ findNode E (nd_id n') n'))"

section \<open>Events\<close>

datatype event =
    EvPacket string byte bytes
  | EvPingTimeout string ID
  | EvAnnounceTick
  | EvPersistTick
  | EvPingTick
  | EvSuspectTick
  | EvBootstrap "bytes option" "string list"
  | EvLoadRelays "RelayEntry list"
  | EvSetOwnEntry RelayEntry
  | EvSetOwnAddr string
  | EvSetManifest bytes int
  | EvSetContent bytes int
  | EvSetContentComplete int bool
  | EvSetHandlers bool bool bool bool

definition announceTick :: "env \<Rightarrow> time \<Rightarrow> action" where
  "announceTick E now n =
     (let (n1, e1) = announce E now n in
      (n1, e1 @ getRelays E n1 @ gossipManifestHave E n1 @ gossipContentHave E n1))"

definition node_step :: "env \<Rightarrow> time \<Rightarrow> event \<Rightarrow> action" where
  "node_step E now ev n = (case ev of
     EvPacket src t raw \<Rightarrow> dispatch E now src t raw (clearSuspectByAddr src n)
   | EvPingTimeout addr i \<Rightarrow> (pingTimeout addr i n, [])
   | EvAnnounceTick \<Rightarrow> announceTick E now n
   | EvPersistTick \<Rightarrow> (n, savePeers E n)
   | EvPingTick \<Rightarrow> pingStale E n
   | EvSuspectTick \<Rightarrow> reprobeSuspects E n
   | EvBootstrap file seeds \<Rightarrow> Bootstrap E now file seeds n
   | EvLoadRelays es \<Rightarrow> (LoadRelays E now es n, [])
   | EvSetOwnEntry e \<Rightarrow> SetOwnEntry E now e n
   | EvSetOwnAddr a \<Rightarrow> (n\<lparr>nd_ownAddr := a\<rparr>, [])
   | EvSetManifest raw ts \<Rightarrow> (SetManifest raw ts n, [])
   | EvSetContent raw ts \<Rightarrow> (SetContent raw ts n, [])
   | EvSetContentComplete ts c \<Rightarrow> (SetContentComplete ts c n, [])
   | EvSetHandlers m c h p \<Rightarrow>
       (n\<lparr>nd_onManifest := m, nd_onContent := c, nd_holePunchHandler := h, nd_mirrorPunchHandler := p\<rparr>, []))"

definition node_run :: "env \<Rightarrow> (time \<times> event) list \<Rightarrow> node \<Rightarrow> node" where
  "node_run E evs n = fold (\<lambda>(now, ev) m. fst (node_step E now ev m)) evs n"

section \<open>The invariant\<close>

text \<open>The routing table is well formed and is the node's own, and every stored relay entry is
  authentic and filed under its node identifier.\<close>

definition node_inv :: "env \<Rightarrow> node \<Rightarrow> bool" where
  "node_inv E n \<longleftrightarrow> rt_inv (nd_rt n) \<and> rt_self (nd_rt n) = nd_id n \<and> relayStore_inv (edverify E) (nd_relays n)"

lemma ContactFromJSON_ok: "ContactFromJSON now j = Some c \<Longrightarrow> ok_contact c"
  by (auto simp: ContactFromJSON_def ok_contact_def maxMissedPings_def split: option.splits dest: ParseID_wf)

lemma rt_self_ops [simp]:
  "rt_self (rt_Add c rt) = rt_self rt" "rt_self (rt_MarkMissed i rt) = rt_self rt"
  "rt_self (rt_ResetMissed i rt) = rt_self rt"
  by (simp_all add: rt_Add_def rt_MarkMissed_def rt_ResetMissed_def)

lemma rt_self_fold [simp]: "rt_self (fold rt_Add cs rt) = rt_self rt"
  by (induction cs arbitrary: rt) simp_all

lemma nodes_contacts_ok: "c \<in> set (nodes_contacts now from nodes) \<Longrightarrow> ok_contact c"
  unfolding nodes_contacts_def set_append Un_iff in_set_filtered by (blast dest: ContactFromJSON_ok)

lemma map_filter_contacts_ok: "\<forall>c \<in> set (List.map_filter (ContactFromJSON now) js). ok_contact c"
  by (auto simp: in_set_map_filter ContactFromJSON_ok)

text \<open>Frame lemma: the invariant depends on three fields.\<close>

lemma node_inv_cong:
  "nd_rt m = nd_rt n \<Longrightarrow> nd_id m = nd_id n \<Longrightarrow> nd_relays m = nd_relays n \<Longrightarrow> node_inv E m = node_inv E n"
  by (simp add: node_inv_def)

named_theorems node_inv_intros \<open>operations preserve the node invariant\<close>

lemma node_inv_rt [node_inv_intros]:
  "node_inv E n \<Longrightarrow> ok_contact c \<Longrightarrow> node_inv E (n\<lparr>nd_rt := rt_Add c (nd_rt n)\<rparr>)"
  by (simp add: node_inv_def rt_Add_inv)

lemma node_inv_rts [node_inv_intros]:
  "node_inv E n \<Longrightarrow> \<forall>c \<in> set cs. ok_contact c \<Longrightarrow> node_inv E (n\<lparr>nd_rt := fold rt_Add cs (nd_rt n)\<rparr>)"
  by (simp add: node_inv_def rt.fold_add_inv)

lemma node_inv_relays [node_inv_intros]:
  "node_inv E n \<Longrightarrow> node_inv E (n\<lparr>nd_relays := fold (\<lambda>e s. snd (relayStore_store (edverify E) t e s)) es (nd_relays n)\<rparr>)"
  using relayStore_inv_fold [of "edverify E" "nd_relays n" t es]
  by (simp add: node_inv_def relay_put_def [abs_def])

lemma clearSuspectByAddr_inv [node_inv_intros]: "node_inv E n \<Longrightarrow> node_inv E (clearSuspectByAddr src n)"
  by (auto simp: clearSuspectByAddr_def node_inv_def rt_ResetMissed_inv split: option.split)

lemma pingTimeout_inv [node_inv_intros]: "node_inv E n \<Longrightarrow> node_inv E (pingTimeout a i n)"
  by (simp add: pingTimeout_def node_inv_def rt_MarkMissed_inv)

lemma handleFindNode_inv [node_inv_intros]:
  "node_inv E n \<Longrightarrow> node_inv E (fst (handleFindNode E now src raw n))"
  by (auto simp: handleFindNode_def Let_def node_inv_rt ContactFromJSON_ok split: option.split payload.split)

lemma handleNodes_inv [node_inv_intros]: "node_inv E n \<Longrightarrow> node_inv E (fst (handleNodes E now raw n))"
  by (auto simp: handleNodes_def nodes_contacts_ok intro: node_inv_rts split: option.split payload.split)

lemma handleAnnounce_inv [node_inv_intros]:
  assumes "node_inv E n"
  shows "node_inv E (fst (handleAnnounce E now src raw n))"
proof -
  have "node_inv E (n\<lparr>nd_relays := s\<rparr>)" if "relayStore_store (edverify E) (unix now) e (nd_relays n) = (x, s)" for e x s
    using node_inv_relays [OF assms, where es = "[e]" and t = "unix now"] that by simp
  with assms show ?thesis
    by (auto simp: handleAnnounce_def split: option.split payload.split prod.split)
qed

lemma handleRelayList_inv [node_inv_intros]: "node_inv E n \<Longrightarrow> node_inv E (fst (handleRelayList E now raw n))"
  by (auto simp: handleRelayList_def intro: node_inv_relays split: option.split payload.split)

lemma handleContentHave_inv [node_inv_intros]:
  "node_inv E n \<Longrightarrow> node_inv E (fst (handleContentHave E now src raw n))"
  by (auto simp: handleContentHave_def Let_def node_inv_def split: option.split payload.split)

text \<open>The remaining handlers do not change the state.\<close>

lemma readonly_handlers [simp]:
  "fst (handlePing E src n) = n" "fst (handleGetRelays E now src n) = n"
  "fst (handleManifestHave E src raw n) = n" "fst (handleManifestWant E src n) = n"
  "fst (handleManifestData E raw n) = n" "fst (handleHolePunch E raw n) = n"
  "fst (handleContentWant E src n) = n" "fst (handleContentData E raw n) = n"
  "fst (handleMirrorPunch E raw n) = n"
  by (auto simp: handlePing_def handleGetRelays_def handleManifestHave_def handleManifestWant_def
      handleManifestData_def handleHolePunch_def handleContentWant_def handleContentData_def
      handleMirrorPunch_def split: option.split payload.split)

lemma dispatch_inv [node_inv_intros]: "node_inv E n \<Longrightarrow> node_inv E (fst (dispatch E now src t raw n))"
  by (simp add: dispatch_def node_inv_intros)

lemma pingAddr_fields:
  "nd_rt (fst (pingAddr E a n)) = nd_rt n" "nd_id (fst (pingAddr E a n)) = nd_id n"
  "nd_relays (fst (pingAddr E a n)) = nd_relays n"
  by (auto simp: pingAddr_def Let_def split: option.split)

lemma each_fields:
  assumes "\<And>x n. g (fst (f x n)) = g n"
  shows "g (fst (each f xs n)) = g n"
proof (induction xs arbitrary: n)
  case (Cons x xs)
  have "g (fst (each f (x # xs) n)) = g (fst (each f xs (fst (f x n))))"
    by (simp add: case_prod_beta)
  with Cons assms show ?case by simp
qed simp

lemma reprobeSuspects_inv [node_inv_intros]: "node_inv E n \<Longrightarrow> node_inv E (fst (reprobeSuspects E n))"
  by (simp add: reprobeSuspects_def node_inv_def each_fields pingAddr_fields)

lemma pingStale_inv [node_inv_intros]: "node_inv E n \<Longrightarrow> node_inv E (fst (pingStale E n))"
  by (auto simp: pingStale_def node_inv_def pingAddr_fields split: list.split)

lemma announce_inv [node_inv_intros]: "node_inv E n \<Longrightarrow> node_inv E (fst (announce E now n))"
  by (auto simp: announce_def Let_def node_inv_def split: option.split)

lemma loadPeers_inv [node_inv_intros]: "node_inv E n \<Longrightarrow> node_inv E (loadPeers E now file n)"
  by (auto simp: loadPeers_def Let_def map_filter_contacts_ok intro: node_inv_rts split: option.split)

lemma node_step_inv: "node_inv E n \<Longrightarrow> node_inv E (fst (node_step E now ev n))"
proof (cases ev)
  case (EvSetOwnEntry e)
  assume "node_inv E n"
  then have "node_inv E (n\<lparr>nd_ownEntry := Some e\<rparr>)" by (simp add: node_inv_def)
  with EvSetOwnEntry show ?thesis by (simp add: node_step_def SetOwnEntry_def node_inv_intros)
qed (auto simp: node_step_def node_inv_intros announceTick_def case_prod_beta Bootstrap_def Let_def
      LoadRelays_def, auto simp: node_inv_def SetManifest_def SetContent_def SetContentComplete_def)

lemma node_run_inv: "node_inv E n \<Longrightarrow> node_inv E (node_run E evs n)"
  unfolding node_run_def by (induction evs arbitrary: n) (auto simp: node_step_inv)

lemma NewNode_inv: "wf_id i \<Longrightarrow> node_inv E (NewNode i path enc dec)"
  by (simp add: node_inv_def NewNode_def NewRoutingTable_inv relayStore_inv_new) (simp add: NewRoutingTable_def)

section \<open>Properties\<close>

text \<open>Property C6. Whatever a node receives, times out, loads or is told, in whatever order, its
  routing table stays well formed and its relay store holds only entries whose signature verifies
  under the key they are filed under.\<close>

theorem node_stays_well_formed:
  assumes "wf_id i"
  shows "let n = node_run E evs (NewNode i path enc dec) in
    rt_inv (nd_rt n) \<and> rt_self (nd_rt n) = nd_id n \<and>
    (\<forall>e \<in> set (relayStore_all now (nd_relays n)). VerifyRelayEntry (edverify E) e = None)"
proof -
  have "node_inv E (node_run E evs (NewNode i path enc dec))"
    by (rule node_run_inv [OF NewNode_inv [OF assms]])
  then show ?thesis by (auto simp: Let_def node_inv_def dest: relayStore_all_sound)
qed

definition quiet_env :: env where
  "quiet_env = \<lparr>resolve = Some, marshal = (\<lambda>_. None), unmarshal = (\<lambda>_ _. None), marshal_peers = (\<lambda>_. None),
     unmarshal_peers = (\<lambda>_. None), edverify = (\<lambda>_ _ _. False), localAddr = ''192.0.2.1:443''\<rparr>"

theorem node_stays_well_formed_witness:
  "wf_id (id_of_nat 1) \<and>
   rt_inv (nd_rt (node_run quiet_env [(0, EvPacket ''192.0.2.9:1'' MsgPing []), (5, EvSuspectTick)]
     (NewNode (id_of_nat 1) [] None None)))"
  using node_stays_well_formed [OF wf_id_of_nat [of 1], where E = quiet_env]
  by (auto simp: Let_def)

end
