(* ===== verification/DHT_Protocol.thy ===== *)
theory DHT_Protocol
  imports DHT_Maintenance
begin

text \<open>
  What the handlers of the DHT node achieve together: the manifest registers as versioned
  registers, the three-message gossip exchange, the life of a ping, and the persistence of the
  routing table across a restart.
\<close>

section \<open>Manifests only move forward\<close>

interpretation man: versioned_register
  "\<lambda>n. Some (nd_manifestRaw n, nd_manifestTS n)" "\<lambda>(raw, ts). SetManifest raw ts" snd "\<lambda>_. True"
  by unfold_locales (auto simp: SetManifest_def)

interpretation con: versioned_register
  "\<lambda>n. Some (nd_contentRaw n, nd_contentTS n)" "\<lambda>(raw, ts). SetContent raw ts" snd "\<lambda>_. True"
  by unfold_locales (auto simp: SetContent_def)

text \<open>The handlers and ticks leave the four manifest fields alone.\<close>

definition gossip_fields :: "node \<Rightarrow> bytes \<times> int \<times> bytes \<times> int \<times> bool" where
  "gossip_fields n =
     (nd_manifestRaw n, nd_manifestTS n, nd_contentRaw n, nd_contentTS n, nd_contentComplete n)"

lemma gossip_dispatch: "gossip_fields (fst (dispatch E now src t raw n)) = gossip_fields n"
proof -
  have "gossip_fields (fst (handleFindNode E now src raw n)) = gossip_fields n"
    by (auto simp: handleFindNode_def gossip_fields_def Let_def split: option.split payload.split)
  moreover have "gossip_fields (fst (handleNodes E now raw n)) = gossip_fields n"
    by (auto simp: handleNodes_def gossip_fields_def split: option.split payload.split)
  moreover have "gossip_fields (fst (handleAnnounce E now src raw n)) = gossip_fields n"
    by (auto simp: handleAnnounce_def gossip_fields_def split: option.split payload.split prod.split)
  moreover have "gossip_fields (fst (handleRelayList E now raw n)) = gossip_fields n"
    by (auto simp: handleRelayList_def gossip_fields_def split: option.split payload.split)
  moreover have "gossip_fields (fst (handleContentHave E now src raw n)) = gossip_fields n"
    by (auto simp: handleContentHave_def gossip_fields_def Let_def split: option.split payload.split)
  ultimately show ?thesis by (simp add: dispatch_def)
qed

lemma gossip_pingAddr: "gossip_fields (fst (pingAddr E a n)) = gossip_fields n"
  by (auto simp: pingAddr_def gossip_fields_def Let_def split: option.split)

definition is_setter :: "event \<Rightarrow> bool" where
  "is_setter ev = (case ev of EvSetManifest _ _ \<Rightarrow> True | EvSetContent _ _ \<Rightarrow> True
     | EvSetContentComplete _ _ \<Rightarrow> True | _ \<Rightarrow> False)"

lemma gossip_step: "\<not> is_setter ev \<Longrightarrow> gossip_fields (fst (node_step E now ev n)) = gossip_fields n"
proof (cases ev)
  case (EvPacket src t raw)
  have "gossip_fields (clearSuspectByAddr src n) = gossip_fields n"
    by (auto simp: clearSuspectByAddr_def gossip_fields_def split: option.split)
  with EvPacket show ?thesis by (simp add: node_step_def gossip_dispatch)
next
  case EvSuspectTick
  then show ?thesis
    by (simp add: node_step_def reprobeSuspects_def each_fields [of gossip_fields] gossip_pingAddr)
next
  case EvPingTick
  then show ?thesis by (auto simp: node_step_def pingStale_def gossip_pingAddr split: list.split)
qed (auto simp: node_step_def is_setter_def gossip_fields_def pingTimeout_def announceTick_def announce_def
      Bootstrap_def loadPeers_def LoadRelays_def SetOwnEntry_def Let_def case_prod_beta split: option.split)

lemma node_step_mono:
  "nd_manifestTS n \<le> nd_manifestTS (fst (node_step E now ev n)) \<and>
   nd_contentTS n \<le> nd_contentTS (fst (node_step E now ev n))"
proof (cases "is_setter ev")
  case True
  then show ?thesis
    by (cases ev)
      (auto simp: is_setter_def node_step_def SetManifest_def SetContent_def SetContentComplete_def)
next
  case False
  from gossip_step [OF this, of E now n] show ?thesis by (simp add: gossip_fields_def)
qed

lemma node_run_mono:
  "nd_manifestTS n \<le> nd_manifestTS (node_run E evs n) \<and> nd_contentTS n \<le> nd_contentTS (node_run E evs n)"
proof (induction evs arbitrary: n)
  case (Cons e evs)
  obtain now ev where "e = (now, ev)" by (cases e)
  with Cons [of "fst (node_step E now ev n)"] node_step_mono [of n E now ev] show ?case
    by (auto simp: node_run_def)
qed (simp add: node_run_def)

text \<open>A node that calls itself complete does so for the version it holds: completeness appears
  only by \<open>SetContentComplete\<close> for the current version and never survives a new one.\<close>

lemma content_complete_step:
  assumes "nd_contentComplete (fst (node_step E now ev n))"
  shows "(nd_contentComplete n \<and> nd_contentTS (fst (node_step E now ev n)) = nd_contentTS n) \<or>
    ev = EvSetContentComplete (nd_contentTS (fst (node_step E now ev n))) True"
proof (cases "is_setter ev")
  case True
  with assms show ?thesis
    by (cases ev)
      (auto simp: is_setter_def node_step_def SetManifest_def SetContent_def SetContentComplete_def
        split: if_splits)
next
  case False
  from gossip_step [OF this, of E now n] assms show ?thesis by (simp add: gossip_fields_def)
qed

section \<open>Pings\<close>

lemma find_addr_None: "\<forall>c \<in> set cs. cAddr c \<noteq> a \<Longrightarrow> find (\<lambda>c. cAddr c = a) cs = None"
  by (simp add: find_None_iff)

text \<open>A ping to an address that no non-suspect contact has is sent, but registers nothing.\<close>

lemma pingAddr_unregistered:
  assumes "\<forall>c \<in> set (rt_All (nd_rt n)). cAddr c = a \<longrightarrow> Suspect c"
  shows "fst (pingAddr E a n) = n"
proof -
  have "\<forall>c \<in> set (rt_Closest (nd_id n) (K * IDBits) (nd_rt n)). cAddr c \<noteq> a"
    using assms rt_Closest_subset [of "nd_id n" "K * IDBits" "nd_rt n"] by auto
  then show ?thesis by (simp add: pingAddr_def find_addr_None Let_def split: option.split)
qed

lemma each_fixpoint: "\<forall>x \<in> set xs. fst (f x n) = n \<Longrightarrow> fst (each f xs n) = n"
proof (induction xs)
  case (Cons x xs)
  then have "fst (f x n) = n" by simp
  with Cons show ?case by (simp add: case_prod_beta)
qed simp

lemma reprobeSuspects_noop:
  assumes "\<forall>c \<in> set (rt_All (nd_rt n)). \<forall>d \<in> set (rt_All (nd_rt n)). Suspect c \<and> cAddr d = cAddr c \<longrightarrow> Suspect d"
  shows "fst (reprobeSuspects E n) = n"
  unfolding reprobeSuspects_def
proof (rule each_fixpoint, rule ballI)
  fix c assume "c \<in> set (rt_SuspectContacts (nd_rt n))"
  then have "c \<in> set (rt_All (nd_rt n))" "Suspect c" by (simp_all add: rt_suspects_All)
  with assms show "fst (pingAddr E (cAddr c) n) = n" by (intro pingAddr_unregistered) blast
qed

text \<open>A ping of a live contact, then silence: the contact is marked; an answer in time instead
  clears it.\<close>

lemma ping_registers:
  assumes "node_inv E n" "resolve E a = Some r" "c \<in> set (rt_All (nd_rt n))" "\<not> Suspect c" "cAddr c = a"
    and "\<forall>d \<in> set (rt_All (nd_rt n)). cAddr d = a \<longrightarrow> d = c"
  shows "nd_pendingPings (fst (pingAddr E a n)) = (nd_pendingPings n)(a \<mapsto> cID c)"
    and "StartPingTimer a (cID c) \<in> set (snd (pingAddr E a n))"
proof -
  let ?cs = "rt_Closest (nd_id n) (K * IDBits) (nd_rt n)"
  have "length (filter (\<lambda>c. \<not> Suspect c) (rt_All (nd_rt n))) \<le> length (rt_All (nd_rt n))"
    by (rule length_filter_le)
  also have "\<dots> \<le> K * IDBits"
    using rt_Size_le [of "nd_rt n"] assms(1) by (simp add: rt_Size_All node_inv_def mult.commute)
  finally have "set ?cs = {c \<in> set (rt_All (nd_rt n)). \<not> Suspect c}"
    by (simp add: rt_Closest_All)
  with assms(3,4,6) have cs: "c \<in> set ?cs" "\<forall>d \<in> set ?cs. cAddr d = a \<longrightarrow> d = c" by blast+
  obtain d where d: "find (\<lambda>c. cAddr c = a) ?cs = Some d"
    using assms(5) cs(1) find_None_iff [of "\<lambda>c. cAddr c = a" ?cs] by blast
  then have "d \<in> set ?cs" "cAddr d = a" unfolding find_Some_iff by auto
  with cs d have "find (\<lambda>c. cAddr c = a) ?cs = Some c" by simp
  then show "nd_pendingPings (fst (pingAddr E a n)) = (nd_pendingPings n)(a \<mapsto> cID c)"
    "StartPingTimer a (cID c) \<in> set (snd (pingAddr E a n))"
    using assms(2) by (simp_all add: pingAddr_def Let_def)
qed

text \<open>The three ends of a registered ping.\<close>

lemma ping_unanswered:
  assumes "node_inv E n" "nd_pendingPings n a = Some i" "rt_lookup (nd_rt n) i = Some c"
  shows "rt_lookup (nd_rt (pingTimeout a i n)) i =
    (if MissedPings c + 1 \<ge> maxMissedPings then None
     else Some (c\<lparr>MissedPings := MissedPings c + 1, Suspect := True\<rparr>))"
  using assms by (simp add: pingTimeout_def node_inv_def rt_lookup_MarkMissed)

lemma ping_answered:
  assumes "node_inv E n" "nd_pendingPings n a = Some i" "rt_lookup (nd_rt n) i = Some c"
  shows "rt_lookup (nd_rt (clearSuspectByAddr a n)) i = Some (c\<lparr>MissedPings := 0, Suspect := False\<rparr>)"
    and "pingTimeout a i (clearSuspectByAddr a n) = clearSuspectByAddr a n"
  using assms by (simp_all add: clearSuspectByAddr_def pingTimeout_def node_inv_def rt_lookup_ResetMissed)

section \<open>Contacts survive a restart\<close>

lemma bucket_add_room: "cID c \<notin> cID ` set b \<Longrightarrow> length b < K \<Longrightarrow> bucket_add c b = b @ [c]"
  using bucket_replace_None [of c b] by (simp add: bucket_add_def)

lemma rt_Add_room:
  assumes "rt_inv rt" "cID c \<noteq> rt_self rt" "rt_lookup rt (cID c) = None"
    and "length (rt_buckets rt ! rt_index rt (cID c)) < K"
  shows "rt_buckets (rt_Add c rt) ! k =
    (if k = rt_index rt (cID c) then rt_buckets rt ! k @ [c] else rt_buckets rt ! k)"
proof -
  have "cID c \<notin> cID ` set (rt_buckets rt ! rt_index rt (cID c))"
    using assms(3) by (simp add: rt_lookup_def bucket_lookup_None)
  moreover have "rt_index rt (cID c) < length (rt_buckets rt)"
    using assms(1) rt_index_less by (simp add: rt_inv_def)
  ultimately show ?thesis
    using assms(2,4) by (simp add: rt_Add_def rt_update_def bucket_add_room nth_list_update)
qed

lemma rt_index_Add [simp]: "rt_index (rt_Add c rt) i = rt_index rt i"
  by (simp add: rt_index_def)

text \<open>Adding contacts that fit evicts nothing.\<close>

lemma fold_Add_room:
  assumes "rt_inv rt" "distinct (map cID cs)"
    and "\<forall>c \<in> set cs. ok_contact c \<and> cID c \<noteq> rt_self rt \<and> rt_lookup rt (cID c) = None"
    and "\<forall>k < IDBits. length (rt_buckets rt ! k) + length (filter (\<lambda>c. rt_index rt (cID c) = k) cs) \<le> K"
  shows "rt_lookup (fold rt_Add cs rt) i =
    (case bucket_lookup cs i of Some c \<Rightarrow> Some c | None \<Rightarrow> rt_lookup rt i)"
  using assms
proof (induction cs arbitrary: rt)
  case (Cons c cs)
  define k where "k = rt_index rt (cID c)"
  have k: "k < IDBits" using Cons.prems(1) rt_index_less by (simp add: k_def)
  have c: "ok_contact c" "cID c \<noteq> rt_self rt" "rt_lookup rt (cID c) = None"
    using Cons.prems(3) by simp_all
  have "length (rt_buckets rt ! k) + length (filter (\<lambda>d. rt_index rt (cID d) = k) (c # cs)) \<le> K"
    using Cons.prems(4) k by blast
  then have room: "length (rt_buckets rt ! k) < K" by (simp add: k_def)
  have look: "rt_lookup (rt_Add c rt) j = (if j = cID c then Some c else rt_lookup rt j)" for j
    using rt_lookup_Add [OF Cons.prems(1) c(2)] room by (simp add: Let_def k_def)
  have bks: "rt_buckets (rt_Add c rt) ! j = (if j = k then rt_buckets rt ! j @ [c] else rt_buckets rt ! j)" for j
    using rt_Add_room [OF Cons.prems(1) c(2,3)] room by (simp add: k_def)
  have "rt_lookup (fold rt_Add cs (rt_Add c rt)) i =
    (case bucket_lookup cs i of Some d \<Rightarrow> Some d | None \<Rightarrow> rt_lookup (rt_Add c rt) i)"
  proof (rule Cons.IH)
    show "\<forall>j < IDBits. length (rt_buckets (rt_Add c rt) ! j) +
      length (filter (\<lambda>d. rt_index (rt_Add c rt) (cID d) = j) cs) \<le> K"
    proof (intro allI impI)
      fix j assume "j < IDBits"
      with Cons.prems(4) have
        "length (rt_buckets rt ! j) + length (filter (\<lambda>d. rt_index rt (cID d) = j) (c # cs)) \<le> K" by blast
      then show "length (rt_buckets (rt_Add c rt) ! j) +
        length (filter (\<lambda>d. rt_index (rt_Add c rt) (cID d) = j) cs) \<le> K"
        by (auto simp: bks k_def split: if_splits)
    qed
    show "\<forall>d \<in> set cs. ok_contact d \<and> cID d \<noteq> rt_self (rt_Add c rt) \<and> rt_lookup (rt_Add c rt) (cID d) = None"
      using Cons.prems(2,3) by (auto simp: look) (metis imageI)
  qed (use Cons.prems c in \<open>simp_all add: rt_Add_inv\<close>)
  moreover have "bucket_lookup cs (cID c) = None" using Cons.prems(2) by simp
  ultimately show ?case by (auto simp: look split: option.split)
qed simp

lemma bucket_filter_All:
  assumes "rt_inv rt" "k < IDBits"
  shows "length (filter (\<lambda>c. rt_index rt (cID c) = k) (rt_All rt)) \<le> K"
proof -
  have *: "filter (\<lambda>c. rt_index rt (cID c) = k) (rt_buckets rt ! j) = (if j = k then rt_buckets rt ! k else [])"
    if "j < IDBits" for j
    using that rt_member [OF assms(1) that] by (auto simp: filter_id_conv filter_empty_conv)
  have len: "length (rt_buckets rt) = IDBits" using assms(1) by (simp add: rt_inv_def)
  have "length (filter (\<lambda>c. rt_index rt (cID c) = k) (rt_All rt)) =
      (\<Sum>j < IDBits. length (filter (\<lambda>c. rt_index rt (cID c) = k) (rt_buckets rt ! j)))"
    by (simp add: rt_All_def filter_concat length_concat comp_def sum_list_sum_nth len atLeast0LessThan)
  also have "\<dots> = (\<Sum>j < IDBits. if j = k then length (rt_buckets rt ! k) else 0)"
    by (intro sum.cong) (auto simp: *)
  also have "\<dots> = length (rt_buckets rt ! k)" using assms(2) by simp
  finally show ?thesis using rt_bucket_inv [OF assms] by (simp add: bucket_inv_def)
qed

definition fresh_contact :: "time \<Rightarrow> contact \<Rightarrow> contact" where
  "fresh_contact now c = c\<lparr>LastSeen := now, MissedPings := 0, Suspect := False\<rparr>"

lemma ContactFromJSON_ToJSON:
  "wf_id (cID c) \<Longrightarrow> ContactFromJSON now (ContactToJSON c) = Some (fresh_contact now c)"
  by (simp add: ContactFromJSON_def ContactToJSON_def fresh_contact_def)

lemma map_filter_JSON:
  "\<forall>c \<in> set cs. wf_id (cID c) \<Longrightarrow>
     List.map_filter (ContactFromJSON now) (map ContactToJSON cs) = map (fresh_contact now) cs"
  by (induction cs) (simp_all add: ContactFromJSON_ToJSON)

lemma cID_fresh [simp]: "cID (fresh_contact now c) = cID c"
  by (simp add: fresh_contact_def)

lemma bucket_lookup_fresh:
  "bucket_lookup (map (fresh_contact now) cs) i = map_option (fresh_contact now) (bucket_lookup cs i)"
  by (induction cs) auto

lemma bucket_lookup_All:
  assumes "rt_inv rt"
  shows "bucket_lookup (rt_All rt) i = rt_lookup rt i"
proof (cases "rt_lookup rt i")
  case None
  have "i \<notin> cID ` set (rt_All rt)" using set_rt_All [OF assms] None by force
  with None show ?thesis by simp
next
  case (Some c)
  then have "cID c = i" using rt.lookup_id [OF assms] by blast
  with Some show ?thesis
    using set_rt_All [OF assms, of c] distinct_rt_All [OF assms] by (simp add: bucket_lookup_Some)
qed

lemma reload_contacts:
  assumes "rt_inv rt"
  shows "rt_lookup (fold rt_Add (map (fresh_contact now) (rt_All rt)) (NewRoutingTable (rt_self rt))) i =
    map_option (fresh_contact now) (rt_lookup rt i)"
proof -
  let ?new = "NewRoutingTable (rt_self rt)"
  have new: "rt_inv ?new" using assms by (intro NewRoutingTable_inv) (simp add: rt_inv_def)
  have idx: "rt_index ?new = rt_index rt" by (simp add: rt_index_def NewRoutingTable_def fun_eq_iff)
  have empty: "rt_buckets ?new ! k = []" if "k < IDBits" for k
    using that by (simp add: NewRoutingTable_def)
  have none: "rt_lookup ?new j = None" for j
    using rt_index_less [OF new, of j] by (simp add: rt_lookup_def empty)
  have mem: "ok_contact c \<and> cID c \<noteq> rt_self rt" if "c \<in> set (rt_All rt)" for c
  proof -
    from that have "rt_lookup rt (cID c) = Some c" using set_rt_All [OF assms] by blast
    then have "c \<in> set (rt_buckets rt ! rt_index rt (cID c))"
      using rt_bucket_inv [OF assms rt_index_less [OF assms]]
      by (simp add: rt_lookup_def bucket_lookup_Some bucket_inv_def)
    then show ?thesis using rt_member [OF assms rt_index_less [OF assms]] by blast
  qed
  have "rt_lookup (fold rt_Add (map (fresh_contact now) (rt_All rt)) ?new) i =
    (case bucket_lookup (map (fresh_contact now) (rt_All rt)) i of Some c \<Rightarrow> Some c | None \<Rightarrow> rt_lookup ?new i)"
  proof (rule fold_Add_room [OF new])
    show "distinct (map cID (map (fresh_contact now) (rt_All rt)))"
      using distinct_rt_All [OF assms] by (simp add: comp_def)
    show "\<forall>k < IDBits. length (rt_buckets ?new ! k) +
        length (filter (\<lambda>c. rt_index ?new (cID c) = k) (map (fresh_contact now) (rt_All rt))) \<le> K"
      using bucket_filter_All [OF assms] empty by (simp add: idx filter_map comp_def)
    show "\<forall>c \<in> set (map (fresh_contact now) (rt_All rt)).
        ok_contact c \<and> cID c \<noteq> rt_self ?new \<and> rt_lookup ?new (cID c) = None"
      using mem none
      by (auto simp: NewRoutingTable_def ok_contact_def fresh_contact_def maxMissedPings_def)
  qed
  then show ?thesis
    by (simp add: bucket_lookup_fresh bucket_lookup_All [OF assms] none split: option.split)
qed

section \<open>The gossip exchange\<close>

lemma handlePacket_Seal:
  assumes "aead sealf openf" "length nonce = NonceSize" "15 \<le> length rnd"
  shows "handlePacket E openf now (Seal sealf t ttl body pb rnd nonce) src n =
    Some (dispatch E now src t body (clearSuspectByAddr src n))"
proof -
  have "Open openf (Seal sealf t ttl body pb rnd nonce) = Some (Inr (t, if ttl = 0 then MaxTTL else ttl, body))"
    using assms padLen_less [of pb] by (intro Open_Seal) auto
  then show ?thesis by (simp add: handlePacket_def)
qed

lemma clearSuspect_gossip [simp]:
  "nd_manifestRaw (clearSuspectByAddr a n) = nd_manifestRaw n"
  "nd_manifestTS (clearSuspectByAddr a n) = nd_manifestTS n"
  "nd_onManifest (clearSuspectByAddr a n) = nd_onManifest n"
  by (simp_all add: clearSuspectByAddr_def split: option.split)

section \<open>Properties\<close>


definition gossip_env :: env where
  "gossip_env = quiet_env\<lparr>
     marshal := (\<lambda>p. case p of ManifestPayload ts raw \<Rightarrow> Some (word_of_int ts # raw)
                     | ManifestHavePayload ts \<Rightarrow> Some [word_of_int ts] | _ \<Rightarrow> None),
     unmarshal := (\<lambda>t b. if t = MsgManifest then (case b of [] \<Rightarrow> None | x # raw \<Rightarrow> Some (ManifestPayload (uint x) raw))
                     else if t = MsgManifestHave then (case b of [x] \<Rightarrow> Some (ManifestHavePayload (uint x)) | _ \<Rightarrow> None)
                     else None)\<rparr>"


text \<open>A node never goes back to an older control or content manifest, whatever happens
  to it; and it calls its content complete only if it was told so for the version it now holds, the
  mark being lost as soon as a newer version arrives.\<close>

lemma manifests_move_forward:
  assumes "nd_contentComplete (fst (node_step E now ev (node_run E evs n)))"
  shows "nd_manifestTS n \<le> nd_manifestTS (node_run E evs n) \<and>
    nd_contentTS n \<le> nd_contentTS (node_run E evs n) \<and>
    ((nd_contentComplete (node_run E evs n) \<and>
        nd_contentTS (fst (node_step E now ev (node_run E evs n))) = nd_contentTS (node_run E evs n)) \<or>
     ev = EvSetContentComplete (nd_contentTS (fst (node_step E now ev (node_run E evs n)))) True)"
  using node_run_mono [of n E evs] content_complete_step [OF assms] by blast

text \<open>Property C32. The routing table survives a restart. The file written by \<open>savePeers\<close>, read back
  by \<open>loadPeers\<close> into a new node with the same identity, restores every contact with its address,
  as a fresh, unsuspected one, and adds no other: no bucket overflows on the way. The peers file
  codec and the encryption are only assumed to invert themselves on this file.\<close>

theorem peers_survive_restart:
  assumes "node_inv E n" "savePeers E n = [WritePeers path enc]"
    and "\<And>plain. marshal_peers E (map ContactToJSON (rt_All (nd_rt n))) = Some plain \<Longrightarrow>
      unmarshal_peers E plain = Some (map ContactToJSON (rt_All (nd_rt n)))"
    and "\<And>plain. nd_encryptFn n plain = Some enc \<Longrightarrow> nd_decryptFn m enc = Some plain"
    and "nd_rt m = NewRoutingTable (nd_id n)" "nd_peersPath m = path"
  shows "rt_lookup (nd_rt (loadPeers E now (Some enc) m)) i =
    map_option (\<lambda>c. c\<lparr>LastSeen := now, MissedPings := 0, Suspect := False\<rparr>) (rt_lookup (nd_rt n) i)"
proof -
  let ?js = "map ContactToJSON (rt_All (nd_rt n))"
  have inv: "rt_inv (nd_rt n)" "rt_self (nd_rt n) = nd_id n" using assms(1) by (simp_all add: node_inv_def)
  obtain plain where plain: "marshal_peers E ?js = Some plain" "nd_encryptFn n plain = Some enc"
    and path: "path = nd_peersPath n" "path \<noteq> []"
    using assms(2) by (auto simp: savePeers_def split: if_splits option.splits)
  have "\<forall>c \<in> set (rt_All (nd_rt n)). wf_id (cID c)"
    using set_rt_All [OF inv(1)] rt.lookup_id [OF inv(1)] by (metis ok_contact_def)
  then have "List.map_filter (ContactFromJSON now) ?js = map (fresh_contact now) (rt_All (nd_rt n))"
    by (rule map_filter_JSON)
  moreover have "unmarshal_peers E plain = Some ?js" "nd_decryptFn m enc = Some plain"
    using assms(3,4) plain by blast+
  ultimately have "nd_rt (loadPeers E now (Some enc) m) =
      fold rt_Add (map (fresh_contact now) (rt_All (nd_rt n))) (NewRoutingTable (rt_self (nd_rt n)))"
    using assms(5,6) path inv by (simp add: loadPeers_def Let_def)
  then show ?thesis using reload_contacts [OF inv(1)] by (simp add: fresh_contact_def [abs_def])
qed

definition small_table :: routing_table where
  "small_table = rt_Add (sample_contact 2) (NewRoutingTable (id_of_nat 1))"

lemma small_table_inv: "rt_inv small_table" "rt_self small_table = id_of_nat 1"
  by (simp_all add: small_table_def rt_Add_inv NewRoutingTable_inv) (simp add: NewRoutingTable_def)

lemma small_table_All: "rt_All small_table = [sample_contact 2]"
  by code_simp

lemma small_table_lookup: "rt_lookup small_table (id_of_nat 2) = Some (sample_contact 2)"
  by code_simp

definition peers_env :: env where
  "peers_env = quiet_env\<lparr>
     marshal_peers := (\<lambda>js. if js = [ContactToJSON (sample_contact 2)] then Some [1] else None),
     unmarshal_peers := (\<lambda>b. if b = [1] then Some [ContactToJSON (sample_contact 2)] else None)\<rparr>"

theorem peers_survive_restart_witness:
  "let n = (NewNode (id_of_nat 1) ''peers.json'' None None)\<lparr>nd_rt := small_table\<rparr>;
       m = NewNode (id_of_nat 1) ''peers.json'' None None in
   savePeers peers_env n = [WritePeers ''peers.json'' [1]] \<and>
   rt_lookup (nd_rt (loadPeers peers_env 9 (Some [1]) m)) (id_of_nat 2) = Some ((sample_contact 2)\<lparr>LastSeen := 9\<rparr>)"
proof -
  let ?n = "(NewNode (id_of_nat 1) ''peers.json'' None None)\<lparr>nd_rt := small_table\<rparr>"
  let ?m = "NewNode (id_of_nat 1) ''peers.json'' None None"
  have inv: "node_inv peers_env ?n"
    using small_table_inv by (simp add: node_inv_def NewNode_def relayStore_inv_new)
  have save: "savePeers peers_env ?n = [WritePeers ''peers.json'' [1]]"
    by (simp add: savePeers_def small_table_All peers_env_def NewNode_def)
  have "rt_lookup (nd_rt (loadPeers peers_env 9 (Some [1]) ?m)) (id_of_nat 2) =
    map_option (\<lambda>c. c\<lparr>LastSeen := 9, MissedPings := 0, Suspect := False\<rparr>) (rt_lookup (nd_rt ?n) (id_of_nat 2))"
    by (rule peers_survive_restart [OF inv save])
      (auto simp: small_table_All peers_env_def NewNode_def split: if_splits)
  with save show ?thesis by (simp add: Let_def small_table_lookup) (simp add: sample_contact_def)
qed

text \<open>The life of a ping to a contact whose address is its own: it is recorded as
  pending and a timer is started; if the timer fires first, the contact's miss count rises and it
  is evicted at four; if a datagram from the address arrives first, the contact is cleared and the
  later timer has no effect.\<close>

lemma ping_lifecycle:
  assumes "node_inv E n" "resolve E a = Some r" "rt_lookup (nd_rt n) i = Some c" "\<not> Suspect c" "cAddr c = a"
    and "\<forall>d \<in> set (rt_All (nd_rt n)). cAddr d = a \<longrightarrow> d = c"
  shows "let n' = fst (pingAddr E a n) in
    nd_pendingPings n' a = Some i \<and> StartPingTimer a i \<in> set (snd (pingAddr E a n)) \<and>
    rt_lookup (nd_rt (pingTimeout a i n')) i = Some (c\<lparr>MissedPings := 1, Suspect := True\<rparr>) \<and>
    rt_lookup (nd_rt (clearSuspectByAddr a n')) i = Some c \<and>
    pingTimeout a i (clearSuspectByAddr a n') = clearSuspectByAddr a n'"
proof -
  let ?n = "fst (pingAddr E a n)"
  have rt: "rt_inv (nd_rt n)" using assms(1) by (simp add: node_inv_def)
  have c: "cID c = i" "ok_contact c" using rt.lookup_id [OF rt assms(3)] by simp_all
  then have c0: "MissedPings c = 0" "c\<lparr>MissedPings := 0, Suspect := False\<rparr> = c"
    using assms(4) by (simp_all add: ok_contact_def)
  have "c \<in> set (rt_All (nd_rt n))" using set_rt_All [OF rt] assms(3) c by simp
  from ping_registers [OF assms(1,2) this assms(4-6)]
  have reg: "nd_pendingPings ?n a = Some i" "StartPingTimer a i \<in> set (snd (pingAddr E a n))"
    by (simp_all add: c(1))
  have n': "node_inv E ?n" "rt_lookup (nd_rt ?n) i = Some c"
    using assms(1,3) by (simp_all add: node_inv_def pingAddr_fields)
  show ?thesis
    using reg ping_unanswered [OF n'(1) reg(1) n'(2)] ping_answered [OF n'(1) reg(1) n'(2)]
    by (simp add: Let_def c0 maxMissedPings_def)
qed

definition small_node :: node where
  "small_node = (NewNode (id_of_nat 1) [] None None)\<lparr>nd_rt := small_table\<rparr>"

lemma small_node_rt: "nd_rt small_node = small_table"
  by (simp add: small_node_def)

lemma small_node_inv: "node_inv E small_node"
  using small_table_inv by (simp add: node_inv_def small_node_def NewNode_def relayStore_inv_new)

text \<open>Property C36. Suspect contacts cannot recover through re-probing. \<open>pingAddr\<close> searches for the
  contact to watch among the results of \<open>Closest\<close>, which leaves suspects out; so a re-probe of a
  suspect contact is sent but never registered. The suspect tick leaves the node's state as it was,
  an answer from the contact does not clear it, and its silence does not count against it: it stays
  suspect, neither cleared nor evicted.\<close>

theorem reprobe_has_no_effect:
  assumes "\<forall>c \<in> set (rt_All (nd_rt n)). \<forall>d \<in> set (rt_All (nd_rt n)).
      Suspect c \<and> cAddr d = cAddr c \<longrightarrow> Suspect d"
    and "c \<in> set (rt_SuspectContacts (nd_rt n))" "nd_pendingPings n (cAddr c) = None"
  shows "fst (node_step E now EvSuspectTick n) = n \<and>
    clearSuspectByAddr (cAddr c) (fst (node_step E now EvSuspectTick n)) = n \<and>
    pingTimeout (cAddr c) i (fst (node_step E now EvSuspectTick n)) = n"
  using reprobeSuspects_noop [OF assms(1)] assms(3)
  by (simp add: node_step_def clearSuspectByAddr_def pingTimeout_def)

theorem reprobe_has_no_effect_witness:
  "let n = (NewNode (id_of_nat 1) [] None None)\<lparr>nd_rt := rt_MarkMissed (id_of_nat 2) small_table\<rparr> in
   rt_SuspectContacts (nd_rt n) = [(sample_contact 2)\<lparr>MissedPings := 1, Suspect := True\<rparr>] \<and>
   fst (node_step quiet_env 0 EvSuspectTick n) = n"
proof -
  let ?n = "(NewNode (id_of_nat 1) [] None None)\<lparr>nd_rt := rt_MarkMissed (id_of_nat 2) small_table\<rparr>"
  let ?c = "(sample_contact 2)\<lparr>MissedPings := 1, Suspect := True\<rparr>"
  have all: "rt_All (rt_MarkMissed (id_of_nat 2) small_table) = [?c]" by code_simp
  then have sus: "rt_SuspectContacts (nd_rt ?n) = [?c]" by (simp add: rt_suspects_All)
  have "fst (node_step quiet_env 0 EvSuspectTick ?n) = ?n"
    using reprobe_has_no_effect [of ?n ?c quiet_env 0] sus all by (simp add: NewNode_def)
  with sus show ?thesis by (simp add: Let_def)
qed

end
