(* ===== verification/Frame_Codec.thy ===== *)
theory Frame_Codec
  imports Go_Strings
begin

text \<open>
  Binary frames: buffers filled from the left, as the encoders of \<^verbatim>\<open>udp_relay.go\<close>,
  \<^verbatim>\<open>mirror_transport.go\<close> and \<^verbatim>\<open>tunnel.go\<close> do it, and the contract of an encoder/decoder pair.
  \<open>put_at\<close> is \<^verbatim>\<open>PutUint16/32(buf[o:], v)\<close> and \<open>buf[o] = b\<close>, which panic (\<^term>\<open>None\<close>) without room.
\<close>

definition put_at :: "bytes \<Rightarrow> nat \<Rightarrow> bytes \<Rightarrow> bytes option" where
  "put_at buf i src = (if i + length src \<le> length buf then Some (copy_at buf i src) else None)"

definition new_buf :: "nat \<Rightarrow> bytes" where "new_buf n = replicate n 0"

text \<open>A buffer of \<open>n\<close> bytes whose first bytes are \<open>pre\<close> and whose rest is still zero.\<close>

definition filled :: "nat \<Rightarrow> bytes \<Rightarrow> bytes" where
  "filled n pre = pre @ replicate (n - length pre) 0"

lemma new_buf_filled [codec_simps]: "new_buf n = filled n []"
  by (simp add: new_buf_def filled_def)

lemma put_at_filled [codec_simps]:
  "i = length pre \<Longrightarrow> length pre + length src \<le> n \<Longrightarrow> put_at (filled n pre) i src = Some (filled n (pre @ src))"
  by (simp add: put_at_def filled_def copy_at_def)

lemma copy_at_filled [codec_simps]:
  "i = length pre \<Longrightarrow> length pre + length src \<le> n \<Longrightarrow> copy_at (filled n pre) i src = filled n (pre @ src)"
  by (simp add: filled_def copy_at_def)

lemma filled_full [codec_simps]: "n = length pre \<Longrightarrow> filled n pre = pre"
  by (simp add: filled_def)

lemma length_filled [simp]: "length pre \<le> n \<Longrightarrow> length (filled n pre) = n"
  by (simp add: filled_def)

text \<open>Reading: fields of a concatenation. \<open>drop\<close> of a position skips the fields before it.\<close>

lemma drop_field [codec_simps]: "length a \<le> n \<Longrightarrow> drop n (a @ b) = drop (n - length a) b"
  by simp

section \<open>The contract of a frame codec\<close>

text \<open>\<open>enc\<close> builds a frame (\<^term>\<open>None\<close> is a panic); \<open>dec\<close> returns, inside the panic layer, the
  message or the \<open>ok = false\<close> of the code. Datagrams may carry trailing bytes, which the decoders
  ignore.\<close>

locale frame_codec =
  fixes enc :: "'m \<Rightarrow> bytes option"
    and dec :: "bytes \<Rightarrow> 'm option option"
    and valid :: "'m \<Rightarrow> bool"
  assumes enc_total: "\<exists>bs. enc m = Some bs"
    and dec_total: "returns (dec bs)"
    and dec_enc: "valid m \<Longrightarrow> enc m = Some bs \<Longrightarrow> dec (bs @ junk) = Some (Some m)"
begin

lemma frames_unambiguous:
  "valid m \<Longrightarrow> valid m' \<Longrightarrow> enc m = Some bs \<Longrightarrow> enc m' = Some bs' \<Longrightarrow> bs @ x = bs' @ y \<Longrightarrow> m = m'"
  by (metis dec_enc option.inject)

lemma enc_inject: "valid m \<Longrightarrow> valid m' \<Longrightarrow> enc m = enc m' \<Longrightarrow> m = m'"
  by (metis enc_total frames_unambiguous)

lemma transmit: "valid m \<Longrightarrow> \<exists>bs. enc m = Some bs \<and> dec bs = Some (Some m)"
  using enc_total dec_enc [where junk = "[]"] by fastforce

end

end
