(* ===== verification/UDP_Relay.thy ===== *)
theory UDP_Relay
  imports Frame_Codec
begin

text \<open>
  The hole-punched relay transport (\<^verbatim>\<open>udp_relay.go\<close>): the frame codec, the treatment of one
  received frame by \<open>readLoop\<close>, the request loop of \<open>RoundTrip\<close>, the failure counters and the
  keepalive tick. \<open>int\<close> is Go's 64-bit integer, so offset sums do not overflow.
\<close>

definition udpRelayMagic :: u32 where "udpRelayMagic = 0x534E4355"
definition udpRelayTypeRequest :: byte where "udpRelayTypeRequest = 0x01"
definition udpRelayTypeResponse :: byte where "udpRelayTypeResponse = 0x02"
definition udpRelayTypeKeepalive :: byte where "udpRelayTypeKeepalive = 0x03"
definition udpRelayTypePong :: byte where "udpRelayTypePong = 0x04"
definition udpRelayRetries :: nat where "udpRelayRetries = 3"
definition udpRelayTimeout :: int where "udpRelayTimeout = 700 * millisecond"
definition udpRelayFailThresh :: nat where "udpRelayFailThresh = 5"
definition udpRelayKeepaliveMiss :: nat where "udpRelayKeepaliveMiss = 3"

section \<open>Frame codec\<close>

definition udpEncodeRequest :: "u32 \<Rightarrow> string \<Rightarrow> string \<Rightarrow> bytes \<Rightarrow> bytes option" where
  "udpEncodeRequest reqID path token body = do {
     let pb = to_bytes path;
     let tb = to_bytes token;
     let buf = new_buf (4 + 4 + 1 + 2 + length pb + 2 + length tb + 4 + length body);
     buf \<leftarrow> put_at buf 0 (put_be32 udpRelayMagic);
     buf \<leftarrow> put_at buf 4 (put_be32 reqID);
     buf \<leftarrow> put_at buf 8 [udpRelayTypeRequest];
     buf \<leftarrow> put_at buf 9 (put_be16 (word_of_nat (length pb)));
     let buf = copy_at buf 11 pb;
     let i = 11 + length pb;
     buf \<leftarrow> put_at buf i (put_be16 (word_of_nat (length tb)));
     let buf = copy_at buf (i + 2) tb;
     let j = i + 2 + length tb;
     buf \<leftarrow> put_at buf j (put_be32 (word_of_nat (length body)));
     Some (copy_at buf (j + 4) body) }"

definition udpDecodeRequest :: "bytes \<Rightarrow> (string \<times> string \<times> bytes) option option" where
  "udpDecodeRequest data =
     (if length data < 9 + 2 + 2 + 4 then Some None
      else do {
        d \<leftarrow> slice_from data 9;
        p \<leftarrow> get_be16 d;
        let pLen = unat p;
        if 11 + pLen + 2 > length data then Some None
        else do {
          path \<leftarrow> slice data 11 (11 + pLen);
          let i = 11 + pLen;
          d \<leftarrow> slice_from data i;
          t \<leftarrow> get_be16 d;
          let tLen = unat t;
          if i + 2 + tLen + 4 > length data then Some None
          else do {
            token \<leftarrow> slice data (i + 2) (i + 2 + tLen);
            let j = i + 2 + tLen;
            d \<leftarrow> slice_from data j;
            b \<leftarrow> get_be32 d;
            let bLen = unat b;
            if j + 4 + bLen > length data then Some None
            else do {
              body \<leftarrow> slice data (j + 4) (j + 4 + bLen);
              Some (Some (of_bytes path, of_bytes token, body)) } } } })"

definition udpEncodeKeepalive :: "u32 \<Rightarrow> byte \<Rightarrow> bytes option" where
  "udpEncodeKeepalive reqID typ = do {
     let buf = new_buf (4 + 4 + 1);
     buf \<leftarrow> put_at buf 0 (put_be32 udpRelayMagic);
     buf \<leftarrow> put_at buf 4 (put_be32 reqID);
     put_at buf 8 [typ] }"

definition udpEncodeResponse :: "u32 \<Rightarrow> int \<Rightarrow> bytes \<Rightarrow> bytes option" where
  "udpEncodeResponse reqID status body = do {
     let buf = new_buf (4 + 4 + 1 + 2 + 4 + length body);
     buf \<leftarrow> put_at buf 0 (put_be32 udpRelayMagic);
     buf \<leftarrow> put_at buf 4 (put_be32 reqID);
     buf \<leftarrow> put_at buf 8 [udpRelayTypeResponse];
     buf \<leftarrow> put_at buf 9 (put_be16 (word_of_int status));
     buf \<leftarrow> put_at buf 11 (put_be32 (word_of_nat (length body)));
     Some (copy_at buf 15 body) }"

record udpPendingResp =
  ur_status :: int
  ur_body :: bytes

definition udpDecodeResponse :: "bytes \<Rightarrow> udpPendingResp option option" where
  "udpDecodeResponse data =
     (if length data < 4 + 4 + 1 + 2 + 4 then Some None
      else do {
        d \<leftarrow> slice_from data 9;
        s \<leftarrow> get_be16 d;
        d \<leftarrow> slice_from data 11;
        b \<leftarrow> get_be32 d;
        let bLen = unat b;
        if 15 + bLen > length data then Some None
        else do {
          body \<leftarrow> slice data 15 (15 + bLen);
          Some (Some \<lparr>ur_status = uint s, ur_body = body\<rparr>) } })"

section \<open>The connection\<close>

text \<open>A pending request maps to its one-place channel: empty, or holding the response.\<close>

record UDPRelayConn =
  rc_controlURL :: string
  rc_pending :: "u32 \<Rightarrow> udpPendingResp option option"
  rc_failCount :: nat
  rc_failed :: bool
  rc_missedPongs :: nat
  rc_successCount :: nat

definition NewUDPRelayConn :: "string \<Rightarrow> UDPRelayConn" where
  "NewUDPRelayConn controlURL = \<lparr>rc_controlURL = controlURL, rc_pending = (\<lambda>_. None), rc_failCount = 0,
     rc_failed = False, rc_missedPongs = 0, rc_successCount = 0\<rparr>"

datatype relay_effect = WriteFrame bytes | ServeRequest u32 string string bytes

definition rc_deliver :: "u32 \<Rightarrow> udpPendingResp \<Rightarrow> UDPRelayConn \<Rightarrow> UDPRelayConn" where
  "rc_deliver reqID resp c = (case rc_pending c reqID of
     Some None \<Rightarrow> c\<lparr>rc_pending := (rc_pending c)(reqID \<mapsto> Some resp)\<rparr>
   | _ \<Rightarrow> c)"

text \<open>One received datagram in \<open>readLoop\<close>; \<^term>\<open>None\<close> is a panic.\<close>

definition rc_frame :: "bytes \<Rightarrow> UDPRelayConn \<Rightarrow> (UDPRelayConn \<times> relay_effect list) option" where
  "rc_frame data c =
     (if length data < 9 then Some (c, [])
      else do {
        magic \<leftarrow> get_be32 data;
        if magic \<noteq> udpRelayMagic then Some (c, [])
        else do {
          d \<leftarrow> slice_from data 4;
          reqID \<leftarrow> get_be32 d;
          typ \<leftarrow> idx data 8;
          if typ = udpRelayTypeResponse then do {
            r \<leftarrow> udpDecodeResponse data;
            Some (case r of None \<Rightarrow> (c, []) | Some resp \<Rightarrow> (rc_deliver reqID resp c, [])) }
          else if typ = udpRelayTypeRequest then
            (if rc_controlURL c = [] then Some (c, [])
             else do {
               r \<leftarrow> udpDecodeRequest data;
               Some (case r of None \<Rightarrow> (c, [])
                     | Some (path, token, body) \<Rightarrow> (c, [ServeRequest reqID path token body])) })
          else if typ = udpRelayTypeKeepalive then do {
            pong \<leftarrow> udpEncodeKeepalive reqID udpRelayTypePong;
            Some (c, [WriteFrame pong]) }
          else if typ = udpRelayTypePong then Some (c\<lparr>rc_missedPongs := 0\<rparr>, [])
          else Some (c, []) } })"

text \<open>\<open>serveRequest\<close>: the answer of the control, or status 503 without a body.\<close>

definition serveRequest :: "u32 \<Rightarrow> (int \<times> bytes) option \<Rightarrow> bytes option" where
  "serveRequest reqID forwarded = (case forwarded of
     Some (status, respBody) \<Rightarrow> udpEncodeResponse reqID status respBody
   | None \<Rightarrow> udpEncodeResponse reqID 503 [])"

definition markFailed :: "UDPRelayConn \<Rightarrow> UDPRelayConn" where
  "markFailed c = c\<lparr>rc_failed := True\<rparr>"

definition recordFailure :: "UDPRelayConn \<Rightarrow> UDPRelayConn" where
  "recordFailure c = (let n = rc_failCount c + 1; c' = c\<lparr>rc_failCount := n\<rparr> in
     if n \<ge> udpRelayFailThresh then markFailed c' else c')"

text \<open>The keepalive tick: a write error, or a ping sent; the loop ends when the second component
  is true.\<close>

definition keepaliveTick :: "bool \<Rightarrow> UDPRelayConn \<Rightarrow> UDPRelayConn \<times> bool" where
  "keepaliveTick write_ok c =
     (if \<not> write_ok then (recordFailure c, True)
      else let n = rc_missedPongs c + 1; c' = c\<lparr>rc_missedPongs := n\<rparr> in
        if n \<ge> udpRelayKeepaliveMiss then (markFailed c', True) else (c', False))"

section \<open>RoundTrip\<close>

text \<open>What one attempt meets: a write error, the response, the timeout, or the closed channel.\<close>

datatype attempt = WriteError | GotResponse udpPendingResp | TimedOut | Closed

datatype rt_error = RelayWrite | RelayClosed | RetriesExhausted

text \<open>The request identifier: random draws until one is not in use.\<close>

partial_function (option) pick_reqID :: "(u32 \<Rightarrow> bool) \<Rightarrow> (nat \<Rightarrow> u32) \<Rightarrow> nat \<Rightarrow> u32 option" where
  [code]: "pick_reqID used rng i = (if used (rng i) then pick_reqID used rng (i + 1) else Some (rng i))"

fun rt_attempts :: "nat \<Rightarrow> (nat \<Rightarrow> attempt) \<Rightarrow> nat \<Rightarrow> UDPRelayConn \<Rightarrow> (rt_error + int \<times> bytes) \<times> UDPRelayConn" where
  "rt_attempts 0 out k c = (Inl RetriesExhausted, recordFailure c)"
| "rt_attempts (Suc left) out k c = (case out k of
     WriteError \<Rightarrow> (Inl RelayWrite, recordFailure c)
   | GotResponse resp \<Rightarrow>
       (Inr (ur_status resp, ur_body resp), c\<lparr>rc_failCount := 0, rc_successCount := rc_successCount c + 1\<rparr>)
   | TimedOut \<Rightarrow> rt_attempts left out (Suc k) c
   | Closed \<Rightarrow> (Inl RelayClosed, c))"

definition backoff :: "nat \<Rightarrow> int" where "backoff attempt = udpRelayTimeout * 2 ^ attempt"

definition RoundTrip :: "u32 \<Rightarrow> (nat \<Rightarrow> attempt) \<Rightarrow> UDPRelayConn \<Rightarrow> (rt_error + int \<times> bytes) \<times> UDPRelayConn" where
  "RoundTrip reqID out c =
     (let c1 = c\<lparr>rc_pending := (rc_pending c)(reqID \<mapsto> None)\<rparr>;
          (r, c2) = rt_attempts udpRelayRetries out 0 c1
      in (r, c2\<lparr>rc_pending := (rc_pending c2)(reqID := None)\<rparr>))"

section \<open>Codec facts\<close>

lemma udpEncodeRequest_layout:
  "udpEncodeRequest reqID path token body =
     Some (put_be32 udpRelayMagic @ put_be32 reqID @ [udpRelayTypeRequest] @
       put_be16 (word_of_nat (length path)) @ to_bytes path @
       put_be16 (word_of_nat (length token)) @ to_bytes token @
       put_be32 (word_of_nat (length body)) @ body)"
  by (simp add: udpEncodeRequest_def codec_simps)

lemma udpEncodeKeepalive_layout:
  "udpEncodeKeepalive reqID typ = Some (put_be32 udpRelayMagic @ put_be32 reqID @ [typ])"
  by (simp add: udpEncodeKeepalive_def codec_simps)

lemma udpEncodeResponse_layout:
  "udpEncodeResponse reqID status body =
     Some (put_be32 udpRelayMagic @ put_be32 reqID @ [udpRelayTypeResponse] @
       put_be16 (word_of_int status) @ put_be32 (word_of_nat (length body)) @ body)"
  by (simp add: udpEncodeResponse_def codec_simps)

lemma udpDecodeRequest_total [panic_free]: "returns (udpDecodeRequest data)"
  unfolding udpDecodeRequest_def
  by (intro returns_intros) (auto dest!: slice_lengths)

lemma udpDecodeResponse_total [panic_free]: "returns (udpDecodeResponse data)"
  unfolding udpDecodeResponse_def
  by (intro returns_intros) (auto dest!: slice_lengths)

lemma udpDecodeRequest_encode:
  assumes "length path < 65536" "length token < 65536" "length body < 4294967296"
    and "udpEncodeRequest reqID path token body = Some bs"
  shows "udpDecodeRequest (bs @ junk) = Some (Some (path, token, body))"
proof -
  have bs: "bs = put_be32 udpRelayMagic @ put_be32 reqID @ [udpRelayTypeRequest] @
       put_be16 (word_of_nat (length path)) @ to_bytes path @
       put_be16 (word_of_nat (length token)) @ to_bytes token @
       put_be32 (word_of_nat (length body)) @ body"
    using assms(4) by (simp add: udpEncodeRequest_layout)
  show ?thesis unfolding udpDecodeRequest_def bs using assms(1-3) by (simp add: Let_def drop_Cons')
qed

lemma udpDecodeResponse_encode:
  assumes "0 \<le> status" "status < 65536" "length body < 4294967296"
    and "udpEncodeResponse reqID status body = Some bs"
  shows "udpDecodeResponse (bs @ junk) = Some (Some \<lparr>ur_status = status, ur_body = body\<rparr>)"
proof -
  have bs: "bs = put_be32 udpRelayMagic @ put_be32 reqID @ [udpRelayTypeResponse] @
       put_be16 (word_of_int status) @ put_be32 (word_of_nat (length body)) @ body"
    using assms(4) by (simp add: udpEncodeResponse_layout)
  have "uint (word_of_int status :: u16) = status" using assms by (simp add: uint_word_of_int)
  then show ?thesis unfolding udpDecodeResponse_def bs using assms(3) by (simp add: Let_def drop_Cons')
qed

interpretation req: frame_codec
  "\<lambda>(path, token, body). udpEncodeRequest reqID path token body" udpDecodeRequest
  "\<lambda>(path, token, body). length path < 65536 \<and> length token < 65536 \<and> length body < 4294967296"
  for reqID
proof (unfold_locales, goal_cases)
  case (1 m)
  show ?case by (cases m) (simp add: udpEncodeRequest_layout)
next
  case (2 bs)
  show ?case by (rule udpDecodeRequest_total)
next
  case (3 m bs junk)
  then show ?case by (cases m) (simp add: udpDecodeRequest_encode)
qed

interpretation resp: frame_codec
  "\<lambda>r. udpEncodeResponse reqID (ur_status r) (ur_body r)" udpDecodeResponse
  "\<lambda>r. 0 \<le> ur_status r \<and> ur_status r < 65536 \<and> length (ur_body r) < 4294967296"
  for reqID
proof (unfold_locales, goal_cases)
  case (1 m)
  show ?case by (simp add: udpEncodeResponse_layout)
next
  case (2 bs)
  show ?case by (rule udpDecodeResponse_total)
next
  case (3 m bs junk)
  then show ?case using udpDecodeResponse_encode [of "ur_status m" "ur_body m" reqID bs junk] by simp
qed

section \<open>Received frames\<close>

lemma udpEncodeKeepalive_total [panic_free]: "returns (udpEncodeKeepalive reqID typ)"
  by (simp add: returns_def udpEncodeKeepalive_layout)

lemma rc_frame_total [panic_free]: "returns (rc_frame data c)"
  unfolding rc_frame_def
  by (intro returns_intros panic_free) (auto dest!: slice_lengths)

text \<open>A well-formed header: magic, request identifier, type.\<close>

lemma rc_frame_header:
  assumes "data = put_be32 udpRelayMagic @ put_be32 reqID @ typ # rest"
  shows "rc_frame data c =
    (if typ = udpRelayTypeResponse then do {
            r \<leftarrow> udpDecodeResponse data;
            Some (case r of None \<Rightarrow> (c, []) | Some resp \<Rightarrow> (rc_deliver reqID resp c, [])) }
     else if typ = udpRelayTypeRequest then
            (if rc_controlURL c = [] then Some (c, [])
             else do {
               r \<leftarrow> udpDecodeRequest data;
               Some (case r of None \<Rightarrow> (c, [])
                     | Some (path, token, body) \<Rightarrow> (c, [ServeRequest reqID path token body])) })
     else if typ = udpRelayTypeKeepalive then do {
            pong \<leftarrow> udpEncodeKeepalive reqID udpRelayTypePong;
            Some (c, [WriteFrame pong]) }
     else if typ = udpRelayTypePong then Some (c\<lparr>rc_missedPongs := 0\<rparr>, [])
     else Some (c, []))"
proof -
  have "length data \<ge> 9" "get_be32 data = Some udpRelayMagic" "slice_from data 4 = Some (put_be32 reqID @ typ # rest)"
    "get_be32 (put_be32 reqID @ typ # rest) = Some reqID" "idx data 8 = Some typ"
    by (simp_all add: assms nth_append)
  then show ?thesis unfolding rc_frame_def by simp
qed

lemma relay_request_received:
  assumes "length path < 65536" "length token < 65536" "length body < 4294967296" "rc_controlURL s \<noteq> []"
    and "udpEncodeRequest reqID path token body = Some f"
  shows "rc_frame f s = Some (s, [ServeRequest reqID path token body])"
proof -
  have "f = put_be32 udpRelayMagic @ put_be32 reqID @ udpRelayTypeRequest #
      drop 9 f" using assms(5) by (auto simp: udpEncodeRequest_layout)
  from rc_frame_header [OF this, of s] show ?thesis
    using udpDecodeRequest_encode [OF assms(1-3,5), of "[]"] assms(4)
    by (simp add: udpRelayTypeRequest_def udpRelayTypeResponse_def)
qed

lemma relay_response_received:
  assumes "0 \<le> status" "status < 65536" "length body < 4294967296"
    and "udpEncodeResponse reqID status body = Some f"
  shows "rc_frame f c = Some (rc_deliver reqID \<lparr>ur_status = status, ur_body = body\<rparr> c, [])"
proof -
  have "f = put_be32 udpRelayMagic @ put_be32 reqID @ udpRelayTypeResponse # drop 9 f"
    using assms(4) by (auto simp: udpEncodeResponse_layout)
  from rc_frame_header [OF this, of c] show ?thesis
    using udpDecodeResponse_encode [OF assms, of "[]"] by simp
qed

section \<open>Failure counting\<close>

datatype rc_event = RcFrame bytes | RcRoundTrip u32 "nat \<Rightarrow> attempt" | RcKeepalive bool

definition rc_step :: "rc_event \<Rightarrow> UDPRelayConn \<Rightarrow> UDPRelayConn" where
  "rc_step ev c = (case ev of
     RcFrame data \<Rightarrow> (case rc_frame data c of Some (c', _) \<Rightarrow> c' | None \<Rightarrow> c)
   | RcRoundTrip reqID out \<Rightarrow> snd (RoundTrip reqID out c)
   | RcKeepalive ok \<Rightarrow> fst (keepaliveTick ok c))"

definition rc_inv :: "UDPRelayConn \<Rightarrow> bool" where
  "rc_inv c \<longleftrightarrow> rc_failed c \<or> rc_failCount c < udpRelayFailThresh \<and> rc_missedPongs c < udpRelayKeepaliveMiss"

text \<open>What a frame can change: the pending channels, and the missed pongs, to zero.\<close>

lemma rc_frame_fields:
  assumes "rc_frame data c = Some (c', es)"
  shows "rc_failed c' = rc_failed c \<and> rc_failCount c' = rc_failCount c \<and>
    (rc_missedPongs c' = rc_missedPongs c \<or> rc_missedPongs c' = 0)"
proof -
  have "rc_failed (rc_deliver i r c) = rc_failed c" "rc_failCount (rc_deliver i r c) = rc_failCount c"
    "rc_missedPongs (rc_deliver i r c) = rc_missedPongs c" for i r
    by (auto simp: rc_deliver_def split: option.split)
  with assms show ?thesis
    by (auto simp: rc_frame_def Let_def split: if_splits option.splits bind_splits)
qed

lemma recordFailure_fields [simp]:
  "rc_failCount (recordFailure c) = rc_failCount c + 1"
  "rc_failed (recordFailure c) = (rc_failed c \<or> udpRelayFailThresh \<le> rc_failCount c + 1)"
  "rc_missedPongs (recordFailure c) = rc_missedPongs c" "rc_pending (recordFailure c) = rc_pending c"
  by (auto simp: recordFailure_def markFailed_def Let_def)

lemma rt_attempts_fields:
  assumes "rt_attempts left out k c = (r, c')"
  shows "rc_missedPongs c' = rc_missedPongs c \<and> rc_pending c' = rc_pending c \<and>
    (case r of
       Inr _ \<Rightarrow> rc_failCount c' = 0 \<and> rc_failed c' = rc_failed c
     | Inl RelayClosed \<Rightarrow> c' = c
     | Inl _ \<Rightarrow> c' = recordFailure c)"
  using assms by (induction left out k c rule: rt_attempts.induct) (auto split: attempt.splits)

lemma RoundTrip_fields:
  assumes "RoundTrip reqID out c = (r, c')"
  shows "rc_missedPongs c' = rc_missedPongs c \<and> rc_pending c' = (rc_pending c)(reqID := None) \<and>
    (case r of
       Inr _ \<Rightarrow> rc_failCount c' = 0 \<and> rc_failed c' = rc_failed c
     | Inl RelayClosed \<Rightarrow> rc_failCount c' = rc_failCount c \<and> rc_failed c' = rc_failed c
     | Inl _ \<Rightarrow> rc_failCount c' = rc_failCount c + 1 \<and>
         rc_failed c' = (rc_failed c \<or> udpRelayFailThresh \<le> rc_failCount c + 1))"
proof -
  obtain c2 where c2: "rt_attempts udpRelayRetries out 0 (c\<lparr>rc_pending := (rc_pending c)(reqID \<mapsto> None)\<rparr>) = (r, c2)"
    "c' = c2\<lparr>rc_pending := (rc_pending c2)(reqID := None)\<rparr>"
    using assms by (auto simp: RoundTrip_def Let_def split: prod.splits)
  from rt_attempts_fields [OF c2(1)] show ?thesis
    by (auto simp: c2(2) split: sum.splits rt_error.splits)
qed

lemma rc_step_inv: "rc_inv c \<Longrightarrow> rc_inv (rc_step ev c)"
proof (cases ev)
  case (RcFrame data)
  assume "rc_inv c"
  with RcFrame show ?thesis
    using rc_frame_fields [of data c]
    by (auto simp: rc_step_def rc_inv_def udpRelayKeepaliveMiss_def split: option.split prod.split)
next
  case (RcRoundTrip reqID out)
  assume inv: "rc_inv c"
  obtain r c' where rt: "RoundTrip reqID out c = (r, c')" by (cases "RoundTrip reqID out c")
  from RoundTrip_fields [OF this] inv RcRoundTrip rt show ?thesis
    by (auto simp: rc_step_def rc_inv_def udpRelayFailThresh_def split: sum.splits rt_error.splits)
next
  case (RcKeepalive ok)
  assume "rc_inv c"
  with RcKeepalive show ?thesis
    by (auto simp: rc_step_def rc_inv_def keepaliveTick_def markFailed_def Let_def)
qed

lemma rc_step_failed: "rc_failed c \<Longrightarrow> rc_failed (rc_step ev c)"
proof (cases ev)
  case (RcFrame data)
  then show "rc_failed c \<Longrightarrow> ?thesis"
    using rc_frame_fields [of data c] by (auto simp: rc_step_def split: option.split prod.split)
next
  case (RcRoundTrip reqID out)
  obtain r c' where "RoundTrip reqID out c = (r, c')" by (cases "RoundTrip reqID out c")
  with RoundTrip_fields [OF this] RcRoundTrip show "rc_failed c \<Longrightarrow> ?thesis"
    by (auto simp: rc_step_def split: sum.splits rt_error.splits)
next
  case (RcKeepalive ok)
  then show "rc_failed c \<Longrightarrow> ?thesis"
    by (auto simp: rc_step_def keepaliveTick_def markFailed_def Let_def)
qed

text \<open>A round trip whose three attempts time out, and several in a row.\<close>

lemma rc_exhausted:
  "rc_failCount (rc_step (RcRoundTrip reqID (\<lambda>_. TimedOut)) c) = rc_failCount c + 1 \<and>
   rc_failed (rc_step (RcRoundTrip reqID (\<lambda>_. TimedOut)) c) =
     (rc_failed c \<or> udpRelayFailThresh \<le> rc_failCount c + 1)"
  by (simp add: rc_step_def RoundTrip_def Let_def udpRelayRetries_def numeral_3_eq_3)

lemma rc_exhausted_pow:
  "n \<le> rc_failCount ((rc_step (RcRoundTrip reqID (\<lambda>_. TimedOut)) ^^ n) c) \<and>
   (udpRelayFailThresh \<le> n \<longrightarrow> rc_failed ((rc_step (RcRoundTrip reqID (\<lambda>_. TimedOut)) ^^ n) c))"
  by (induction n) (auto simp: rc_exhausted udpRelayFailThresh_def)

text \<open>A request identifier is found as soon as the generator offers a free one, and it is free.\<close>

lemma pick_reqID_free:
  assumes "\<not> used (rng k)" "i \<le> k"
  shows "\<exists>r. pick_reqID used rng i = Some r \<and> \<not> used r"
  using assms(2)
proof (induction "k - i" arbitrary: i)
  case 0
  then show ?case using assms(1) by (subst pick_reqID.simps) auto
next
  case (Suc n)
  show ?case
  proof (cases "used (rng i)")
    case True
    with Suc have "\<exists>r. pick_reqID used rng (i + 1) = Some r \<and> \<not> used r" by (intro Suc.hyps(1)) auto
    with True show ?thesis by (subst pick_reqID.simps) simp
  qed (subst pick_reqID.simps, simp)
qed

section \<open>Properties\<close>



text \<open>No datagram can crash the relay's receive loop, whatever its length, type and
  length fields.\<close>

lemma relay_frames_never_panic: "\<exists>c' es. rc_frame data c = Some (c', es)"
  using rc_frame_total [of data c] by (auto simp: returns_def)



end
