(* ===== verification/Mirror_Transport.thy ===== *)
theory Mirror_Transport
  imports Frame_Codec
begin

text \<open>
  The chunk transfer protocol (\<^verbatim>\<open>mirror_transport.go\<close>): frame codec, the treatment of one datagram
  by \<open>readLoop\<close> (whose buffer cuts a datagram at \<open>mirrorMaxFrame\<close> bytes), the serving side, and the
  retry loop of \<open>RequestChunk\<close>.
\<close>

definition mirrorMagic :: u32 where "mirrorMagic = 0x534E434D"
definition mirrorTypeChunkReq :: byte where "mirrorTypeChunkReq = 0x01"
definition mirrorTypeChunkResp :: byte where "mirrorTypeChunkResp = 0x02"
definition mirrorTypeChunkMiss :: byte where "mirrorTypeChunkMiss = 0x03"
definition mirrorRetries :: nat where "mirrorRetries = 3"
definition mirrorMaxFrame :: nat where "mirrorMaxFrame = 32 * 1024"
definition mirrorIdleTimeout :: int where "mirrorIdleTimeout = 5 * minute"

section \<open>Frame codec\<close>

definition mirrorEncodeRequest :: "u32 \<Rightarrow> bytes \<Rightarrow> bytes option" where
  "mirrorEncodeRequest reqID hash = do {
     let buf = new_buf (4 + 4 + 1 + 32);
     buf \<leftarrow> put_at buf 0 (put_be32 mirrorMagic);
     buf \<leftarrow> put_at buf 4 (put_be32 reqID);
     buf \<leftarrow> put_at buf 8 [mirrorTypeChunkReq];
     Some (copy_at buf 9 hash) }"

definition mirrorDecodeRequest :: "bytes \<Rightarrow> bytes option option" where
  "mirrorDecodeRequest data =
     (if length data < 4 + 4 + 1 + 32 then Some None
      else do {
        h \<leftarrow> slice data 9 (9 + 32);
        Some (Some (copy_at (new_buf 32) 0 h)) })"

definition mirrorEncodeFound :: "u32 \<Rightarrow> bytes \<Rightarrow> bytes option" where
  "mirrorEncodeFound reqID data = do {
     let buf = new_buf (4 + 4 + 1 + 4 + length data);
     buf \<leftarrow> put_at buf 0 (put_be32 mirrorMagic);
     buf \<leftarrow> put_at buf 4 (put_be32 reqID);
     buf \<leftarrow> put_at buf 8 [mirrorTypeChunkResp];
     buf \<leftarrow> put_at buf 9 (put_be32 (word_of_nat (length data)));
     Some (copy_at buf 13 data) }"

definition mirrorDecodeFound :: "bytes \<Rightarrow> bytes option option" where
  "mirrorDecodeFound data =
     (if length data < 4 + 4 + 1 + 4 then Some None
      else do {
        d \<leftarrow> slice_from data 9;
        w \<leftarrow> get_be32 d;
        let n = unat w;
        if 13 + n > length data then Some None
        else do {
          body \<leftarrow> slice data 13 (13 + n);
          Some (Some body) } })"

definition mirrorEncodeMiss :: "u32 \<Rightarrow> bytes option" where
  "mirrorEncodeMiss reqID = do {
     let buf = new_buf (4 + 4 + 1);
     buf \<leftarrow> put_at buf 0 (put_be32 mirrorMagic);
     buf \<leftarrow> put_at buf 4 (put_be32 reqID);
     put_at buf 8 [mirrorTypeChunkMiss] }"

section \<open>The connection\<close>

record mirrorPendingResp =
  mp_found :: bool
  mp_data :: bytes

record MirrorConn =
  mc_getChunk :: "(string \<Rightarrow> bytes option) option"
  mc_pending :: "u32 \<Rightarrow> mirrorPendingResp option option"
  mc_successCount :: nat
  mc_lastActivity :: time
  mc_closed :: bool

definition NewMirrorConn :: "time \<Rightarrow> (string \<Rightarrow> bytes option) option \<Rightarrow> MirrorConn" where
  "NewMirrorConn now getChunk = \<lparr>mc_getChunk = getChunk, mc_pending = (\<lambda>_. None), mc_successCount = 0,
     mc_lastActivity = now, mc_closed = False\<rparr>"

definition mc_deliver :: "u32 \<Rightarrow> mirrorPendingResp \<Rightarrow> MirrorConn \<Rightarrow> MirrorConn" where
  "mc_deliver reqID resp c = (case mc_pending c reqID of
     Some None \<Rightarrow> c\<lparr>mc_pending := (mc_pending c)(reqID \<mapsto> Some resp)\<rparr>
   | _ \<Rightarrow> c)"

text \<open>The frame written in answer to a chunk request.\<close>

definition serveChunkRequest :: "u32 \<Rightarrow> bytes \<Rightarrow> MirrorConn \<Rightarrow> bytes option" where
  "serveChunkRequest reqID hash c =
     (let hexHash = hex_encode hash in
      case mc_getChunk c of
        None \<Rightarrow> mirrorEncodeMiss reqID
      | Some get \<Rightarrow> (case get hexHash of
          None \<Rightarrow> mirrorEncodeMiss reqID
        | Some data \<Rightarrow> mirrorEncodeFound reqID data))"

text \<open>One datagram: the new state and the frames written in answer.\<close>

definition mc_frame :: "time \<Rightarrow> bytes \<Rightarrow> MirrorConn \<Rightarrow> (MirrorConn \<times> bytes list) option" where
  "mc_frame now dgram c0 =
     (let data = take mirrorMaxFrame dgram; c = c0\<lparr>mc_lastActivity := now\<rparr> in
      if length data < 9 then Some (c, [])
      else do {
        magic \<leftarrow> get_be32 data;
        if magic \<noteq> mirrorMagic then Some (c, [])
        else do {
          d \<leftarrow> slice_from data 4;
          reqID \<leftarrow> get_be32 d;
          typ \<leftarrow> idx data 8;
          if typ = mirrorTypeChunkReq then do {
            h \<leftarrow> mirrorDecodeRequest data;
            case h of
              None \<Rightarrow> Some (c, [])
            | Some hash \<Rightarrow> do { out \<leftarrow> serveChunkRequest reqID hash c; Some (c, [out]) } }
          else if typ = mirrorTypeChunkResp then do {
            b \<leftarrow> mirrorDecodeFound data;
            case b of
              None \<Rightarrow> Some (c, [])
            | Some body \<Rightarrow> Some (mc_deliver reqID \<lparr>mp_found = True, mp_data = body\<rparr> c, []) }
          else if typ = mirrorTypeChunkMiss then
            Some (mc_deliver reqID \<lparr>mp_found = False, mp_data = []\<rparr> c, [])
          else Some (c, []) } })"

text \<open>A read that ends in an error: the connection closes itself once idle for too long.\<close>

definition mc_readError :: "time \<Rightarrow> MirrorConn \<Rightarrow> MirrorConn" where
  "mc_readError now c =
     (if now - mc_lastActivity c > mirrorIdleTimeout then c\<lparr>mc_closed := True\<rparr> else c)"

section \<open>RequestChunk\<close>

datatype chunk_attempt = ChunkWriteError | ChunkResponse mirrorPendingResp | ChunkTimeout | ChunkClosed

datatype chunk_error = BadHash | ChunkWrite | MirrorClosed | ChunkRetriesExhausted

text \<open>Result: an error, a miss (\<^term>\<open>Inr None\<close>) or the data.\<close>

fun chunk_attempts ::
  "nat \<Rightarrow> (nat \<Rightarrow> chunk_attempt) \<Rightarrow> nat \<Rightarrow> MirrorConn \<Rightarrow> (chunk_error + bytes option) \<times> MirrorConn" where
  "chunk_attempts 0 out k c = (Inl ChunkRetriesExhausted, c)"
| "chunk_attempts (Suc left) out k c = (case out k of
     ChunkWriteError \<Rightarrow> (Inl ChunkWrite, c)
   | ChunkResponse resp \<Rightarrow>
       if mp_found resp then (Inr (Some (mp_data resp)), c\<lparr>mc_successCount := mc_successCount c + 1\<rparr>)
       else (Inr None, c)
   | ChunkTimeout \<Rightarrow> chunk_attempts left out (Suc k) c
   | ChunkClosed \<Rightarrow> (Inl MirrorClosed, c))"

definition RequestChunk ::
  "string \<Rightarrow> u32 \<Rightarrow> (nat \<Rightarrow> chunk_attempt) \<Rightarrow> MirrorConn \<Rightarrow>
     ((chunk_error + bytes option) \<times> MirrorConn \<times> bytes option) option" where
  "RequestChunk hash reqID out c = (case hex_decode hash of
     None \<Rightarrow> Some (Inl BadHash, c, None)
   | Some hashBytes \<Rightarrow>
       if length hashBytes \<noteq> 32 then Some (Inl BadHash, c, None)
       else do {
         let c1 = c\<lparr>mc_pending := (mc_pending c)(reqID \<mapsto> None)\<rparr>;
         frame \<leftarrow> mirrorEncodeRequest reqID (copy_at (new_buf 32) 0 hashBytes);
         let (r, c2) = chunk_attempts mirrorRetries out 0 c1;
         Some (r, c2\<lparr>mc_pending := (mc_pending c2)(reqID := None)\<rparr>, Some frame) })"

section \<open>Codec facts\<close>

lemma mirrorEncodeRequest_layout:
  "length hash = 32 \<Longrightarrow>
     mirrorEncodeRequest reqID hash = Some (put_be32 mirrorMagic @ put_be32 reqID @ [mirrorTypeChunkReq] @ hash)"
  by (simp add: mirrorEncodeRequest_def codec_simps)

lemma mirrorEncodeFound_layout:
  "mirrorEncodeFound reqID data =
     Some (put_be32 mirrorMagic @ put_be32 reqID @ [mirrorTypeChunkResp] @ put_be32 (word_of_nat (length data)) @ data)"
  by (simp add: mirrorEncodeFound_def codec_simps)

lemma mirrorEncodeMiss_layout:
  "mirrorEncodeMiss reqID = Some (put_be32 mirrorMagic @ put_be32 reqID @ [mirrorTypeChunkMiss])"
  by (simp add: mirrorEncodeMiss_def codec_simps)

lemma copy_hash [simp]: "length h = 32 \<Longrightarrow> copy_at (new_buf 32) 0 h = h"
  by (simp add: new_buf_def codec_simps)

lemma mirrorDecodeRequest_encode:
  "length hash = 32 \<Longrightarrow> mirrorEncodeRequest reqID hash = Some bs \<Longrightarrow>
     mirrorDecodeRequest (bs @ junk) = Some (Some hash)"
  by (auto simp: mirrorEncodeRequest_layout mirrorDecodeRequest_def drop_Cons')

lemma mirrorDecodeFound_encode:
  "length data < 4294967296 \<Longrightarrow> mirrorEncodeFound reqID data = Some bs \<Longrightarrow>
     mirrorDecodeFound (bs @ junk) = Some (Some data)"
  by (auto simp: mirrorEncodeFound_layout mirrorDecodeFound_def drop_Cons')

lemma mirrorDecodeRequest_total [panic_free]: "returns (mirrorDecodeRequest data)"
  unfolding mirrorDecodeRequest_def by (intro returns_intros) auto

lemma mirrorDecodeFound_total [panic_free]: "returns (mirrorDecodeFound data)"
  unfolding mirrorDecodeFound_def by (intro returns_intros) (auto dest!: slice_lengths)

lemma serveChunkRequest_total [panic_free]: "returns (serveChunkRequest reqID hash c)"
  unfolding serveChunkRequest_def Let_def mirrorEncodeFound_layout mirrorEncodeMiss_layout
  by (intro returns_intros)

interpretation found: frame_codec "mirrorEncodeFound reqID" mirrorDecodeFound "\<lambda>d. length d < 4294967296"
  for reqID
  by unfold_locales
    (simp_all add: mirrorEncodeFound_layout mirrorDecodeFound_total mirrorDecodeFound_encode [unfolded mirrorEncodeFound_layout])

lemma mc_frame_total [panic_free]: "returns (mc_frame now dgram c)"
  unfolding mc_frame_def
  by (intro returns_intros panic_free) (auto dest!: slice_lengths)

lemma mc_frame_header:
  assumes "take mirrorMaxFrame dgram = put_be32 mirrorMagic @ put_be32 reqID @ typ # rest"
  shows "mc_frame now dgram c0 =
    (let c = c0\<lparr>mc_lastActivity := now\<rparr>; data = take mirrorMaxFrame dgram in
     if typ = mirrorTypeChunkReq then do {
            h \<leftarrow> mirrorDecodeRequest data;
            case h of
              None \<Rightarrow> Some (c, [])
            | Some hash \<Rightarrow> do { out \<leftarrow> serveChunkRequest reqID hash c; Some (c, [out]) } }
     else if typ = mirrorTypeChunkResp then do {
            b \<leftarrow> mirrorDecodeFound data;
            case b of
              None \<Rightarrow> Some (c, [])
            | Some body \<Rightarrow> Some (mc_deliver reqID \<lparr>mp_found = True, mp_data = body\<rparr> c, []) }
     else if typ = mirrorTypeChunkMiss then Some (mc_deliver reqID \<lparr>mp_found = False, mp_data = []\<rparr> c, [])
     else Some (c, []))"
proof -
  define data where "data = take mirrorMaxFrame dgram"
  have "length data \<ge> 9" "get_be32 data = Some mirrorMagic" "slice_from data 4 = Some (put_be32 reqID @ typ # rest)"
    "get_be32 (put_be32 reqID @ typ # rest) = Some reqID" "idx data 8 = Some typ"
    by (simp_all add: assms data_def nth_append)
  then show ?thesis unfolding mc_frame_def data_def [symmetric] Let_def by simp
qed

lemma request_received:
  assumes "length h = 32" "mirrorEncodeRequest reqID h = Some f"
  shows "\<exists>out. serveChunkRequest reqID h (s\<lparr>mc_lastActivity := now\<rparr>) = Some out \<and>
    mc_frame now f s = Some (s\<lparr>mc_lastActivity := now\<rparr>, [out])"
proof -
  have f: "f = put_be32 mirrorMagic @ put_be32 reqID @ mirrorTypeChunkReq # h"
    using assms by (simp add: mirrorEncodeRequest_layout)
  then have "take mirrorMaxFrame f = f" using assms(1) by (simp add: mirrorMaxFrame_def)
  then have t: "take mirrorMaxFrame f = put_be32 mirrorMagic @ put_be32 reqID @ mirrorTypeChunkReq # h"
    using f by simp
  have "mirrorDecodeRequest f = Some (Some h)" using mirrorDecodeRequest_encode [OF assms, of "[]"] by simp
  moreover obtain out where "serveChunkRequest reqID h (s\<lparr>mc_lastActivity := now\<rparr>) = Some out"
    using serveChunkRequest_total unfolding returns_def by blast
  ultimately show ?thesis
    using mc_frame_header [OF t, of now s] \<open>take mirrorMaxFrame f = f\<close> by (simp add: Let_def)
qed

text \<open>The decoder on a frame that was cut: the length field promises more than is there.\<close>

lemma found_received:
  assumes "length data < 4294967296" "mirrorEncodeFound reqID data = Some f"
  shows "mc_frame now f c =
    Some (if 13 + length data \<le> mirrorMaxFrame
          then mc_deliver reqID \<lparr>mp_found = True, mp_data = data\<rparr> (c\<lparr>mc_lastActivity := now\<rparr>)
          else c\<lparr>mc_lastActivity := now\<rparr>, [])"
proof -
  let ?len = "put_be32 (word_of_nat (length data))"
  have f: "f = put_be32 mirrorMagic @ put_be32 reqID @ mirrorTypeChunkResp # ?len @ data"
    using assms by (simp add: mirrorEncodeFound_layout)
  have t: "take mirrorMaxFrame f = put_be32 mirrorMagic @ put_be32 reqID @ mirrorTypeChunkResp #
      ?len @ take (mirrorMaxFrame - 13) data"
    by (simp add: f mirrorMaxFrame_def take_Cons')
  have "mirrorDecodeFound (take mirrorMaxFrame f) =
    (if 13 + length data \<le> mirrorMaxFrame then Some (Some data) else Some None)"
    unfolding t using assms(1) by (simp add: mirrorDecodeFound_def drop_Cons' mirrorMaxFrame_def)
  then show ?thesis
    using mc_frame_header [OF t, of now c]
    by (simp add: Let_def mirrorTypeChunkReq_def mirrorTypeChunkResp_def)
qed

lemma miss_received:
  assumes "mirrorEncodeMiss reqID = Some f"
  shows "mc_frame now f c = Some (mc_deliver reqID \<lparr>mp_found = False, mp_data = []\<rparr> (c\<lparr>mc_lastActivity := now\<rparr>), [])"
proof -
  have "take mirrorMaxFrame f = put_be32 mirrorMagic @ put_be32 reqID @ mirrorTypeChunkMiss # []"
    using assms by (auto simp: mirrorEncodeMiss_layout mirrorMaxFrame_def)
  from mc_frame_header [OF this, of now c] show ?thesis
    by (simp add: Let_def mirrorTypeChunkReq_def mirrorTypeChunkResp_def mirrorTypeChunkMiss_def)
qed

section \<open>Properties\<close>

text \<open>Property C23. A chunk crosses the transport intact. For a 32-byte hash, the request frame makes
  the serving peer answer; if it has the chunk, the answer delivers exactly the chunk to the waiting
  request, provided the frame fits the 32 KiB receive buffer (a longer one is dropped, not
  delivered cut); if it does not, the answer delivers an explicit miss.\<close>

theorem chunk_exchange:
  assumes "length h = 32" "mc_getChunk s = Some get" "mc_pending c reqID = Some None"
    and "\<And>data. get (hex_encode h) = Some data \<Longrightarrow> length data < 4294967296"
  shows "\<exists>f1 f2. mirrorEncodeRequest reqID h = Some f1 \<and>
    mc_frame now f1 s = Some (s\<lparr>mc_lastActivity := now\<rparr>, [f2]) \<and>
    mc_frame now f2 c = Some (case get (hex_encode h) of
        Some data \<Rightarrow>
          if 13 + length data \<le> mirrorMaxFrame
          then c\<lparr>mc_lastActivity := now, mc_pending := (mc_pending c)(reqID \<mapsto> Some \<lparr>mp_found = True, mp_data = data\<rparr>)\<rparr>
          else c\<lparr>mc_lastActivity := now\<rparr>
      | None \<Rightarrow> c\<lparr>mc_lastActivity := now, mc_pending := (mc_pending c)(reqID \<mapsto> Some \<lparr>mp_found = False, mp_data = []\<rparr>)\<rparr>, [])"
proof -
  obtain f1 where f1: "mirrorEncodeRequest reqID h = Some f1"
    using assms(1) by (simp add: mirrorEncodeRequest_layout)
  from request_received [OF assms(1) f1] obtain f2 where
    f2: "serveChunkRequest reqID h (s\<lparr>mc_lastActivity := now\<rparr>) = Some f2"
      "mc_frame now f1 s = Some (s\<lparr>mc_lastActivity := now\<rparr>, [f2])" by blast
  show ?thesis
  proof (cases "get (hex_encode h)")
    case None
    then have "mirrorEncodeMiss reqID = Some f2" using f2(1) assms(2) by (simp add: serveChunkRequest_def)
    from miss_received [OF this, of now c] f1 f2 None assms(3) show ?thesis by (auto simp: mc_deliver_def)
  next
    case (Some data)
    then have "mirrorEncodeFound reqID data = Some f2" using f2(1) assms(2) by (simp add: serveChunkRequest_def)
    from found_received [OF assms(4) [OF Some] this, of now c] f1 f2 Some assms(3) show ?thesis
      by (auto simp: mc_deliver_def)
  qed
qed

theorem chunk_exchange_witness:
  "let s = NewMirrorConn 0 (Some (\<lambda>_. Some [1, 2])); c = (NewMirrorConn 0 None)\<lparr>mc_pending := [3 \<mapsto> None]\<rparr> in
   \<exists>f1 f2. mirrorEncodeRequest 3 (replicate 32 9) = Some f1 \<and>
    mc_frame 8 f1 s = Some (s\<lparr>mc_lastActivity := 8\<rparr>, [f2]) \<and>
    mc_frame 8 f2 c = Some (c\<lparr>mc_lastActivity := 8, mc_pending := [3 \<mapsto> Some \<lparr>mp_found = True, mp_data = [1, 2]\<rparr>]\<rparr>, [])"
  using chunk_exchange [of "replicate 32 9" "NewMirrorConn 0 (Some (\<lambda>_. Some [1, 2]))" "\<lambda>_. Some [1, 2]"
      "(NewMirrorConn 0 None)\<lparr>mc_pending := [3 \<mapsto> None]\<rparr>" 3 8]
  by (simp add: NewMirrorConn_def Let_def mirrorMaxFrame_def)

end
