(* ===== verification/Mirror_Sync.thy ===== *)
theory Mirror_Sync
  imports Mirror_Transport
begin

text \<open>
  The content mirror (\<^verbatim>\<open>mirror.go\<close>): verification and acceptance of a content manifest, the
  synchronisation of the data directory, chunk fetching and the chunk index from which chunks are
  served. \<open>sha\<close> stands for SHA-256, \<open>edv\<close> for Ed25519 verification, \<open>parse\<close> and \<open>canonical\<close> for the
  JSON decoder and encoder of the manifest, \<open>absf\<close> for the path under the data directory. The disk is
  a map from paths to contents.
\<close>

record contentFile =
  cf_Path :: string
  cf_Size :: int
  cf_ChunkSize :: int
  cf_ChunkHashes :: "string list"

record signedContentManifest =
  scm_Type :: string
  scm_TS :: int
  scm_Files :: "contentFile list"
  scm_Sig :: string

record chunkLoc =
  loc_path :: string
  loc_offset :: int
  loc_size :: int

record MirrorManager =
  mm_pubkey :: "bytes option"
  mm_ts :: int
  mm_gen :: int
  mm_chunkIdx :: "string \<Rightarrow> chunkLoc option"
  mm_peerConns :: "string list"

type_synonym disk = "string \<Rightarrow> bytes option"

datatype mirror_effect = SetContentFn bytes int | SetCompleteFn int bool | StartSync int

section \<open>Acceptance\<close>

datatype manifest_error = ManifestParse | WrongType | BadManifestSig

definition mm_verify ::
  "(bytes \<Rightarrow> bytes \<Rightarrow> bytes \<Rightarrow> bool) \<Rightarrow> (bytes \<Rightarrow> signedContentManifest option) \<Rightarrow>
   (string \<Rightarrow> int \<Rightarrow> contentFile list \<Rightarrow> bytes) \<Rightarrow> MirrorManager \<Rightarrow> bytes \<Rightarrow> manifest_error + signedContentManifest" where
  "mm_verify edv parse canonical m data = (case parse data of
     None \<Rightarrow> Inl ManifestParse
   | Some sm \<Rightarrow>
       if scm_Type sm \<noteq> ''content'' then Inl WrongType
       else (case mm_pubkey m of
         None \<Rightarrow> Inr sm
       | Some pk \<Rightarrow>
          (case base64_decode (scm_Sig sm) of
             None \<Rightarrow> Inl BadManifestSig
           | Some sig \<Rightarrow>
               if edv pk (canonical (scm_Type sm) (scm_TS sm) (scm_Files sm)) sig then Inr sm
               else Inl BadManifestSig)))"

definition OnContentManifest ::
  "(bytes \<Rightarrow> bytes \<Rightarrow> bytes \<Rightarrow> bool) \<Rightarrow> (bytes \<Rightarrow> signedContentManifest option) \<Rightarrow>
   (string \<Rightarrow> int \<Rightarrow> contentFile list \<Rightarrow> bytes) \<Rightarrow> bytes \<Rightarrow> MirrorManager \<Rightarrow> MirrorManager \<times> mirror_effect list" where
  "OnContentManifest edv parse canonical raw m = (case mm_verify edv parse canonical m raw of
     Inl _ \<Rightarrow> (m, [])
   | Inr sm \<Rightarrow>
       if scm_TS sm \<le> mm_ts m then (m, [])
       else (m\<lparr>mm_ts := scm_TS sm, mm_gen := mm_gen m + 1\<rparr>,
             [SetContentFn raw (scm_TS sm), SetCompleteFn (scm_TS sm) False, StartSync (mm_gen m + 1)]))"

text \<open>Construction: an empty key string skips verification; \<open>mkdir_ok\<close> is the outcome of creating the data
  directory.\<close>

definition NewMirrorManager :: "string \<Rightarrow> bool \<Rightarrow> MirrorManager option" where
  "NewMirrorManager pubkeyHex mkdir_ok =
     (let m = (\<lambda>pk. if mkdir_ok then Some \<lparr>mm_pubkey = pk, mm_ts = 0, mm_gen = 0, mm_chunkIdx = (\<lambda>_. None), mm_peerConns = []\<rparr>
                     else None) in
      if pubkeyHex = [] then m None
      else (case hex_decode pubkeyHex of
          None \<Rightarrow> None
        | Some b \<Rightarrow> if length b \<noteq> 32 then None else m (Some b)))"

definition LoadCached :: "(bytes \<Rightarrow> signedContentManifest option) \<Rightarrow> bytes option \<Rightarrow> MirrorManager \<Rightarrow> MirrorManager" where
  "LoadCached parse state m = (case state of
     None \<Rightarrow> m
   | Some data \<Rightarrow> (case parse data of None \<Rightarrow> m | Some sm \<Rightarrow> m\<lparr>mm_ts := scm_TS sm\<rparr>))"

definition mm_Close :: "MirrorManager \<Rightarrow> MirrorManager" where "mm_Close m = m\<lparr>mm_peerConns := []\<rparr>"

definition superseded :: "int \<Rightarrow> MirrorManager \<Rightarrow> bool" where "superseded gen m \<longleftrightarrow> gen \<noteq> mm_gen m"

section \<open>Fetching a chunk\<close>

definition ToLower :: "string \<Rightarrow> string" where
  "ToLower s = map (\<lambda>c. let n = of_char c :: nat in if 65 \<le> n \<and> n \<le> 90 then char_of (n + 32) else c) s"

definition chunkHashMatches :: "(bytes \<Rightarrow> bytes) \<Rightarrow> bytes \<Rightarrow> string \<Rightarrow> bool" where
  "chunkHashMatches sha data hash \<longleftrightarrow> hex_encode (sha data) = ToLower hash"

text \<open>\<open>peerConn\<close>: the pooled connection, or a new one if punching succeeds.\<close>

definition peerConn :: "(string \<Rightarrow> bool) option \<Rightarrow> string \<Rightarrow> string list \<Rightarrow> string list option" where
  "peerConn punchFn addr pool =
     (if addr \<in> set pool then Some pool
      else (case punchFn of
        None \<Rightarrow> None
      | Some punch \<Rightarrow> if punch addr then Some (addr # pool) else None))"

text \<open>\<open>request addr hash\<close> is the result of \<open>RequestChunk\<close> on the connection to \<open>addr\<close>.\<close>

definition fetchChunkFromPeer ::
  "(string \<Rightarrow> bool) option \<Rightarrow> (string \<Rightarrow> string \<Rightarrow> chunk_error + bytes option) \<Rightarrow> string \<Rightarrow> string \<Rightarrow>
   string list \<Rightarrow> bytes option option \<times> string list" where
  "fetchChunkFromPeer punchFn request addr hash pool = (case peerConn punchFn addr pool of
     None \<Rightarrow> (None, pool)
   | Some pool' \<Rightarrow> (case request addr hash of
       Inl _ \<Rightarrow> (None, removeAll addr pool')
     | Inr r \<Rightarrow> (Some r, pool')))"

fun fetch_from_peers ::
  "(bytes \<Rightarrow> bytes) \<Rightarrow> (string \<Rightarrow> bool) option \<Rightarrow> (string \<Rightarrow> string \<Rightarrow> chunk_error + bytes option) \<Rightarrow> string \<Rightarrow>
   string list \<Rightarrow> string list \<Rightarrow> bytes option \<times> string list" where
  "fetch_from_peers sha punchFn request hash [] pool = (None, pool)"
| "fetch_from_peers sha punchFn request hash (addr # addrs) pool =
     (case fetchChunkFromPeer punchFn request addr hash pool of
        (None, pool') \<Rightarrow> fetch_from_peers sha punchFn request hash addrs pool'
      | (Some None, pool') \<Rightarrow> fetch_from_peers sha punchFn request hash addrs pool'
      | (Some (Some data), pool') \<Rightarrow>
          if \<not> chunkHashMatches sha data hash then fetch_from_peers sha punchFn request hash addrs pool'
          else (Some data, pool'))"

datatype fetch_error = NoRelayFallback | RelayFallback | RelayWrongHash

definition fetchChunk ::
  "(bytes \<Rightarrow> bytes) \<Rightarrow> (string \<Rightarrow> bool) option \<Rightarrow> (string \<Rightarrow> string \<Rightarrow> chunk_error + bytes option) \<Rightarrow>
   (string \<Rightarrow> bytes option) option \<Rightarrow> string list \<Rightarrow> string \<Rightarrow> string list \<Rightarrow> (fetch_error + bytes) \<times> string list" where
  "fetchChunk sha punchFn request relayFetch candidates hash pool =
     (case fetch_from_peers sha punchFn request hash candidates pool of
        (Some data, pool') \<Rightarrow> (Inr data, pool')
      | (None, pool') \<Rightarrow> (case relayFetch of
          None \<Rightarrow> (Inl NoRelayFallback, pool')
        | Some rf \<Rightarrow> (case rf hash of
            None \<Rightarrow> (Inl RelayFallback, pool')
          | Some data \<Rightarrow>
              if \<not> chunkHashMatches sha data hash then (Inl RelayWrongHash, pool') else (Inr data, pool'))))"

definition peerCandidates :: "(int \<Rightarrow> string list) option \<Rightarrow> MirrorManager \<Rightarrow> string list" where
  "peerCandidates completePeersFn m = (case completePeersFn of None \<Rightarrow> [] | Some f \<Rightarrow> f (mm_ts m))"

text \<open>The relay fallback over the shuffled control list; \<open>get url\<close> is the HTTP exchange: a status and a
  body, or \<^term>\<open>None\<close> for an error.\<close>

definition chunk_url :: "string \<Rightarrow> string \<Rightarrow> string" where
  "chunk_url hash addr =
     (if take 4 addr = ''http'' then addr else ''https://'' @ addr) @ ''/p/v1/content/chunk?hash='' @ hash"

fun DefaultRelayChunkFetcher :: "(string \<Rightarrow> (nat \<times> bytes) option) \<Rightarrow> string list \<Rightarrow> string \<Rightarrow> bytes option" where
  "DefaultRelayChunkFetcher get [] hash = None"
| "DefaultRelayChunkFetcher get (addr # controls) hash = (case get (chunk_url hash addr) of
     None \<Rightarrow> DefaultRelayChunkFetcher get controls hash
   | Some (status, body) \<Rightarrow>
       if status \<noteq> 200 then DefaultRelayChunkFetcher get controls hash
       else Some (take (2 ^ 20) body))"

section \<open>Synchronisation\<close>

definition sameChunks :: "string list \<Rightarrow> string list \<Rightarrow> bool" where
  "sameChunks a b \<longleftrightarrow> length a = length b \<and> (\<forall>i \<in> set [0..<length a]. a ! i = b ! i)"

text \<open>Outcomes of the file system: whether creating, closing and renaming the temporary file of a path
  succeed, whether a file can be removed, whether the manifest can be persisted.\<close>

record mirror_io =
  io_write :: "string \<Rightarrow> bool"
  io_remove :: "string \<Rightarrow> bool"
  io_persist :: bool

text \<open>\<open>fetch path i\<close> is what \<open>fetchChunk\<close> returns for chunk \<open>i\<close> of a file, \<^term>\<open>None\<close> for any error of
  the loop body (superseded, fetch or write). The file is replaced only at the end, by the rename.\<close>

definition syncFile ::
  "(string \<Rightarrow> string) \<Rightarrow> (string \<Rightarrow> nat \<Rightarrow> bytes option) \<Rightarrow> mirror_io \<Rightarrow> contentFile \<Rightarrow> disk \<Rightarrow> disk option" where
  "syncFile absf fetch io f d =
     (if \<not> io_write io (cf_Path f) then None
      else case those (map (fetch (cf_Path f)) [0..<length (cf_ChunkHashes f)]) of
        None \<Rightarrow> None
      | Some chunks \<Rightarrow> Some (d(absf (cf_Path f) \<mapsto> concat chunks)))"

text \<open>The list of files of the last persisted manifest, by path; the last of equal paths counts.\<close>

definition file_map :: "contentFile list \<Rightarrow> string \<Rightarrow> contentFile option" where
  "file_map fs = map_of (rev (map (\<lambda>f. (cf_Path f, f)) fs))"

definition loadPrevFileList ::
  "(bytes \<Rightarrow> signedContentManifest option) \<Rightarrow> bytes option \<Rightarrow> contentFile list" where
  "loadPrevFileList parse state = (case state of
     None \<Rightarrow> []
   | Some data \<Rightarrow> (case parse data of None \<Rightarrow> [] | Some sm \<Rightarrow> scm_Files sm))"

fun delete_files :: "(string \<Rightarrow> string) \<Rightarrow> mirror_io \<Rightarrow> (string \<Rightarrow> bool) \<Rightarrow> string list \<Rightarrow> disk \<Rightarrow> disk" where
  "delete_files absf io wanted [] d = d"
| "delete_files absf io wanted (p # ps) d =
     delete_files absf io wanted ps (if wanted p \<or> \<not> io_remove io p then d else d(absf p := None))"

text \<open>The file loop; \<open>supd k\<close> tells whether the check before file \<open>k\<close> finds the sync superseded
  (\<^term>\<open>None\<close>: abort). The boolean is the variable \<open>ok\<close>.\<close>

fun sync_files ::
  "(string \<Rightarrow> string) \<Rightarrow> (string \<Rightarrow> nat \<Rightarrow> bytes option) \<Rightarrow> mirror_io \<Rightarrow> (nat \<Rightarrow> bool) \<Rightarrow>
   (string \<Rightarrow> contentFile option) \<Rightarrow> nat \<Rightarrow> contentFile list \<Rightarrow> bool \<Rightarrow> disk \<Rightarrow> bool option \<times> disk" where
  "sync_files absf fetch io supd prev k [] ok d = (Some ok, d)"
| "sync_files absf fetch io supd prev k (f # fs) ok d =
     (if supd k then (None, d)
      else if (case prev (cf_Path f) of Some p \<Rightarrow> sameChunks (cf_ChunkHashes p) (cf_ChunkHashes f) | None \<Rightarrow> False)
      then sync_files absf fetch io supd prev (Suc k) fs ok d
      else (case syncFile absf fetch io f d of
          None \<Rightarrow> sync_files absf fetch io supd prev (Suc k) fs False d
        | Some d' \<Rightarrow> sync_files absf fetch io supd prev (Suc k) fs ok d'))"

fun index_chunks :: "string \<Rightarrow> int \<Rightarrow> int \<Rightarrow> int \<Rightarrow> string list \<Rightarrow> (string \<Rightarrow> chunkLoc option) \<Rightarrow> string \<Rightarrow> chunkLoc option" where
  "index_chunks pth fsize chunkSize offset [] ix = ix"
| "index_chunks pth fsize chunkSize offset (hash # hs) ix =
     (let sz = (if fsize - offset < chunkSize then fsize - offset else chunkSize) in
      index_chunks pth fsize chunkSize (offset + sz) hs
        (ix(hash \<mapsto> \<lparr>loc_path = pth, loc_offset = offset, loc_size = sz\<rparr>)))"

definition buildChunkIndex :: "(string \<Rightarrow> string) \<Rightarrow> contentFile list \<Rightarrow> string \<Rightarrow> chunkLoc option" where
  "buildChunkIndex absf files =
     fold (\<lambda>f. index_chunks (absf (cf_Path f)) (cf_Size f) (cf_ChunkSize f) 0 (cf_ChunkHashes f)) files (\<lambda>_. None)"

record sync_result =
  sr_disk :: disk
  sr_state :: "bytes option"
  sr_idx :: "(string \<Rightarrow> chunkLoc option) option"
  sr_complete :: bool

text \<open>The whole \<open>sync\<close>: deletions, the file loop, persisting the manifest (also after errors), and
  the announcement of completeness. \<open>supd_end\<close> is the last superseded check.\<close>

definition mirror_sync ::
  "(string \<Rightarrow> string) \<Rightarrow> (bytes \<Rightarrow> signedContentManifest option) \<Rightarrow> (string \<Rightarrow> nat \<Rightarrow> bytes option) \<Rightarrow>
   mirror_io \<Rightarrow> (nat \<Rightarrow> bool) \<Rightarrow> bool \<Rightarrow> bytes \<Rightarrow> signedContentManifest \<Rightarrow> bytes option \<Rightarrow> disk \<Rightarrow> sync_result" where
  "mirror_sync absf parse fetch io supd supd_end raw sm state d =
     (let prevFiles = loadPrevFileList parse state;
          wanted = (\<lambda>p. p \<in> cf_Path ` set (scm_Files sm));
          d1 = delete_files absf io wanted (map cf_Path prevFiles) d in
      case sync_files absf fetch io supd (file_map prevFiles) 0 (scm_Files sm) True d1 of
        (None, d2) \<Rightarrow> \<lparr>sr_disk = d2, sr_state = state, sr_idx = None, sr_complete = False\<rparr>
      | (Some ok, d2) \<Rightarrow>
          if supd_end then \<lparr>sr_disk = d2, sr_state = state, sr_idx = None, sr_complete = False\<rparr>
          else if ok then \<lparr>sr_disk = d2, sr_state = (if io_persist io then Some raw else state),
                           sr_idx = Some (buildChunkIndex absf (scm_Files sm)), sr_complete = True\<rparr>
          else \<lparr>sr_disk = d2, sr_state = (if io_persist io then Some raw else state), sr_idx = None, sr_complete = False\<rparr>)"

text \<open>Serving: \<^term>\<open>None\<close> is a miss; seeking or reading beyond the file is an error, hence a miss.
  A negative size would panic in \<^verbatim>\<open>make\<close>; it is the outer \<^term>\<open>None\<close>.\<close>

definition ServeChunk :: "(string \<Rightarrow> chunkLoc option) \<Rightarrow> disk \<Rightarrow> string \<Rightarrow> bytes option option" where
  "ServeChunk ix d hash = (case ix hash of
     None \<Rightarrow> Some None
   | Some loc \<Rightarrow> (case d (loc_path loc) of
       None \<Rightarrow> Some None
     | Some content \<Rightarrow>
         if loc_offset loc < 0 then Some None
         else if loc_size loc < 0 then None
         else if nat (loc_offset loc) + nat (loc_size loc) > length content then Some None
         else Some (Some (take (nat (loc_size loc)) (drop (nat (loc_offset loc)) content)))))"

section \<open>Acceptance only moves forward\<close>

lemma OnContentManifest_ts:
  "mm_ts (fst (OnContentManifest edv parse canonical raw m)) =
     (case mm_verify edv parse canonical m raw of
        Inr sm \<Rightarrow> max (mm_ts m) (scm_TS sm) | Inl _ \<Rightarrow> mm_ts m)"
  by (auto simp: OnContentManifest_def split: sum.split)

section \<open>Chunks\<close>

lemma fetch_from_peers_sound:
  "fetch_from_peers sha punchFn request hash addrs pool = (Some data, pool') \<Longrightarrow> chunkHashMatches sha data hash"
  by (induction sha punchFn request hash addrs pool rule: fetch_from_peers.induct)
    (auto split: prod.splits option.splits if_splits)

lemma fetchChunk_sound:
  "fetchChunk sha punchFn request relayFetch candidates hash pool = (Inr data, pool') \<Longrightarrow>
     chunkHashMatches sha data hash"
  by (auto simp: fetchChunk_def fetch_from_peers_sound split: prod.splits option.splits if_splits)

text \<open>A connection whose request failed is dropped from the pool, so that the next attempt punches
  again.\<close>

lemma fetchChunkFromPeer_drops:
  "request addr hash = Inl e \<Longrightarrow> addr \<notin> set (snd (fetchChunkFromPeer punchFn request addr hash pool)) \<or>
     peerConn punchFn addr pool = None"
  by (auto simp: fetchChunkFromPeer_def split: option.split)

definition chunks_match :: "(bytes \<Rightarrow> bytes) \<Rightarrow> string list \<Rightarrow> bytes \<Rightarrow> bool" where
  "chunks_match sha hashes content \<longleftrightarrow>
     (\<exists>chunks. content = concat chunks \<and> list_all2 (chunkHashMatches sha) chunks hashes)"

definition file_ok :: "(bytes \<Rightarrow> bytes) \<Rightarrow> (string \<Rightarrow> string) \<Rightarrow> disk \<Rightarrow> contentFile \<Rightarrow> bool" where
  "file_ok sha absf d f \<longleftrightarrow>
     (\<exists>content. d (absf (cf_Path f)) = Some content \<and> chunks_match sha (cf_ChunkHashes f) content)"

lemma sameChunks_eq [simp]: "sameChunks a b \<longleftrightarrow> a = b"
  by (auto simp: sameChunks_def intro!: nth_equalityI)

lemma those_Some: "those xs = Some ys \<longleftrightarrow> xs = map Some ys"
  by (induction xs arbitrary: ys) (auto split: option.split)

lemma syncFile_ok:
  assumes "syncFile absf fetch io f d = Some d'"
    and "\<And>i data. i < length (cf_ChunkHashes f) \<Longrightarrow> fetch (cf_Path f) i = Some data \<Longrightarrow>
      chunkHashMatches sha data (cf_ChunkHashes f ! i)"
  shows "file_ok sha absf d' f \<and> (\<forall>q. q \<noteq> absf (cf_Path f) \<longrightarrow> d' q = d q)"
proof -
  let ?hs = "cf_ChunkHashes f"
  obtain chunks where c: "map (fetch (cf_Path f)) [0..<length ?hs] = map Some chunks"
    and d': "d' = d(absf (cf_Path f) \<mapsto> concat chunks)"
    using assms(1) by (auto simp: syncFile_def those_Some split: if_splits option.splits)
  have len: "length chunks = length ?hs" using arg_cong [OF c, of length] by simp
  have "fetch (cf_Path f) i = Some (chunks ! i)" if "i < length ?hs" for i
    using arg_cong [OF c, of "\<lambda>xs. xs ! i"] that len by simp
  then have "list_all2 (chunkHashMatches sha) chunks ?hs"
    using assms(2) len by (auto simp: list_all2_conv_all_nth)
  then show ?thesis by (auto simp: d' file_ok_def chunks_match_def)
qed

text \<open>The file loop: if it ends with \<open>ok\<close> still true, every file of the manifest is on disk with
  the right chunks and nothing else was touched.\<close>

lemma sync_files_ok:
  assumes "sync_files absf fetch io supd prev k fs ok d = (Some True, d')"
    and "distinct (map cf_Path fs)" "inj_on absf (cf_Path ` set fs)"
    and "\<forall>f \<in> set fs. \<forall>p. prev (cf_Path f) = Some p \<and> cf_ChunkHashes p = cf_ChunkHashes f \<longrightarrow> file_ok sha absf d f"
    and "\<forall>f \<in> set fs. \<forall>i data. i < length (cf_ChunkHashes f) \<and> fetch (cf_Path f) i = Some data \<longrightarrow>
      chunkHashMatches sha data (cf_ChunkHashes f ! i)"
  shows "ok \<and> (\<forall>f \<in> set fs. file_ok sha absf d' f) \<and> (\<forall>q. q \<notin> absf ` cf_Path ` set fs \<longrightarrow> d' q = d q)"
  using assms
proof (induction absf fetch io supd prev k fs ok d rule: sync_files.induct)
  case (2 absf fetch io supd prev k f fs ok d)
  have nsup: "\<not> supd k" using "2.prems"(1) by (auto split: if_splits)
  have dist: "distinct (map cf_Path fs)" "cf_Path f \<notin> cf_Path ` set fs" "inj_on absf (cf_Path ` set fs)"
    using "2.prems"(2,3) by simp_all
  have absf_new: "absf (cf_Path f) \<notin> absf ` cf_Path ` set fs"
  proof
    assume "absf (cf_Path f) \<in> absf ` cf_Path ` set fs"
    then obtain g where "g \<in> set fs" "absf (cf_Path f) = absf (cf_Path g)" by blast
    then have "cf_Path f = cf_Path g" using inj_onD [OF "2.prems"(3), of "cf_Path f" "cf_Path g"] by auto
    with \<open>g \<in> set fs\<close> dist(2) show False by blast
  qed
  have prev: "\<forall>g \<in> set fs. \<forall>p. prev (cf_Path g) = Some p \<and> cf_ChunkHashes p = cf_ChunkHashes g \<longrightarrow> file_ok sha absf d g"
    and fet: "\<forall>g \<in> set fs. \<forall>i data. i < length (cf_ChunkHashes g) \<and> fetch (cf_Path g) i = Some data \<longrightarrow>
      chunkHashMatches sha data (cf_ChunkHashes g ! i)"
    using "2.prems"(4,5) by simp_all
  let ?same = "case prev (cf_Path f) of Some p \<Rightarrow> sameChunks (cf_ChunkHashes p) (cf_ChunkHashes f) | None \<Rightarrow> False"
  show ?case
  proof (cases ?same)
    case True
    then have f: "file_ok sha absf d f" using "2.prems"(4) by (auto split: option.splits)
    have "sync_files absf fetch io supd prev (Suc k) fs ok d = (Some True, d')"
      using "2.prems"(1) nsup True by simp
    from "2.IH"(1) [OF nsup True this dist(1,3) prev fet]
    have IH: "ok" "\<forall>g \<in> set fs. file_ok sha absf d' g" "\<forall>q. q \<notin> absf ` cf_Path ` set fs \<longrightarrow> d' q = d q" by blast+
    then have "file_ok sha absf d' f" using f absf_new by (simp add: file_ok_def)
    with IH show ?thesis by auto
  next
    case False
    show ?thesis
    proof (cases "syncFile absf fetch io f d")
      case None
      have "sync_files absf fetch io supd prev (Suc k) fs False d = (Some True, d')"
        using "2.prems"(1) nsup False None by simp
      from "2.IH"(2) [OF nsup False None this dist(1,3) prev fet] show ?thesis by blast
    next
      case (Some d1)
      have f: "file_ok sha absf d1 f" "\<forall>q. q \<noteq> absf (cf_Path f) \<longrightarrow> d1 q = d q"
        using syncFile_ok [OF Some, of sha] "2.prems"(5) by auto
      have prev1: "\<forall>g \<in> set fs. \<forall>p. prev (cf_Path g) = Some p \<and> cf_ChunkHashes p = cf_ChunkHashes g \<longrightarrow> file_ok sha absf d1 g"
      proof (intro ballI allI impI)
        fix g p assume g: "g \<in> set fs" "prev (cf_Path g) = Some p \<and> cf_ChunkHashes p = cf_ChunkHashes g"
        then have "file_ok sha absf d g" using prev by blast
        moreover have "absf (cf_Path g) \<noteq> absf (cf_Path f)" using absf_new g(1) by (metis imageI)
        ultimately show "file_ok sha absf d1 g" using f(2) by (simp add: file_ok_def)
      qed
      have "sync_files absf fetch io supd prev (Suc k) fs ok d1 = (Some True, d')"
        using "2.prems"(1) nsup False Some by simp
      from "2.IH"(3) [OF nsup False Some this dist(1,3) prev1 fet]
      have IH: "ok" "\<forall>g \<in> set fs. file_ok sha absf d' g" "\<forall>q. q \<notin> absf ` cf_Path ` set fs \<longrightarrow> d' q = d1 q" by blast+
      then have "file_ok sha absf d' f" using f absf_new by (simp add: file_ok_def)
      with IH f(2) show ?thesis by auto
    qed
  qed
qed simp

lemma delete_files_spec:
  assumes "inj_on absf (set ps \<union> A)" "q \<in> set ps \<union> A"
  shows "delete_files absf io wanted ps d (absf q) =
    (if q \<in> set ps \<and> \<not> wanted q \<and> io_remove io q then None else d (absf q))"
  using assms
proof (induction ps arbitrary: d A)
  case (Cons p ps)
  have "inj_on absf (set ps \<union> insert p A)" "q \<in> set ps \<union> insert p A" using Cons.prems by auto
  note IH = Cons.IH [OF this]
  have "absf p = absf q \<longleftrightarrow> p = q" using Cons.prems by (auto simp: inj_on_def)
  then show ?case by (auto simp: IH)
qed simp

section \<open>Serving\<close>

text \<open>The cut of a file that the index assumes: every chunk but the last has the chunk size.\<close>

fun layout :: "int \<Rightarrow> int \<Rightarrow> int \<Rightarrow> bytes list \<Rightarrow> bool" where
  "layout fsize chunkSize offset [] = True"
| "layout fsize chunkSize offset (c # cs) =
     (int (length c) = (if fsize - offset < chunkSize then fsize - offset else chunkSize) \<and>
      layout fsize chunkSize (offset + int (length c)) cs)"

definition idx_ok :: "(bytes \<Rightarrow> bytes) \<Rightarrow> disk \<Rightarrow> (string \<Rightarrow> chunkLoc option) \<Rightarrow> bool" where
  "idx_ok sha d ix \<longleftrightarrow> (\<forall>h. ix h \<noteq> None \<longrightarrow>
     (\<exists>data. ServeChunk ix d h = Some (Some data) \<and> chunkHashMatches sha data h))"

lemma ServeChunk_other: "h' \<noteq> h \<Longrightarrow> ServeChunk (ix(h \<mapsto> loc)) d h' = ServeChunk ix d h'"
  by (simp add: ServeChunk_def)

lemma idx_ok_upd:
  "idx_ok sha d ix \<Longrightarrow> ServeChunk (ix(h \<mapsto> loc)) d h = Some (Some c) \<Longrightarrow> chunkHashMatches sha c h \<Longrightarrow>
     idx_ok sha d (ix(h \<mapsto> loc))"
  unfolding idx_ok_def by (metis ServeChunk_other fun_upd_other)

lemma index_chunks_ok:
  assumes "list_all2 (chunkHashMatches sha) chunks hs" "layout fsize cs (int (length pre)) chunks"
    and "d p = Some (pre @ concat chunks)" "idx_ok sha d ix"
  shows "idx_ok sha d (index_chunks p fsize cs (int (length pre)) hs ix) \<and>
    dom (index_chunks p fsize cs (int (length pre)) hs ix) = dom ix \<union> set hs"
  using assms
proof (induction hs arbitrary: chunks pre ix rule: list.induct)
  case (Cons h hs)
  from Cons.prems(1) obtain c rest where c: "chunks = c # rest" "chunkHashMatches sha c h"
    "list_all2 (chunkHashMatches sha) rest hs" by (auto simp: list_all2_Cons2)
  define loc where "loc = \<lparr>loc_path = p, loc_offset = int (length pre), loc_size = int (length c)\<rparr>"
  have "ServeChunk (ix(h \<mapsto> loc)) d h = Some (Some c)"
    using Cons.prems(3) by (simp add: ServeChunk_def loc_def c)
  with Cons.prems(4) c(2) have ix: "idx_ok sha d (ix(h \<mapsto> loc))" by (intro idx_ok_upd)
  have sz: "(if fsize - int (length pre) < cs then fsize - int (length pre) else cs) = int (length c)"
    and lay: "layout fsize cs (int (length (pre @ c))) rest" using Cons.prems(2) c(1) by auto
  have step: "index_chunks p fsize cs (int (length pre)) (h # hs) ix =
    index_chunks p fsize cs (int (length (pre @ c))) hs (ix(h \<mapsto> loc))"
    unfolding index_chunks.simps Let_def sz by (simp add: loc_def)
  have "d p = Some ((pre @ c) @ concat rest)" using Cons.prems(3) c(1) by simp
  from Cons.IH [OF c(3) lay this ix] show ?case
    unfolding step by (simp only: dom_fun_upd option.simps if_False list.set) blast
qed simp

lemma buildChunkIndex_ok:
  assumes "\<forall>f \<in> set files. \<exists>chunks. d (absf (cf_Path f)) = Some (concat chunks) \<and>
      list_all2 (chunkHashMatches sha) chunks (cf_ChunkHashes f) \<and> layout (cf_Size f) (cf_ChunkSize f) 0 chunks"
    and "idx_ok sha d ix"
  shows "idx_ok sha d (fold (\<lambda>f. index_chunks (absf (cf_Path f)) (cf_Size f) (cf_ChunkSize f) 0 (cf_ChunkHashes f)) files ix) \<and>
    dom (fold (\<lambda>f. index_chunks (absf (cf_Path f)) (cf_Size f) (cf_ChunkSize f) 0 (cf_ChunkHashes f)) files ix) =
      dom ix \<union> (\<Union>f \<in> set files. set (cf_ChunkHashes f))"
  using assms
proof (induction files arbitrary: ix)
  case (Cons f files)
  then obtain chunks where ch: "d (absf (cf_Path f)) = Some (concat chunks)"
    "list_all2 (chunkHashMatches sha) chunks (cf_ChunkHashes f)" "layout (cf_Size f) (cf_ChunkSize f) 0 chunks"
    by auto
  let ?ix = "index_chunks (absf (cf_Path f)) (cf_Size f) (cf_ChunkSize f) 0 (cf_ChunkHashes f) ix"
  have "idx_ok sha d ?ix \<and> dom ?ix = dom ix \<union> set (cf_ChunkHashes f)"
    using index_chunks_ok [OF ch(2), of "cf_Size f" "cf_ChunkSize f" "[]" d "absf (cf_Path f)" ix] ch Cons.prems(2)
    by simp
  with Cons.IH [of ?ix] Cons.prems(1) show ?case by auto
qed simp

section \<open>Properties\<close>

lemma file_map_Some: "file_map fs p = Some f \<Longrightarrow> f \<in> set fs \<and> cf_Path f = p"
  by (auto simp: file_map_def dest: map_of_SomeD)

lemma mirror_sync_complete:
  assumes "sr_complete (mirror_sync absf parse fetch io supd supd_end raw sm state d)"
  shows "sync_files absf fetch io supd (file_map (loadPrevFileList parse state)) 0 (scm_Files sm) True
      (delete_files absf io (\<lambda>p. p \<in> cf_Path ` set (scm_Files sm)) (map cf_Path (loadPrevFileList parse state)) d) =
    (Some True, sr_disk (mirror_sync absf parse fetch io supd supd_end raw sm state d))"
  using assms by (auto simp: mirror_sync_def Let_def split: prod.splits option.splits if_splits)


definition sample_file :: contentFile where
  "sample_file = \<lparr>cf_Path = ''a.txt'', cf_Size = 1, cf_ChunkSize = 16, cf_ChunkHashes = [''ab'']\<rparr>"

definition sample_manifest :: "int \<Rightarrow> signedContentManifest" where
  "sample_manifest ts = \<lparr>scm_Type = ''content'', scm_TS = ts, scm_Files = [sample_file], scm_Sig = []\<rparr>"

definition io_fine :: mirror_io where
  "io_fine = \<lparr>io_write = (\<lambda>_. True), io_remove = (\<lambda>_. True), io_persist = True\<rparr>"

lemma sample_fetch: "fetchChunk id None (\<lambda>_ _. Inr None) (Some (\<lambda>_. Some [0xAB])) [] ''ab'' [] = (Inr [0xAB], [])"
  by code_simp

lemma sample_fetched: "\<exists>punchFn request relayFetch candidates pool pool'.
    fetchChunk id punchFn request relayFetch candidates ''ab'' pool = (Inr [0xAB], pool')"
  using sample_fetch by blast


text \<open>Property C27. What is served is what was announced. For files on disk that consist of the
  manifest's chunks, cut at the manifest's chunk size, the index built from the manifest serves every
  listed hash with data that hashes to it, reports every other hash as a miss, and never panics.\<close>

theorem served_chunks_verify:
  assumes "\<forall>f \<in> set files. \<exists>chunks. d (absf (cf_Path f)) = Some (concat chunks) \<and>
      list_all2 (chunkHashMatches sha) chunks (cf_ChunkHashes f) \<and> layout (cf_Size f) (cf_ChunkSize f) 0 chunks"
  shows "if h \<in> (\<Union>f \<in> set files. set (cf_ChunkHashes f))
    then \<exists>data. ServeChunk (buildChunkIndex absf files) d h = Some (Some data) \<and> chunkHashMatches sha data h
    else ServeChunk (buildChunkIndex absf files) d h = Some None"
proof -
  have "idx_ok sha d (buildChunkIndex absf files)"
    "dom (buildChunkIndex absf files) = (\<Union>f \<in> set files. set (cf_ChunkHashes f))"
    using buildChunkIndex_ok [of files d absf sha "\<lambda>_. None"] assms by (simp_all add: buildChunkIndex_def idx_ok_def)
  moreover have "ServeChunk ix d h = Some None" if "h \<notin> dom ix" for ix
    using that by (simp add: ServeChunk_def domIff)
  ultimately show ?thesis unfolding idx_ok_def by (metis domIff)
qed

theorem served_chunks_verify_witness:
  "\<exists>data. ServeChunk (buildChunkIndex id [sample_file]) [''a.txt'' \<mapsto> [0xAB]] ''ab'' = Some (Some data) \<and>
     chunkHashMatches id data ''ab''"
proof -
  have "chunkHashMatches id [0xAB] ''ab''" by code_simp
  then have "\<forall>f \<in> set [sample_file]. \<exists>chunks. [''a.txt'' \<mapsto> [0xAB]] (id (cf_Path f)) = Some (concat chunks) \<and>
      list_all2 (chunkHashMatches id) chunks (cf_ChunkHashes f) \<and> layout (cf_Size f) (cf_ChunkSize f) 0 chunks"
    by (auto simp: sample_file_def intro!: exI [of _ "[[0xAB]]"])
  then show ?thesis
    using served_chunks_verify [of "[sample_file]" "[''a.txt'' \<mapsto> [0xAB]]" id id "''ab''"] by (simp add: sample_file_def)
qed

text \<open>Property C37. A failed download is forgotten. The manifest is persisted even when a file could
  not be fetched; the next manifest that lists the file with the same chunks takes it for
  unchanged, skips it and announces completeness although the file was never written.\<close>

theorem failed_file_announced_complete:
  assumes "parse raw1 = Some sm1" "scm_Files sm1 = [f]" "scm_Files sm2 = [f]"
    and "cf_ChunkHashes f \<noteq> []" "io_persist io"
  shows "let r1 = mirror_sync absf parse (\<lambda>_ _. None) io (\<lambda>_. False) False raw1 sm1 None (\<lambda>_. None);
      r2 = mirror_sync absf parse fetch io (\<lambda>_. False) False raw2 sm2 (sr_state r1) (sr_disk r1) in
    \<not> sr_complete r1 \<and> sr_complete r2 \<and> sr_disk r2 (absf (cf_Path f)) = None"
proof -
  have "those (map (\<lambda>_. None :: bytes option) [0..<length (cf_ChunkHashes f)]) = None"
    using assms(4) by (simp add: upt_conv_Cons)
  then have none: "syncFile absf (\<lambda>_ _. None) io f d = None" for d by (simp add: syncFile_def)
  let ?r1 = "mirror_sync absf parse (\<lambda>_ _. None) io (\<lambda>_. False) False raw1 sm1 None (\<lambda>_. None)"
  have r1: "sr_state ?r1 = Some raw1" "sr_disk ?r1 = (\<lambda>_. None)" "\<not> sr_complete ?r1"
    using assms none by (simp_all add: mirror_sync_def loadPrevFileList_def file_map_def)
  show ?thesis
    unfolding Let_def r1(1,2) using r1(3) assms
    by (simp add: mirror_sync_def [of _ _ fetch] loadPrevFileList_def file_map_def)
qed

theorem failed_file_announced_complete_witness:
  "let r1 = mirror_sync id (\<lambda>_. Some (sample_manifest 1)) (\<lambda>_ _. None) io_fine (\<lambda>_. False) False [1] (sample_manifest 1) None (\<lambda>_. None);
      r2 = mirror_sync id (\<lambda>_. Some (sample_manifest 1)) (\<lambda>_ _. Some [0xAB]) io_fine (\<lambda>_. False) False [2] (sample_manifest 2) (sr_state r1) (sr_disk r1) in
    \<not> sr_complete r1 \<and> sr_complete r2 \<and> sr_disk r2 ''a.txt'' = None"
  using failed_file_announced_complete [of "\<lambda>_. Some (sample_manifest 1)" "[1]" "sample_manifest 1" sample_file
      "sample_manifest 2" io_fine id "\<lambda>_ _. Some [0xAB]" "[2]"]
  by (simp add: sample_manifest_def sample_file_def io_fine_def Let_def)

end
