(* ===== verification/CIDR_Set.thy ===== *)
theory CIDR_Set
  imports IP_Addr Kad_ID "HOL-Library.Log_Nat"
begin

text \<open>
  The set of networks of \<^verbatim>\<open>cidr.go\<close>: parsing into two sorted tables, and membership by binary
  search. An index out of range is a panic, the outer \<^term>\<open>None\<close>. \<^verbatim>\<open>sort.Slice\<close> leaves the order of
  equal keys open; the facts below concern tables whose entries with equal keys are equal, where all
  orders agree.
\<close>

record CIDRSet =
  starts4 :: "u32 list"
  masks4 :: "u32 list"
  starts6 :: "bytes list"
  masks6 :: "bytes list"

definition entry4 :: "IPNet \<Rightarrow> (u32 \<times> u32) option" where
  "entry4 n = (case To4 (net_IP n) of
     None \<Rightarrow> None
   | Some ip4 \<Rightarrow> if length (net_Mask n) \<noteq> 4 then None
      else Some (word_of_nat (be_val ip4), word_of_nat (be_val (net_Mask n))))"

definition entry6 :: "IPNet \<Rightarrow> (bytes \<times> bytes) option" where
  "entry6 n = (if entry4 n \<noteq> None then None
     else if length (net_IP n) = 16 \<and> length (net_Mask n) = 16 then Some (net_IP n, net_Mask n) else None)"

definition parsed_nets :: "string list \<Rightarrow> IPNet list" where
  "parsed_nets cidrs = List.map_filter ParseCIDR cidrs"

definition ParseCIDRs :: "string list \<Rightarrow> CIDRSet" where
  "ParseCIDRs cidrs =
     (let entries4 = sort_key fst (List.map_filter entry4 (parsed_nets cidrs));
          entries6 = sort_key (\<lambda>e. be_val (fst e)) (List.map_filter entry6 (parsed_nets cidrs)) in
      \<lparr>starts4 = map fst entries4, masks4 = map snd entries4,
       starts6 = map fst entries6, masks6 = map snd entries6\<rparr>)"

text \<open>The search loop of \<open>contains4\<close> and \<open>contains6\<close>: \<open>le s\<close> compares a start with the address.\<close>

function bsearch :: "('a \<Rightarrow> bool) \<Rightarrow> 'a list \<Rightarrow> int \<Rightarrow> int \<Rightarrow> int \<Rightarrow> int option" where
  "bsearch le starts lo hi ix =
     (if lo \<le> hi then
        (let mid = (lo + hi) div 2 in
         case (if mid < 0 then None else idx starts (nat mid)) of
           None \<Rightarrow> None
         | Some s \<Rightarrow> if le s then bsearch le starts (mid + 1) hi mid else bsearch le starts lo (mid - 1) ix)
      else Some ix)"
  by pat_completeness auto
termination by (relation "measure (\<lambda>(le, starts, lo, hi, ix). nat (hi - lo + 1))") auto

declare bsearch.simps [simp del]

text \<open>The same loop cut off after \<open>k\<close> rounds.\<close>

fun bsearch_within :: "nat \<Rightarrow> ('a \<Rightarrow> bool) \<Rightarrow> 'a list \<Rightarrow> int \<Rightarrow> int \<Rightarrow> int \<Rightarrow> int option option" where
  "bsearch_within 0 le starts lo hi ix = (if lo \<le> hi then None else Some (Some ix))"
| "bsearch_within (Suc k) le starts lo hi ix =
     (if lo \<le> hi then
        (let mid = (lo + hi) div 2 in
         case (if mid < 0 then None else idx starts (nat mid)) of
           None \<Rightarrow> Some None
         | Some s \<Rightarrow> if le s then bsearch_within k le starts (mid + 1) hi mid
                    else bsearch_within k le starts lo (mid - 1) ix)
      else Some (Some ix))"

definition contains4 :: "CIDRSet \<Rightarrow> bytes \<Rightarrow> bool option" where
  "contains4 s ip4 =
     (if starts4 s = [] then Some False
      else do {
        addr \<leftarrow> get_be32 ip4;
        i \<leftarrow> bsearch (\<lambda>x. x \<le> addr) (starts4 s) 0 (int (length (starts4 s)) - 1) (-1);
        if i < 0 then Some False
        else do {
          m \<leftarrow> idx (masks4 s) (nat i);
          st \<leftarrow> idx (starts4 s) (nat i);
          Some (addr AND m = st)
        }
      })"

definition contains6 :: "CIDRSet \<Rightarrow> bytes \<Rightarrow> bool option" where
  "contains6 s addr =
     (if starts6 s = [] then Some False
      else do {
        i \<leftarrow> bsearch (\<lambda>x. \<not> bytes_less addr x) (starts6 s) 0 (int (length (starts6 s)) - 1) (-1);
        if i < 0 then Some False
        else do {
          m \<leftarrow> idx (masks6 s) (nat i);
          st \<leftarrow> idx (starts6 s) (nat i);
          Some (list_all (\<lambda>j. (addr ! j) AND (m ! j) = st ! j) [0..<16])
        }
      })"

definition Contains :: "CIDRSet \<Rightarrow> ip \<Rightarrow> bool option" where
  "Contains s a = (case To4 a of
     Some ip4 \<Rightarrow> contains4 s ip4
   | None \<Rightarrow> if length a = 16 then contains6 s a else Some False)"

definition cidr_Len :: "CIDRSet \<Rightarrow> nat" where "cidr_Len s = length (starts4 s) + length (starts6 s)"

section \<open>The search loop\<close>

text \<open>For a predicate that holds of a prefix of the table, the loop returns the last index of that
  prefix. The invariant of the loop is \<open>ix = lo - 1\<close>, everything below \<open>lo\<close> is in the prefix and
  everything above \<open>hi\<close> is not.\<close>

lemma bsearch_correct:
  assumes "\<forall>i < length xs. le (xs ! i) \<longleftrightarrow> i < n" "n \<le> length xs"
    and "0 \<le> lo" "lo \<le> int n" "int n \<le> hi + 1" "hi < int (length xs)"
  shows "bsearch le xs lo hi (lo - 1) = Some (int n - 1)"
  using assms(3-)
proof (induction "nat (hi - lo + 1)" arbitrary: lo hi rule: less_induct)
  case less
  show ?case
  proof (cases "lo \<le> hi")
    case True
    define mid where "mid = (lo + hi) div 2"
    have b: "lo \<le> mid" "mid \<le> hi" using True by (simp_all add: mid_def)
    then have m: "0 \<le> mid" "nat mid < length xs" "\<not> mid < 0" using less.prems by linarith+
    have step: "bsearch le xs lo hi (lo - 1) =
      (if le (xs ! nat mid) then bsearch le xs (mid + 1) hi mid else bsearch le xs lo (mid - 1) (lo - 1))"
      using True m by (subst bsearch.simps) (simp add: Let_def flip: mid_def)
    have le: "le (xs ! nat mid) \<longleftrightarrow> mid < int n" using assms(1) m by (simp add: nat_less_iff)
    show ?thesis
    proof (cases "mid < int n")
      case True
      have "bsearch le xs (mid + 1) hi ((mid + 1) - 1) = Some (int n - 1)"
        by (rule less.hyps) (use True b less.prems in auto)
      with step le True show ?thesis by simp
    next
      case False
      have "bsearch le xs lo (mid - 1) (lo - 1) = Some (int n - 1)"
        by (rule less.hyps) (use False b less.prems in auto)
      with step le False show ?thesis by simp
    qed
  next
    case False
    then have "lo = int n" using less.prems by linarith
    with False show ?thesis by (subst bsearch.simps) simp
  qed
qed

text \<open>A round halves the interval.\<close>

lemma bsearch_within_enough:
  assumes "hi - lo + 1 < 2 ^ k"
  shows "bsearch_within k le xs lo hi ix = Some (bsearch le xs lo hi ix)"
  using assms
proof (induction k arbitrary: lo hi ix)
  case 0
  then show ?case by (subst bsearch.simps) simp
next
  case (Suc k)
  have "hi - ((lo + hi) div 2 + 1) + 1 < 2 ^ k" "((lo + hi) div 2 - 1) - lo + 1 < 2 ^ k"
    using Suc.prems by simp_all
  with Suc.IH show ?case by (subst bsearch.simps) (auto simp: Let_def split: option.splits)
qed

section \<open>Tables of networks\<close>

text \<open>What the search relies on: addresses are ordered by a key; a network covers its start, nothing
  below it, and an interval.\<close>

locale network_table =
  fixes key :: "'a \<Rightarrow> nat"
    and addr :: "'a \<Rightarrow> bool"
    and valid :: "'a \<times> 'm \<Rightarrow> bool"
    and covers :: "'a \<times> 'm \<Rightarrow> 'a \<Rightarrow> bool"
  assumes start_addr: "valid e \<Longrightarrow> addr (fst e)"
    and covers_start: "valid e \<Longrightarrow> covers e (fst e)"
    and covers_above: "valid e \<Longrightarrow> addr a \<Longrightarrow> covers e a \<Longrightarrow> key (fst e) \<le> key a"
    and covers_convex: "valid e \<Longrightarrow> addr a \<Longrightarrow> addr b \<Longrightarrow> covers e a \<Longrightarrow> key (fst e) \<le> key b \<Longrightarrow> key b \<le> key a \<Longrightarrow> covers e b"
begin

definition separate :: "('a \<times> 'm) list \<Rightarrow> bool" where
  "separate es \<longleftrightarrow> (\<forall>e \<in> set es. \<forall>e' \<in> set es. (\<exists>a. addr a \<and> covers e a \<and> covers e' a) \<longrightarrow> e = e')"

text \<open>Only the last entry that starts at or below the address can cover it.\<close>

lemma covered_by_last:
  assumes "separate es" "sorted (map (key \<circ> fst) es)" "\<forall>e \<in> set es. valid e" "addr a"
    and "length (takeWhile (\<lambda>e. key (fst e) \<le> key a) es) = Suc k"
  shows "(\<exists>e \<in> set es. covers e a) \<longleftrightarrow> covers (es ! k) a"
proof
  let ?p = "\<lambda>e. key (fst e) \<le> key a"
  have k: "k < length es" using assms(5) length_takeWhile_le [of ?p es] by simp
  then show "covers (es ! k) a \<Longrightarrow> \<exists>e \<in> set es. covers e a" by auto
  assume "\<exists>e \<in> set es. covers e a"
  then obtain i where i: "i < length es" "covers (es ! i) a" by (auto simp: in_set_conv_nth)
  have p: "?p (es ! i)" using i assms(3,4) covers_above by simp
  have "i \<le> k"
  proof (rule ccontr)
    assume "\<not> i \<le> k"
    then have "Suc k \<le> i" by simp
    moreover have "\<not> ?p (es ! Suc k)"
      using nth_length_takeWhile [of ?p es] assms(5) calculation i(1) by simp
    moreover have "key (fst (es ! Suc k)) \<le> key (fst (es ! i))"
      using sorted_nth_mono [OF assms(2) calculation(1)] i(1) calculation(1) by simp
    ultimately show False using p by simp
  qed
  have pk: "?p (es ! k)" using takeWhile_nth [of k ?p es] assms(5) set_takeWhileD [of "es ! k" ?p es]
    by (metis lessI nth_mem)
  have "key (fst (es ! i)) \<le> key (fst (es ! k))"
    using sorted_nth_mono [OF assms(2) \<open>i \<le> k\<close>] k \<open>i \<le> k\<close> by simp
  then have "covers (es ! i) (fst (es ! k))"
    using covers_convex [of "es ! i" a "fst (es ! k)"] i k pk assms(3,4) start_addr by simp
  moreover have "covers (es ! k) (fst (es ! k))" "addr (fst (es ! k))"
    using covers_start start_addr assms(3) k by simp_all
  ultimately have "es ! i = es ! k" using assms(1) i(1) k unfolding separate_def by (meson nth_mem)
  with i(2) show "covers (es ! k) a" by simp
qed

lemma covered_by_none:
  assumes "\<forall>e \<in> set es. valid e" "addr a" "sorted (map (key \<circ> fst) es)"
    and "takeWhile (\<lambda>e. key (fst e) \<le> key a) es = []"
  shows "\<not> (\<exists>e \<in> set es. covers e a)"
proof
  assume "\<exists>e \<in> set es. covers e a"
  then obtain e where e: "e \<in> set es" "key (fst e) \<le> key a" using assms(1,2) covers_above by blast
  then obtain x xs where es: "es = x # xs" by (cases es) auto
  then have "key (fst x) \<le> key (fst e)" using assms(3) e(1) by auto
  with e(2) assms(4) es show False by simp
qed

text \<open>Hence the search answers membership.\<close>

lemma search_correct:
  assumes "separate es" "sorted (map (key \<circ> fst) es)" "\<forall>e \<in> set es. valid e" "addr a"
    and le: "\<forall>e \<in> set es. le (fst e) \<longleftrightarrow> key (fst e) \<le> key a"
  obtains i where "bsearch le (map fst es) 0 (int (length es) - 1) (-1) = Some i" "i < int (length es)"
    and "(\<exists>e \<in> set es. covers e a) \<longleftrightarrow> 0 \<le> i \<and> covers (es ! nat i) a"
proof -
  let ?p = "\<lambda>e. key (fst e) \<le> key a"
  define n where "n = length (takeWhile ?p es)"
  have n: "n \<le> length es" by (simp add: n_def length_takeWhile_le)
  have "le (map fst es ! i) \<longleftrightarrow> i < n" if "i < length es" for i
  proof -
    have "?p (es ! i) \<longleftrightarrow> i < n"
    proof (cases "i < n")
      case True then show ?thesis using takeWhile_nth [of i ?p es] set_takeWhileD nth_mem unfolding n_def by metis
    next
      case False
      then have "\<not> ?p (es ! n)" "key (fst (es ! n)) \<le> key (fst (es ! i))"
        using nth_length_takeWhile [of ?p es] that sorted_nth_mono [OF assms(2), of n i] by (simp_all add: n_def)
      then show ?thesis using False by simp
    qed
    then show ?thesis using le that by simp
  qed
  then have "bsearch le (map fst es) 0 (int (length es) - 1) (0 - 1) = Some (int n - 1)"
    by (intro bsearch_correct) (use n in auto)
  moreover have "(\<exists>e \<in> set es. covers e a) \<longleftrightarrow> 0 \<le> int n - 1 \<and> covers (es ! nat (int n - 1)) a"
  proof (cases n)
    case 0
    then show ?thesis using covered_by_none [OF assms(3,4,2)] by (simp add: n_def)
  next
    case (Suc k)
    then show ?thesis using covered_by_last [OF assms(1-4), of k] by (simp add: n_def)
  qed
  ultimately show ?thesis using that [of "int n - 1"] n by simp
qed

end

section \<open>The two families\<close>

definition valid4 :: "u32 \<times> u32 \<Rightarrow> bool" where
  "valid4 e \<longleftrightarrow> (\<exists>k. snd e = NOT (mask k)) \<and> fst e AND snd e = fst e"

definition covers4 :: "u32 \<times> u32 \<Rightarrow> u32 \<Rightarrow> bool" where "covers4 e a \<longleftrightarrow> a AND snd e = fst e"

definition valid6 :: "bytes \<times> bytes \<Rightarrow> bool" where
  "valid6 e \<longleftrightarrow> length (fst e) = 16 \<and> (\<exists>k. snd e = CIDRMask 16 k) \<and> and_bytes (fst e) (snd e) = fst e"

definition covers6 :: "bytes \<times> bytes \<Rightarrow> bytes \<Rightarrow> bool" where "covers6 e a \<longleftrightarrow> and_bytes a (snd e) = fst e"

text \<open>Masking with a prefix mask keeps the high bits, which is monotone.\<close>

lemma high_bits_iff:
  fixes s a :: "'w :: len word"
  assumes "s AND NOT (mask k) = s"
  shows "a AND NOT (mask k) = s \<longleftrightarrow> drop_bit k a = drop_bit k s"
proof
  assume "a AND NOT (mask k) = s"
  then show "drop_bit k a = drop_bit k s" by (auto intro!: bit_eqI simp: bit_simps dest: bit_imp_le_length)
next
  assume d: "drop_bit k a = drop_bit k s"
  have "bit a n = bit s n" if "k \<le> n" for n
    using d that bit_drop_bit_eq [of k a] bit_drop_bit_eq [of k s] by (metis comp_apply le_add_diff_inverse)
  moreover have "\<not> bit s n" if "n < k" for n
    using that assms by (metis bit_and_iff bit_mask_iff bit_not_iff)
  ultimately show "a AND NOT (mask k) = s"
    by (intro bit_eqI) (auto simp: bit_simps not_le, metis not_le)
qed

lemma high_bits_convex:
  fixes a b :: "'w :: len word"
  assumes "unat (a AND NOT (mask k)) \<le> unat b" "unat b \<le> unat a"
  shows "b AND NOT (mask k) = a AND NOT (mask k)"
proof -
  let ?s = "a AND NOT (mask k)"
  have s: "?s AND NOT (mask k) = ?s" by (simp add: and.assoc)
  then have "drop_bit k a = drop_bit k ?s" using high_bits_iff [OF s, of a] by simp
  then have "unat a div 2 ^ k = unat ?s div 2 ^ k" by (metis drop_bit_eq_div unat_drop_bit_eq)
  moreover have "unat ?s div 2 ^ k \<le> unat b div 2 ^ k" "unat b div 2 ^ k \<le> unat a div 2 ^ k"
    using assms by (simp_all add: div_le_mono)
  ultimately have "unat (drop_bit k b) = unat (drop_bit k ?s)" by (simp only: unat_drop_bit_eq) (simp add: drop_bit_eq_div)
  then show ?thesis using high_bits_iff [OF s, of b] by (simp only: word_unat_eq_iff)
qed

lemma unat_and_le: "unat (a AND m :: 'w :: len word) \<le> unat a"
  by (simp add: word_and_le2 flip: word_le_nat_alt)

lemma and_bytes_le: "length a = length m \<Longrightarrow> be_val (and_bytes a m) \<le> be_val a"
  by (induction a m rule: list_induct2) (auto intro!: add_mono mult_mono unat_and_le)

lemma byte_FF: "(0xFF :: byte) = -1"
  by simp

lemma byte_and_FF [simp]: "x AND 0xFF = (x :: byte)"
  unfolding byte_FF by simp

lemma byte_and_NOT_FF: "x AND NOT 0xFF = (0 :: byte)"
  unfolding byte_FF by simp

lemma and_bytes_zero: "length a = l \<Longrightarrow> and_bytes a (CIDRMask l 0) = replicate l 0"
proof (induction l arbitrary: a)
  case (Suc l)
  then obtain x a' where "a = x # a'" "length a' = l" by (auto simp: length_Suc_conv)
  with Suc.IH byte_and_NOT_FF [of x] show ?case by simp
qed simp

lemma lex_head: "u * B + r \<le> v * B + r' \<Longrightarrow> r' < B \<Longrightarrow> u \<le> (v :: nat)"
  by (metis add_lessD1 leD le_imp_less_Suc mult_Suc not_less_eq_eq nat_add_left_cancel_less less_le_trans mult_le_mono1 add.commute)

lemma mask_byte: "n < 8 \<Longrightarrow> NOT (drop_bit n 0xFF) = (NOT (mask (8 - n)) :: byte)"
  unfolding byte_FF by (rule arg_cong [where f = NOT], rule bit_eqI) (auto simp: bit_simps)

lemma and_bytes_convex:
  "length a = l \<Longrightarrow> length b = l \<Longrightarrow> be_val (and_bytes a (CIDRMask l k)) \<le> be_val b \<Longrightarrow> be_val b \<le> be_val a \<Longrightarrow>
   and_bytes b (CIDRMask l k) = and_bytes a (CIDRMask l k)"
proof (induction l k arbitrary: a b rule: CIDRMask.induct)
  case (2 l n)
  obtain x a' y b' where ab: "a = x # a'" "b = y # b'" "length a' = l" "length b' = l"
    using 2(3,4) by (auto simp: length_Suc_conv)
  have bnd: "be_val b' < 256 ^ l" "be_val a' < 256 ^ l" using be_val_less ab by metis+
  have le: "unat y \<le> unat x" using 2(6) ab bnd lex_head [of "unat y" "256 ^ l"] by simp
  show ?case
  proof (cases "n \<ge> 8")
    case True
    then have "unat x \<le> unat y" using 2(5) ab bnd lex_head [of "unat x" "256 ^ l"] by simp
    with le have "x = y" by (simp add: word_unat_eq_iff)
    moreover have "be_val (and_bytes a' (CIDRMask l (n - 8))) \<le> be_val b'" "be_val b' \<le> be_val a'"
      using 2(5,6) ab True calculation by simp_all
    ultimately show ?thesis using 2(1) [OF True ab(3,4)] True ab by simp
  next
    case False
    then have "unat (x AND NOT (mask (8 - n))) \<le> unat y"
      using 2(5) ab bnd lex_head [of "unat (x AND NOT (mask (8 - n)))" "256 ^ l"] by (simp add: mask_byte)
    from high_bits_convex [OF this le] show ?thesis using False ab by (simp add: mask_byte and_bytes_zero)
  qed
qed simp

interpretation n4: network_table unat "\<lambda>_. True" valid4 covers4
proof
  fix e :: "u32 \<times> u32" and a b :: u32
  show "valid4 e \<Longrightarrow> covers4 e (fst e)" by (auto simp: valid4_def covers4_def)
  show "covers4 e a \<Longrightarrow> unat (fst e) \<le> unat a" using unat_and_le [of a "snd e"] by (auto simp: covers4_def)
  show "valid4 e \<Longrightarrow> covers4 e a \<Longrightarrow> unat (fst e) \<le> unat b \<Longrightarrow> unat b \<le> unat a \<Longrightarrow> covers4 e b"
    using high_bits_convex [of a _ b] by (auto simp: valid4_def covers4_def)
qed simp_all

interpretation n6: network_table be_val "\<lambda>a. length a = 16" valid6 covers6
proof
  fix e :: "bytes \<times> bytes" and a b :: bytes
  show "valid6 e \<Longrightarrow> length (fst e) = 16" "valid6 e \<Longrightarrow> covers6 e (fst e)" by (auto simp: valid6_def covers6_def)
  show "valid6 e \<Longrightarrow> length a = 16 \<Longrightarrow> covers6 e a \<Longrightarrow> be_val (fst e) \<le> be_val a"
    using and_bytes_le [of a "snd e"] by (auto simp: valid6_def covers6_def)
  show "valid6 e \<Longrightarrow> length a = 16 \<Longrightarrow> length b = 16 \<Longrightarrow> covers6 e a \<Longrightarrow> be_val (fst e) \<le> be_val b \<Longrightarrow>
      be_val b \<le> be_val a \<Longrightarrow> covers6 e b"
    using and_bytes_convex [of a 16 b] by (auto simp: valid6_def covers6_def)
qed

section \<open>From parsed networks to table entries\<close>

lemma unat_NOT_mask: "k \<le> 8 \<Longrightarrow> 0 < k \<Longrightarrow> unat (NOT (mask k) :: byte) + 2 ^ k = 256"
proof -
  assume that: "k \<le> 8" "0 < k"
  have "k = 1 \<or> k = 2 \<or> k = 3 \<or> k = 4 \<or> k = 5 \<or> k = 6 \<or> k = 7 \<or> k = 8" using that by arith
  then show ?thesis by (elim disjE) (simp_all add: mask_eq_exp_minus_1)
qed

lemma be_val_zero: "be_val (CIDRMask l 0) = 0"
  by (induction l) simp_all

lemma be_val_CIDRMask: "k \<le> 8 * l \<Longrightarrow> be_val (CIDRMask l k) + 2 ^ (8 * l - k) = 256 ^ l"
proof (induction l k rule: CIDRMask.induct)
  case (2 l n)
  show ?case
  proof (cases "n \<ge> 8")
    case True
    then have "8 * Suc l - n = 8 * l - (n - 8)" by simp
    then show ?thesis using 2 True by simp
  next
    case False
    then have e: "8 * Suc l - n = (8 - n) + 8 * l" by simp
    have "(2 :: nat) ^ (8 * Suc l - n) = 2 ^ (8 - n) * 256 ^ l"
      unfolding e power_add power_mult by simp
    then show ?thesis using False unat_NOT_mask [of "8 - n"] add_mult_distrib [of "unat (NOT (mask (8 - n)) :: byte)" "2 ^ (8 - n)" "256 ^ l"]
      by (simp add: mask_byte be_val_zero)
  qed
qed simp

lemma mask32: "k \<le> 32 \<Longrightarrow> word_of_nat (be_val (CIDRMask 4 k)) = (NOT (mask (32 - k)) :: u32)"
proof -
  assume k: "k \<le> 32"
  have "(word_of_nat (be_val (CIDRMask 4 k) + 2 ^ (32 - k)) :: u32) = word_of_nat (2 ^ 32)"
    using be_val_CIDRMask [of k 4] k by simp
  then have "(word_of_nat (be_val (CIDRMask 4 k)) :: u32) + 2 ^ (32 - k) = 0" by simp
  then have "(word_of_nat (be_val (CIDRMask 4 k)) :: u32) = - (2 ^ (32 - k))" by (simp add: eq_neg_iff_add_eq_0)
  then show ?thesis by (simp add: not_eq_complement mask_eq_exp_minus_1)
qed

lemma nat_and_block:
  assumes "u < 256" "v < (256 :: nat)"
  shows "(x * 256 + u) AND (y * 256 + v) = (x AND y) * 256 + (u AND v)"
proof -
  let ?A = "x * 256 + u" and ?B = "y * 256 + v"
  have "(?A AND ?B) div 2 ^ 8 = x AND y" "(?A AND ?B) mod 2 ^ 8 = u AND v"
    using assms drop_bit_and [of 8 ?A ?B] take_bit_and [of 8 ?A ?B] by (simp_all add: drop_bit_eq_div take_bit_eq_mod)
  then show ?thesis using div_mult_mod_eq [of "?A AND ?B" "2 ^ 8"] by simp
qed

lemma be_val_and: "length a = length m \<Longrightarrow> be_val (and_bytes a m) = be_val a AND be_val m"
proof (induction a arbitrary: m rule: rev_induct)
  case (snoc x a)
  then obtain m' y where m: "m = m' @ [y]" "length a = length m'" by (cases m rule: rev_cases) auto
  have "and_bytes (a @ [x]) (m' @ [y]) = and_bytes a m' @ [x AND y]" using m by (simp add: and_bytes_def)
  then show ?case using snoc.IH [OF m(2)] m by (simp add: nat_and_block unsigned_and_eq)
qed simp

lemma be_val_inj: "length a = length b \<Longrightarrow> be_val a = be_val b \<longleftrightarrow> a = b"
  by (metis be_bytes_be_val)

definition net_covers :: "IPNet \<Rightarrow> bytes \<Rightarrow> bool" where
  "net_covers n x \<longleftrightarrow> length x = length (net_Mask n) \<and> and_bytes x (net_Mask n) = net_IP n"

text \<open>The form in which an address is looked up: four bytes for an IPv4 address.\<close>

definition lookup_form :: "ip \<Rightarrow> bytes" where "lookup_form a = (case To4 a of Some x \<Rightarrow> x | None \<Rightarrow> a)"

lemma entry4_iff: "wf_net n \<Longrightarrow> entry4 n = Some e \<longleftrightarrow>
    length (net_Mask n) = 4 \<and> e = (word_of_nat (be_val (net_IP n)), word_of_nat (be_val (net_Mask n)))"
  by (auto simp: wf_net_def entry4_def To4_def)

lemma entry6_iff: "wf_net n \<Longrightarrow> entry6 n = Some e \<longleftrightarrow> length (net_Mask n) = 16 \<and> e = (net_IP n, net_Mask n)"
  by (auto simp: wf_net_def entry6_def entry4_def To4_def)

lemma be_val_32: "length a = 4 \<Longrightarrow> unat (word_of_nat (be_val a) :: u32) = be_val a"
  using be_val_less [of a] by simp

lemma word32_eq: "length a = 4 \<Longrightarrow> length b = 4 \<Longrightarrow> (word_of_nat (be_val a) :: u32) = word_of_nat (be_val b) \<longleftrightarrow> a = b"
  by (metis be_val_32 be_val_inj)

lemma entry4_covers:
  assumes "wf_net n" "entry4 n = Some e" "length x = 4"
  shows "covers4 e (word_of_nat (be_val x)) \<longleftrightarrow> net_covers n x"
proof -
  have l: "length (net_Mask n) = 4" "length (net_IP n) = 4" using assms by (auto simp: entry4_iff wf_net_def)
  then have "word_of_nat (be_val (and_bytes x (net_Mask n))) =
      (word_of_nat (be_val x) AND word_of_nat (be_val (net_Mask n)) :: u32)"
    using assms(3) by (simp add: be_val_and of_nat_and_eq)
  then show ?thesis using assms l word32_eq [of "and_bytes x (net_Mask n)" "net_IP n"]
    by (simp add: entry4_iff covers4_def net_covers_def)
qed

lemma entry4_valid:
  assumes "wf_net n" "entry4 n = Some e"
  shows "valid4 e"
proof -
  have l: "length (net_Mask n) = 4" "length (net_IP n) = 4" using assms by (auto simp: entry4_iff wf_net_def)
  then obtain k where k: "k \<le> 32" "net_Mask n = CIDRMask 4 k" "and_bytes (net_IP n) (net_Mask n) = net_IP n"
    using assms(1) by (auto simp: wf_net_def)
  have "covers4 e (fst e)" using entry4_covers [OF assms l(2)] k(3) l assms by (simp add: entry4_iff net_covers_def)
  then show ?thesis using mask32 [OF k(1)] assms k(2) by (auto simp: entry4_iff valid4_def covers4_def)
qed

lemma entry6_valid: "wf_net n \<Longrightarrow> entry6 n = Some e \<Longrightarrow> valid6 e"
  by (auto simp: entry6_iff valid6_def wf_net_def)

lemma entry6_covers: "wf_net n \<Longrightarrow> entry6 n = Some e \<Longrightarrow> length x = 16 \<Longrightarrow> covers6 e x \<longleftrightarrow> net_covers n x"
  by (auto simp: entry6_iff covers6_def net_covers_def)

lemma parsed_nets_wf: "n \<in> set (parsed_nets cidrs) \<Longrightarrow> wf_net n"
  by (auto simp: parsed_nets_def in_set_map_filter intro: ParseCIDR_wf)

text \<open>The networks a list describes do not overlap, up to repetition.\<close>

definition non_overlapping :: "IPNet list \<Rightarrow> bool" where
  "non_overlapping ns \<longleftrightarrow> (\<forall>n \<in> set ns. \<forall>n' \<in> set ns. (\<exists>x. net_covers n x \<and> net_covers n' x) \<longrightarrow> n = n')"

lemma word32_bytes: "\<exists>x. length x = 4 \<and> (a :: u32) = word_of_nat (be_val x)"
  using get_put_be32 [of a "[]"] get_be32_Some [of "put_be32 a"] by (intro exI [of _ "put_be32 a"]) simp

lemma separate4:
  assumes "non_overlapping ns" "\<forall>n \<in> set ns. wf_net n"
  shows "n4.separate (List.map_filter entry4 ns)"
  unfolding n4.separate_def
proof (intro ballI impI)
  fix e e' assume e: "e \<in> set (List.map_filter entry4 ns)" "e' \<in> set (List.map_filter entry4 ns)"
    and "\<exists>a. True \<and> covers4 e a \<and> covers4 e' a"
  then obtain n n' a where n: "n \<in> set ns" "n' \<in> set ns" "entry4 n = Some e" "entry4 n' = Some e'"
    and a: "covers4 e a" "covers4 e' a" by (auto simp: in_set_map_filter)
  obtain x where "length x = 4" "a = word_of_nat (be_val x)" using word32_bytes by blast
  then have "net_covers n x" "net_covers n' x" using entry4_covers a n assms(2) by blast+
  then have "n = n'" using assms(1) n unfolding non_overlapping_def by blast
  with n show "e = e'" by simp
qed

lemma separate6:
  assumes "non_overlapping ns" "\<forall>n \<in> set ns. wf_net n"
  shows "n6.separate (List.map_filter entry6 ns)"
  unfolding n6.separate_def
proof (intro ballI impI)
  fix e e' assume e: "e \<in> set (List.map_filter entry6 ns)" "e' \<in> set (List.map_filter entry6 ns)"
    and "\<exists>a. length a = 16 \<and> covers6 e a \<and> covers6 e' a"
  then obtain n n' a where n: "n \<in> set ns" "n' \<in> set ns" "entry6 n = Some e" "entry6 n' = Some e'"
    and a: "length a = 16" "covers6 e a" "covers6 e' a" by (auto simp: in_set_map_filter)
  then have "net_covers n a" "net_covers n' a" using entry6_covers assms(2) by blast+
  then have "n = n'" using assms(1) n unfolding non_overlapping_def by blast
  with n show "e = e'" by simp
qed

lemma ball_map_filter: "(\<forall>x \<in> set (List.map_filter f xs). P x) \<longleftrightarrow> (\<forall>y \<in> set xs. \<forall>x. f y = Some x \<longrightarrow> P x)"
  by (auto simp: in_set_map_filter)

lemma bex_map_filter: "(\<exists>x \<in> set (List.map_filter f xs). P x) \<longleftrightarrow> (\<exists>y \<in> set xs. \<exists>x. f y = Some x \<and> P x)"
  unfolding Bex_def in_set_map_filter by blast

lemma n4_separate_set: "set es = set es' \<Longrightarrow> n4.separate es = n4.separate es'"
  by (simp add: n4.separate_def)

lemma n6_separate_set: "set es = set es' \<Longrightarrow> n6.separate es = n6.separate es'"
  by (simp add: n6.separate_def)

lemma contains4_correct:
  assumes "non_overlapping ns" "\<forall>n \<in> set ns. wf_net n" "length x = 4"
    and es: "es = sort_key fst (List.map_filter entry4 ns)" "starts4 s = map fst es" "masks4 s = map snd es"
  shows "contains4 s x = Some (\<exists>n \<in> set ns. net_covers n x)"
proof -
  let ?a = "word_of_nat (be_val x) :: u32"
  have set: "set es = set (List.map_filter entry4 ns)" by (simp add: es(1))
  have v: "\<forall>e \<in> set es. valid4 e" using assms(2) entry4_valid unfolding set ball_map_filter by blast
  have "sorted (map fst es)" by (simp add: es(1))
  then have srt: "sorted (map (unat \<circ> fst) es)" by (simp add: sorted_iff_nth_mono word_le_nat_alt)
  have sep: "n4.separate es" using separate4 [OF assms(1,2)] n4_separate_set [OF set] by simp
  obtain i where i: "bsearch (\<lambda>y. y \<le> ?a) (map fst es) 0 (int (length es) - 1) (-1) = Some i" "i < int (length es)"
    and c: "(\<exists>e \<in> set es. covers4 e ?a) \<longleftrightarrow> 0 \<le> i \<and> covers4 (es ! nat i) ?a"
    using n4.search_correct [OF sep srt v TrueI, of "\<lambda>y. y \<le> ?a" ?a] by (auto simp: word_le_nat_alt)
  have covered: "(\<exists>e \<in> set es. covers4 e ?a) \<longleftrightarrow> (\<exists>n \<in> set ns. net_covers n x)"
  proof -
    have "\<exists>e. entry4 n = Some e" if "n \<in> set ns" "net_covers n x" for n
      using that assms(2,3) entry4_iff by (auto simp: net_covers_def)
    moreover have "covers4 e ?a \<longleftrightarrow> net_covers n x" if "n \<in> set ns" "entry4 n = Some e" for n e
      using that entry4_covers assms(2,3) by blast
    ultimately show ?thesis unfolding set bex_map_filter by blast
  qed
  show ?thesis
  proof (cases "es = []")
    case True then show ?thesis using covered es by (simp add: contains4_def)
  next
    case False
    then show ?thesis
      using i c covered es(2,3) assms(3) by (auto simp: contains4_def get_be32_Some covers4_def not_less nat_less_iff)
  qed
qed

lemma and_bytes_nth:
  assumes "length a = 16" "length m = 16" "length st = 16"
  shows "list_all (\<lambda>j. (a ! j) AND (m ! j) = st ! j) [0..<16] \<longleftrightarrow> and_bytes a m = st"
  using assms by (auto simp: list_all_iff list_eq_iff_nth_eq and_bytes_def)

lemma contains6_correct:
  assumes "non_overlapping ns" "\<forall>n \<in> set ns. wf_net n" "length x = 16"
    and es: "es = sort_key (\<lambda>e. be_val (fst e)) (List.map_filter entry6 ns)" "starts6 s = map fst es" "masks6 s = map snd es"
  shows "contains6 s x = Some (\<exists>n \<in> set ns. net_covers n x)"
proof -
  have set: "set es = set (List.map_filter entry6 ns)" by (simp add: es(1))
  have v: "\<forall>e \<in> set es. valid6 e" using assms(2) entry6_valid unfolding set ball_map_filter by blast
  have srt: "sorted (map (be_val \<circ> fst) es)"
    using sorted_sort_key [of "\<lambda>e. be_val (fst e)" "List.map_filter entry6 ns"] by (simp add: es(1) comp_def)
  have sep: "n6.separate es" using separate6 [OF assms(1,2)] n6_separate_set [OF set] by simp
  have le: "\<forall>e \<in> set es. (\<not> bytes_less x (fst e)) \<longleftrightarrow> be_val (fst e) \<le> be_val x"
    using v assms(3) by (simp add: bytes_less_iff valid6_def not_less)
  obtain i where i: "bsearch (\<lambda>y. \<not> bytes_less x y) (map fst es) 0 (int (length es) - 1) (-1) = Some i" "i < int (length es)"
    and c: "(\<exists>e \<in> set es. covers6 e x) \<longleftrightarrow> 0 \<le> i \<and> covers6 (es ! nat i) x"
    using n6.search_correct [OF sep srt v assms(3) le] by blast
  have covered: "(\<exists>e \<in> set es. covers6 e x) \<longleftrightarrow> (\<exists>n \<in> set ns. net_covers n x)"
  proof -
    have "\<exists>e. entry6 n = Some e" if "n \<in> set ns" "net_covers n x" for n
      using that assms(2,3) entry6_iff by (auto simp: net_covers_def)
    moreover have "covers6 e x \<longleftrightarrow> net_covers n x" if "n \<in> set ns" "entry6 n = Some e" for n e
      using that entry6_covers assms(2,3) by blast
    ultimately show ?thesis unfolding set bex_map_filter by blast
  qed
  have nth: "list_all (\<lambda>j. (x ! j) AND (snd (es ! k) ! j) = fst (es ! k) ! j) [0..<16] \<longleftrightarrow> covers6 (es ! k) x"
    if "k < length es" for k
  proof -
    have "valid6 (es ! k)" using v that by simp
    then have "length (snd (es ! k)) = 16" "length (fst (es ! k)) = 16" by (auto simp: valid6_def)
    then show ?thesis using and_bytes_nth assms(3) by (simp add: covers6_def)
  qed
  show ?thesis
  proof (cases "es = []")
    case True then show ?thesis using covered es by (simp add: contains6_def)
  next
    case False
    then show ?thesis
      using i c covered es(2,3) nth [of "nat i"] by (auto simp: contains6_def not_less nat_less_iff)
  qed
qed

lemma bsearch_in_range:
  "0 \<le> lo \<Longrightarrow> hi < int (length xs) \<Longrightarrow> -1 \<le> ix \<Longrightarrow> ix < int (length xs) \<Longrightarrow>
   \<exists>i. bsearch le xs lo hi ix = Some i \<and> -1 \<le> i \<and> i < int (length xs)"
proof (induction le xs lo hi ix rule: bsearch.induct)
  case (1 le xs lo hi ix)
  show ?case
  proof (cases "lo \<le> hi")
    case True
    define mid where "mid = (lo + hi) div 2"
    have m: "lo \<le> mid" "mid \<le> hi" "\<not> mid < 0" "nat mid < length xs" using True "1.prems" by (auto simp: mid_def)
    have "bsearch le xs lo hi ix =
      (if le (xs ! nat mid) then bsearch le xs (mid + 1) hi mid else bsearch le xs lo (mid - 1) ix)"
      using True m by (subst bsearch.simps) (simp add: Let_def flip: mid_def)
    moreover have "\<exists>i. bsearch le xs (mid + 1) hi mid = Some i \<and> -1 \<le> i \<and> i < int (length xs)" if "le (xs ! nat mid)"
      using "1.IH"(1) [OF True mid_def, of "xs ! nat mid"] m "1.prems" that by auto
    moreover have "\<exists>i. bsearch le xs lo (mid - 1) ix = Some i \<and> -1 \<le> i \<and> i < int (length xs)" if "\<not> le (xs ! nat mid)"
      using "1.IH"(2) [OF True mid_def, of "xs ! nat mid"] m "1.prems" that by auto
    ultimately show ?thesis by presburger
  next
    case False
    then show ?thesis using "1.prems" by (subst bsearch.simps) simp
  qed
qed

text \<open>Without any assumption on overlaps the search returns, and what it accepts is covered.\<close>

lemma contains4_sound:
  assumes "\<forall>n \<in> set ns. wf_net n" "length x = 4"
    and es: "set es = set (List.map_filter entry4 ns)" "starts4 s = map fst es" "masks4 s = map snd es"
  shows "\<exists>b. contains4 s x = Some b \<and> (b \<longrightarrow> (\<exists>n \<in> set ns. net_covers n x))"
proof (cases "es = []")
  case False
  let ?a = "word_of_nat (be_val x) :: u32"
  obtain i where i: "bsearch (\<lambda>y. y \<le> ?a) (map fst es) 0 (int (length es) - 1) (-1) = Some i" "i < int (length es)"
    using False bsearch_in_range [of 0 "int (length es) - 1" "map fst es" "-1" "\<lambda>y. y \<le> ?a"] by auto
  have acc: "\<exists>n \<in> set ns. net_covers n x" if "k < length es" "?a AND snd (es ! k) = fst (es ! k)" for k
  proof -
    have "es ! k \<in> set es" using that by simp
    then obtain n where "n \<in> set ns" "entry4 n = Some (es ! k)" unfolding es(1) by (auto simp: in_set_map_filter)
    then show ?thesis using that(2) entry4_covers [of n "es ! k" x] assms(1,2) by (auto simp: covers4_def)
  qed
  show ?thesis using i es(2,3) assms(2) False acc [of "nat i"]
    by (auto simp: contains4_def get_be32_Some not_less nat_less_iff)
qed (auto simp: contains4_def es)

lemma contains6_sound:
  assumes "\<forall>n \<in> set ns. wf_net n" "length x = 16"
    and es: "set es = set (List.map_filter entry6 ns)" "starts6 s = map fst es" "masks6 s = map snd es"
  shows "\<exists>b. contains6 s x = Some b \<and> (b \<longrightarrow> (\<exists>n \<in> set ns. net_covers n x))"
proof (cases "es = []")
  case False
  obtain i where i: "bsearch (\<lambda>y. \<not> bytes_less x y) (map fst es) 0 (int (length es) - 1) (-1) = Some i" "i < int (length es)"
    using False bsearch_in_range [of 0 "int (length es) - 1" "map fst es" "-1" "\<lambda>y. \<not> bytes_less x y"] by auto
  have acc: "\<exists>n \<in> set ns. net_covers n x"
    if k: "k < length es" "list_all (\<lambda>j. (x ! j) AND (snd (es ! k) ! j) = fst (es ! k) ! j) [0..<16]" for k
  proof -
    have "es ! k \<in> set es" using k by simp
    then obtain n where n: "n \<in> set ns" "entry6 n = Some (es ! k)" unfolding es(1) by (auto simp: in_set_map_filter)
    then have "valid6 (es ! k)" using entry6_valid assms(1) by blast
    then have "covers6 (es ! k) x" using k(2) and_bytes_nth assms(2) by (auto simp: covers6_def valid6_def)
    then show ?thesis using n entry6_covers [of n "es ! k" x] assms(1,2) by auto
  qed
  show ?thesis using i es(2,3) False acc [of "nat i"]
    by (auto simp: contains6_def not_less nat_less_iff)
qed (auto simp: contains6_def es)

lemma Contains_sound:
  "\<exists>b. Contains (ParseCIDRs cidrs) a = Some b \<and> (b \<longrightarrow> (\<exists>n \<in> set (parsed_nets cidrs). net_covers n (lookup_form a)))"
proof -
  have wf: "\<forall>n \<in> set (parsed_nets cidrs). wf_net n" using parsed_nets_wf by blast
  show ?thesis
  proof (cases "To4 a")
    case None
    show ?thesis
    proof (cases "length a = 16")
      case True
      from contains6_sound [OF wf True, of "sort_key (\<lambda>e. be_val (fst e)) (List.map_filter entry6 (parsed_nets cidrs))" "ParseCIDRs cidrs"]
      show ?thesis using None True by (simp add: Contains_def lookup_form_def ParseCIDRs_def Let_def)
    qed (auto simp: Contains_def None)
  next
    case (Some x)
    then have "length x = 4" by (auto simp: To4_def split: if_splits)
    from contains4_sound [OF wf this, of "sort_key fst (List.map_filter entry4 (parsed_nets cidrs))" "ParseCIDRs cidrs"]
    show ?thesis using Some by (simp add: Contains_def lookup_form_def ParseCIDRs_def Let_def)
  qed
qed

section \<open>Properties\<close>

text \<open>Property C18. For networks that do not overlap, membership by binary search is membership in one
  of the networks: for every address, in either family and also for malformed lengths, \<open>Contains\<close>
  answers whether some parsed network covers it.\<close>

theorem Contains_correct:
  assumes "non_overlapping (parsed_nets cidrs)"
  shows "Contains (ParseCIDRs cidrs) a = Some (\<exists>n \<in> set (parsed_nets cidrs). net_covers n (lookup_form a))"
proof -
  have wf: "\<forall>n \<in> set (parsed_nets cidrs). wf_net n" using parsed_nets_wf by blast
  show ?thesis
  proof (cases "To4 a")
    case None
    have "\<not> net_covers n a" if "n \<in> set (parsed_nets cidrs)" "length a \<noteq> 16" for n
      using None that wf by (auto simp: net_covers_def wf_net_def To4_def)
    then show ?thesis
      using None contains6_correct [OF assms wf, of a, OF _ refl, of "ParseCIDRs cidrs"]
      by (auto simp: Contains_def lookup_form_def ParseCIDRs_def Let_def)
  next
    case (Some x)
    then have "length x = 4" by (auto simp: To4_def split: if_splits)
    with Some contains4_correct [OF assms wf, of x, OF _ refl, of "ParseCIDRs cidrs"] show ?thesis
      by (simp add: Contains_def lookup_form_def ParseCIDRs_def Let_def)
  qed
qed

lemma sample_nets: "parsed_nets [''10.0.0.0/8'', ''x'', ''192.168.0.0/16''] =
    [\<lparr>net_IP = [10, 0, 0, 0], net_Mask = [0xFF, 0, 0, 0]\<rparr>, \<lparr>net_IP = [192, 168, 0, 0], net_Mask = [0xFF, 0xFF, 0, 0]\<rparr>]"
  by code_simp

theorem Contains_correct_witness:
  "Contains (ParseCIDRs [''10.0.0.0/8'', ''x'', ''192.168.0.0/16'']) [10, 1, 2, 3] = Some True"
proof -
  have "non_overlapping (parsed_nets [''10.0.0.0/8'', ''x'', ''192.168.0.0/16''])"
    unfolding sample_nets non_overlapping_def net_covers_def by (auto simp: length_Suc_conv)
  from Contains_correct [OF this, of "[10, 1, 2, 3]"] show ?thesis
    unfolding sample_nets by (simp add: net_covers_def lookup_form_def To4_def)
qed

text \<open>The search loop ends: on every table, sorted or not, and for every comparison, it
  returns after at most \<open>floorlog 2 n\<close> rounds, never reads outside the table, and yields an index
  between \<open>-1\<close> and \<open>n - 1\<close>.\<close>

lemma search_bounded:
  "\<exists>i. bsearch_within (floorlog 2 (length xs)) le xs 0 (int (length xs) - 1) (-1) = Some (Some i) \<and>
     bsearch le xs 0 (int (length xs) - 1) (-1) = Some i \<and> -1 \<le> i \<and> i < int (length xs)"
proof -
  have "length xs < 2 ^ floorlog 2 (length xs)" using floorlog_leD [of 2 "length xs" "floorlog 2 (length xs)"] by simp
  then have "int (length xs) < int (2 ^ floorlog 2 (length xs))" by (simp only: of_nat_less_iff)
  then have "(int (length xs) - 1) - 0 + 1 < 2 ^ floorlog 2 (length xs)" by simp
  note within = bsearch_within_enough [OF this]
  obtain i where "bsearch le xs 0 (int (length xs) - 1) (-1) = Some i" "-1 \<le> i" "i < int (length xs)"
    using bsearch_in_range [of 0 "int (length xs) - 1" xs "-1" le] by auto
  then show ?thesis using within [of le xs "-1"] by simp
qed

end
