(* ===== verification/Ring_Buffer.thy ===== *)
theory Ring_Buffer
  imports Frame_Codec
begin

text \<open>
  The circular log buffer of \<^verbatim>\<open>log_upload.go\<close>, the refinement of ``the last \<open>n\<close> bytes written'' by it,
  and the decision and request of \<open>LogUploader.upload\<close>.
\<close>

record ringBuffer =
  rb_buf :: bytes
  rb_pos :: nat
  rb_full :: bool

definition newRingBuffer :: "nat \<Rightarrow> ringBuffer" where
  "newRingBuffer n = \<lparr>rb_buf = new_buf n, rb_pos = 0, rb_full = False\<rparr>"

text \<open>\<open>Write\<close>; the remainder by a capacity of zero cannot be reached, since then \<open>n \<ge> cap\<close>.\<close>

definition rb_Write :: "bytes \<Rightarrow> ringBuffer \<Rightarrow> ringBuffer" where
  "rb_Write p rb =
     (let n = length p; cap = length (rb_buf rb) in
      if n \<ge> cap then rb\<lparr>rb_buf := copy_at (rb_buf rb) 0 (drop (n - cap) p), rb_pos := 0, rb_full := True\<rparr>
      else
        (let fin = rb_pos rb + n;
             rb' = (if fin \<le> cap then rb\<lparr>rb_buf := copy_at (rb_buf rb) (rb_pos rb) p\<rparr>
                    else (let first = cap - rb_pos rb;
                              b1 = copy_at (rb_buf rb) (rb_pos rb) (take first p) in
                          rb\<lparr>rb_buf := copy_at b1 0 (drop first p), rb_full := True\<rparr>)) in
         rb'\<lparr>rb_pos := fin mod cap\<rparr>))"

definition Snapshot :: "ringBuffer \<Rightarrow> bytes" where
  "Snapshot rb =
     (let cap = length (rb_buf rb) in
      if \<not> rb_full rb then copy_at (new_buf (rb_pos rb)) 0 (take (rb_pos rb) (rb_buf rb))
      else copy_at (copy_at (new_buf cap) 0 (drop (rb_pos rb) (rb_buf rb))) (cap - rb_pos rb) (take (rb_pos rb) (rb_buf rb)))"

text \<open>One upload: nothing for an empty buffer, otherwise a POST of the compressed snapshot (\<open>gzip\<close> is
  the compressor, \<^term>\<open>None\<close> its error).\<close>

record upload_request =
  up_url :: string
  up_headers :: "(string \<times> string) list"
  up_body :: bytes

fun TrimRight_slash :: "string \<Rightarrow> string" where
  "TrimRight_slash s = rev (dropWhile (\<lambda>c. c = CHR ''/'') (rev s))"

definition upload :: "(bytes \<Rightarrow> bytes option) \<Rightarrow> string \<Rightarrow> string \<Rightarrow> string \<Rightarrow> string \<Rightarrow> ringBuffer \<Rightarrow> upload_request option" where
  "upload gzip srvURL nodeID token version ring =
     (let snap = Snapshot ring in
      if snap = [] then None
      else (case gzip snap of
          None \<Rightarrow> None
        | Some gz \<Rightarrow> Some \<lparr>up_url = TrimRight_slash srvURL @ ''/p/v1/log/upload'',
            up_headers = [(''Content-Encoding'', ''gzip''), (''Content-Type'', ''application/octet-stream''),
              (''X-Session'', token), (''X-Node-ID'', nodeID), (''X-Node-Type'', ''windows''), (''X-SNC-Version'', version)],
            up_body = gz\<rparr>))"

section \<open>Refinement\<close>

definition last_n :: "nat \<Rightarrow> 'a list \<Rightarrow> 'a list" where "last_n n xs = drop (length xs - n) xs"

lemma length_last_n [simp]: "length (last_n n xs) = min n (length xs)"
  by (simp add: last_n_def)

lemma last_n_all: "length xs \<le> n \<Longrightarrow> last_n n xs = xs"
  by (simp add: last_n_def)

text \<open>The position is inside the buffer; the abstraction is the snapshot, which has this plain form.\<close>

definition rb_wf :: "ringBuffer \<Rightarrow> bool" where "rb_wf rb \<longleftrightarrow> rb_pos rb < length (rb_buf rb)"

lemma Snapshot_wf:
  assumes "rb_wf rb"
  shows "Snapshot rb = (if rb_full rb then drop (rb_pos rb) (rb_buf rb) @ take (rb_pos rb) (rb_buf rb)
                        else take (rb_pos rb) (rb_buf rb))"
  using assms by (simp add: Snapshot_def rb_wf_def Let_def codec_simps)

lemma Write_large:
  assumes "rb_wf rb" "length (rb_buf rb) \<le> length p"
  shows "rb_wf (rb_Write p rb) \<and> rb_full (rb_Write p rb) \<and> length (rb_buf (rb_Write p rb)) = length (rb_buf rb) \<and>
    Snapshot (rb_Write p rb) = last_n (length (rb_buf rb)) p"
proof -
  have "rb_wf (rb_Write p rb)" using assms by (auto simp: rb_Write_def rb_wf_def Let_def)
  then show ?thesis using assms Snapshot_wf
    by (auto simp: rb_Write_def rb_wf_def Let_def last_n_def copy_at_def)
qed

lemma Write_small:
  assumes "rb_wf rb" "length p < length (rb_buf rb)"
  shows "rb_wf (rb_Write p rb) \<and> length (rb_buf (rb_Write p rb)) = length (rb_buf rb) \<and>
    rb_full (rb_Write p rb) = (rb_full rb \<or> length (rb_buf rb) < rb_pos rb + length p) \<and>
    Snapshot (rb_Write p rb) =
      (if rb_full rb \<or> length (rb_buf rb) < rb_pos rb + length p then last_n (length (rb_buf rb)) (Snapshot rb @ p)
       else if rb_pos rb + length p = length (rb_buf rb) then []
       else Snapshot rb @ p)"
proof -
  define A B where "A = take (rb_pos rb) (rb_buf rb)" and "B = drop (rb_pos rb) (rb_buf rb)"
  have AB: "rb_buf rb = A @ B" "rb_pos rb = length A" "B \<noteq> []"
    using assms(1) by (auto simp: A_def B_def rb_wf_def)
  show ?thesis
  proof (cases "length p \<le> length B")
    case True
    then show ?thesis using assms AB
      by (auto simp: rb_Write_def rb_wf_def Let_def copy_at_def last_n_def Snapshot_wf mod_if)
  next
    case False
    define p1 p2 where "p1 = take (length B) p" and "p2 = drop (length B) p"
    have p: "p = p1 @ p2" "length p1 = length B" "length p2 < length A" using False assms AB by (auto simp: p1_def p2_def)
    show ?thesis using assms AB p False
      by (auto simp: rb_Write_def rb_wf_def Let_def copy_at_def last_n_def Snapshot_wf mod_if)
  qed
qed

lemma new_wf: "0 < cap \<Longrightarrow> rb_wf (newRingBuffer cap)"
  by (simp add: newRingBuffer_def rb_wf_def new_buf_def)

text \<open>The simulation: below capacity the buffer holds the history, from then on its last bytes.\<close>

definition rb_refines :: "nat \<Rightarrow> ringBuffer \<Rightarrow> bytes \<Rightarrow> bool" where
  "rb_refines cap rb h \<longleftrightarrow> rb_wf rb \<and> length (rb_buf rb) = cap \<and> (rb_full rb \<longleftrightarrow> cap \<le> length h) \<and> Snapshot rb = last_n cap h"

lemma new_refines: "0 < cap \<Longrightarrow> rb_refines cap (newRingBuffer cap) []"
  using new_wf Snapshot_wf [OF new_wf] by (simp add: rb_refines_def newRingBuffer_def new_buf_def last_n_def)

lemma Write_refines:
  assumes "rb_refines cap rb h" "length h < cap \<Longrightarrow> length p < cap \<Longrightarrow> length h + length p \<noteq> cap"
  shows "rb_refines cap (rb_Write p rb) (h @ p)"
proof (cases "cap \<le> length p")
  case True
  with assms(1) Write_large [of rb p] show ?thesis by (auto simp: rb_refines_def last_n_def)
next
  case False
  have pos: "length h < cap \<Longrightarrow> rb_pos rb = length h"
    using assms(1) arg_cong [OF Snapshot_wf, of rb length] by (auto simp: rb_refines_def rb_wf_def)
  have tail: "last_n cap (last_n cap h @ p) = last_n cap (h @ p)" if "cap \<le> length h" using that by (simp add: last_n_def add.commute)
  have whole: "last_n cap h = h" if "length h < cap" using that by (simp add: last_n_def)
  show ?thesis
    using False assms Write_small [of rb p] pos tail whole
    by (cases "length h < cap") (auto simp: rb_refines_def last_n_all)
qed

definition exact_fill :: "nat \<Rightarrow> bytes list \<Rightarrow> bool" where
  "exact_fill cap ps \<longleftrightarrow> length (concat ps) = cap \<and> (\<forall>p \<in> set ps. length p < cap)"

lemma length_le_concat: "q \<in> set ps \<Longrightarrow> length q \<le> length (concat ps)"
  by (induction ps) auto

lemma writes_refine:
  assumes "0 < cap" "\<forall>k \<le> length ps. \<not> exact_fill cap (take k ps)"
  shows "rb_refines cap (fold rb_Write ps (newRingBuffer cap)) (concat ps)"
  using assms(2)
proof (induction ps rule: rev_induct)
  case Nil
  show ?case using new_refines [OF assms(1)] by simp
next
  case (snoc p ps)
  have "\<not> exact_fill cap (take k ps)" if "k \<le> length ps" for k
    using snoc.prems [rule_format, of k] that by simp
  then have "rb_refines cap (fold rb_Write ps (newRingBuffer cap)) (concat ps)" using snoc.IH by blast
  moreover have "length (concat ps) + length p \<noteq> cap" if "length (concat ps) < cap" "length p < cap"
  proof
    assume c: "length (concat ps) + length p = cap"
    have "length q < cap" if "q \<in> set ps" for q
      using length_le_concat [OF that] \<open>length (concat ps) < cap\<close> by simp
    then have "exact_fill cap (ps @ [p])" using c \<open>length p < cap\<close> by (simp add: exact_fill_def)
    with snoc.prems [rule_format, of "Suc (length ps)"] show False by simp
  qed
  ultimately show ?case using Write_refines by simp
qed

section \<open>Properties\<close>

text \<open>Property C19. The buffer refines ``the last \<open>cap\<close> bytes written'': after any sequence of writes its
  snapshot is exactly that, as long as no run of smaller writes ever reaches the capacity to the byte.\<close>

theorem ring_keeps_tail:
  assumes "0 < cap" "\<forall>k \<le> length ps. \<not> exact_fill cap (take k ps)"
  shows "Snapshot (fold rb_Write ps (newRingBuffer cap)) = last_n cap (concat ps)"
  using writes_refine [OF assms] by (simp add: rb_refines_def)

theorem ring_keeps_tail_witness:
  "Snapshot (fold rb_Write [[1, 2, 3], [4, 5], [6]] (newRingBuffer 4)) = [3, 4, 5, 6]"
proof -
  have "\<forall>k \<le> length [[1, 2, 3], [4, 5], [6 :: byte]]. \<not> exact_fill 4 (take k [[1, 2, 3], [4, 5], [6]])"
    by (auto simp: le_Suc_eq numeral_eq_Suc exact_fill_def)
  from ring_keeps_tail [OF _ this] show ?thesis by (simp add: last_n_def)
qed

text \<open>A buffer filled to the byte by smaller writes reads as empty: the flag \<open>full\<close> is only
  set on overrun, so the snapshot loses the whole log and no upload is made.\<close>

lemma ring_exact_fill_empties:
  assumes "0 < cap" "exact_fill cap (ps @ [p])" "p \<noteq> []"
  shows "Snapshot (fold rb_Write (ps @ [p]) (newRingBuffer cap)) = [] \<and>
    upload gzip srvURL nodeID token version (fold rb_Write (ps @ [p]) (newRingBuffer cap)) = None"
proof -
  have lt: "length (concat ps) < cap" "length p < cap" "length (concat ps) + length p = cap"
    using assms by (auto simp: exact_fill_def)
  have "length (concat (take k ps)) \<le> length (concat ps)" for k
    by (metis append_take_drop_id concat_append length_append le_add1)
  then have "\<forall>k \<le> length ps. \<not> exact_fill cap (take k ps)" using lt unfolding exact_fill_def by (metis leD)
  from writes_refine [OF assms(1) this] have r: "rb_refines cap (fold rb_Write ps (newRingBuffer cap)) (concat ps)" .
  let ?rb = "fold rb_Write ps (newRingBuffer cap)"
  have "\<not> rb_full ?rb" "rb_pos ?rb = length (concat ps)" "rb_wf ?rb" "length (rb_buf ?rb) = cap"
    using r lt arg_cong [OF Snapshot_wf, of ?rb length] by (auto simp: rb_refines_def rb_wf_def)
  then have "Snapshot (rb_Write p ?rb) = []" using Write_small [of ?rb p] lt by simp
  then show ?thesis by (simp add: upload_def)
qed

end
