(* ===== verification/Tunnel_Frames.thy ===== *)
theory Tunnel_Frames
  imports Frame_Codec DHT_Wire
begin

text \<open>
  The encrypted frames of the tunnel (\<^verbatim>\<open>tunnel.go\<close>): upload and stream-open plaintexts, padded
  responses, the length-prefixed frames of a streaming response and the datagram batches.
  ChaCha20-Poly1305 under a key is the pair \<open>sealk key nonce plain\<close>, \<open>openk key nonce ciphertext\<close>;
  \<open>blake\<close> is BLAKE2b-256. Nonces and padding are arguments. The outer \<^typ>\<open>'a option\<close> is a panic.
\<close>

definition minPadding :: nat where "minPadding = 512"
definition frameTypeUpload :: byte where "frameTypeUpload = 0x00"
definition frameTypeStreamOpen :: byte where "frameTypeStreamOpen = 0x01"
definition KeySize :: nat where "KeySize = 32"

type_synonym keyed_seal = "bytes \<Rightarrow> aead_seal"
type_synonym keyed_open = "bytes \<Rightarrow> aead_open"

datatype frame_error = BadKey | FrameTooShort | FrameAuth | UnexpectedType | TargetOverflow | DlenTooLarge |
  StreamFrameTooLarge | SrcEOF | BatchTooShort | BatchTruncated

definition sessionKey :: "(bytes \<Rightarrow> bytes) \<Rightarrow> string \<Rightarrow> bytes" where
  "sessionKey blake token = blake (to_bytes token)"

definition sealFrame :: "keyed_seal \<Rightarrow> bytes \<Rightarrow> bytes \<Rightarrow> bytes \<Rightarrow> bytes option" where
  "sealFrame sealk key nonce plaintext =
     (if length key \<noteq> KeySize then None else Some (nonce @ sealk key nonce plaintext))"

definition openFrame :: "keyed_open \<Rightarrow> bytes \<Rightarrow> bytes \<Rightarrow> (frame_error + bytes) option" where
  "openFrame openk key data =
     (if length key \<noteq> KeySize then Some (Inl BadKey)
      else if length data < NonceSize then Some (Inl FrameTooShort)
      else do {
        nonce \<leftarrow> slice data 0 NonceSize;
        ct \<leftarrow> slice_from data NonceSize;
        Some (case openk key nonce ct of None \<Rightarrow> Inl FrameAuth | Some p \<Rightarrow> Inr p) })"

section \<open>Frame builders and parsers\<close>

definition buildUploadPlain :: "string \<Rightarrow> u32 \<Rightarrow> string \<Rightarrow> bytes \<Rightarrow> bytes option" where
  "buildUploadPlain connIDHex seq target payload = do {
     let tgt = to_bytes target;
     let buf = new_buf (1 + 16 + 4 + 2 + length tgt + length payload);
     buf \<leftarrow> put_at buf 0 [frameTypeUpload];
     let buf = (case hex_decode connIDHex of Some b \<Rightarrow> copy_at buf 1 b | None \<Rightarrow> buf);
     buf \<leftarrow> put_at buf 17 (put_be32 seq);
     buf \<leftarrow> put_at buf 21 (put_be16 (word_of_nat (length tgt)));
     let buf = copy_at buf 23 tgt;
     Some (copy_at buf (23 + length tgt) payload) }"

definition buildStreamOpenPlain :: "string \<Rightarrow> bytes option" where
  "buildStreamOpenPlain connIDHex = do {
     let buf = new_buf (1 + 16);
     buf \<leftarrow> put_at buf 0 [frameTypeStreamOpen];
     Some (case hex_decode connIDHex of Some b \<Rightarrow> copy_at buf 1 b | None \<Rightarrow> buf) }"

definition parseUploadFrame :: "bytes \<Rightarrow> (frame_error + string \<times> u32 \<times> string \<times> bytes) option" where
  "parseUploadFrame plain =
     (if length plain < 1 + 16 + 4 + 2 then Some (Inl FrameTooShort)
      else do {
        t \<leftarrow> idx plain 0;
        if t \<noteq> frameTypeUpload then Some (Inl UnexpectedType)
        else do {
          c \<leftarrow> slice plain 1 17;
          s \<leftarrow> slice plain 17 21;
          seq \<leftarrow> get_be32 s;
          l \<leftarrow> slice plain 21 23;
          tl \<leftarrow> get_be16 l;
          let tgtLen = unat tl;
          if tgtLen > length plain - 23 then Some (Inl TargetOverflow)
          else do {
            target \<leftarrow> slice plain 23 (23 + tgtLen);
            payload \<leftarrow> slice_from plain (23 + tgtLen);
            Some (Inr (hex_encode c, seq, of_bytes target, payload)) } } })"

text \<open>The response of a server, padded with \<open>rnd\<close>, and its parser; an empty body is no data.\<close>

definition buildUploadResponse :: "keyed_seal \<Rightarrow> bytes \<Rightarrow> bytes \<Rightarrow> bytes \<Rightarrow> bytes \<Rightarrow> bytes option option" where
  "buildUploadResponse sealk key data rnd nonce = do {
     let dlen = length data;
     let padLen = (if dlen > minPadding then dlen else minPadding);
     let plain = new_buf (4 + padLen);
     plain \<leftarrow> put_at plain 0 (put_be32 (word_of_nat dlen));
     let plain = copy_at plain 4 data;
     let plain = (if dlen < padLen then copy_at plain (4 + dlen) (take (padLen - dlen) rnd) else plain);
     Some (sealFrame sealk key nonce plain) }"

definition parseResponse :: "keyed_open \<Rightarrow> bytes \<Rightarrow> bytes \<Rightarrow> (frame_error + bytes) option" where
  "parseResponse openk key body =
     (if body = [] then Some (Inr [])
      else do {
        r \<leftarrow> openFrame openk key body;
        case r of
          Inl e \<Rightarrow> Some (Inl e)
        | Inr plain \<Rightarrow>
            if length plain < 4 then Some (Inl FrameTooShort)
            else do {
              h \<leftarrow> slice plain 0 4;
              d \<leftarrow> get_be32 h;
              let dlen = unat d;
              if dlen = 0 then Some (Inr [])
              else if dlen > length plain - 4 then Some (Inl DlenTooLarge)
              else do {
                data \<leftarrow> slice plain 4 (4 + dlen);
                Some (Inr data) } } })"

section \<open>Streaming decryption\<close>

text \<open>The reader over a source that delivers the bytes \<open>fr_src\<close> and then ends; a short read consumes
  what is left. \<open>Read\<close> with a buffer of \<open>n\<close> bytes.\<close>

record framedDecryptReader =
  fr_src :: bytes
  fr_key :: bytes
  fr_buf :: bytes

definition newFramedDecryptReader :: "bytes \<Rightarrow> bytes \<Rightarrow> framedDecryptReader" where
  "newFramedDecryptReader src key = \<lparr>fr_src = src, fr_key = key, fr_buf = []\<rparr>"

definition maxStreamFrame :: nat where "maxStreamFrame = 2 ^ 20"

definition fr_Read :: "keyed_open \<Rightarrow> nat \<Rightarrow> framedDecryptReader \<Rightarrow> ((frame_error + bytes) \<times> framedDecryptReader) option" where
  "fr_Read openk n r =
     (if fr_buf r \<noteq> [] then Some (Inr (take n (fr_buf r)), r\<lparr>fr_buf := drop n (fr_buf r)\<rparr>)
      else if length (fr_src r) < 4 then Some (Inl SrcEOF, r\<lparr>fr_src := []\<rparr>)
      else do {
        lw \<leftarrow> get_be32 (take 4 (fr_src r));
        let frameLen = unat lw;
        let rest = drop 4 (fr_src r);
        if frameLen > maxStreamFrame then Some (Inl StreamFrameTooLarge, r\<lparr>fr_src := rest\<rparr>)
        else if length rest < frameLen then Some (Inl SrcEOF, r\<lparr>fr_src := []\<rparr>)
        else do {
          let r' = r\<lparr>fr_src := drop frameLen rest\<rparr>;
          p \<leftarrow> openFrame openk (fr_key r) (take frameLen rest);
          case p of
            Inl e \<Rightarrow> Some (Inl e, r')
          | Inr plain \<Rightarrow> Some (Inr (take n plain), r'\<lparr>fr_buf := drop n plain\<rparr>) } })"

section \<open>Datagram batches\<close>

fun batch_frames :: "nat \<Rightarrow> bytes \<Rightarrow> nat \<Rightarrow> bytes list \<Rightarrow> (frame_error + bytes list) option" where
  "batch_frames 0 data off frames = Some (Inr frames)"
| "batch_frames (Suc n) data off frames =
     (if off + 4 > length data then Some (Inl BatchTruncated)
      else do {
        d \<leftarrow> slice_from data off;
        l \<leftarrow> get_be32 d;
        let flen = unat l;
        if off + 4 + flen > length data then Some (Inl BatchTruncated)
        else do {
          f \<leftarrow> slice data (off + 4) (off + 4 + flen);
          batch_frames n data (off + 4 + flen) (frames @ [f]) } })"

definition decodeDatagramBatch :: "bytes \<Rightarrow> (frame_error + bytes list) option" where
  "decodeDatagramBatch data =
     (if data = [] then Some (Inr [])
      else if length data < 4 then Some (Inl BatchTooShort)
      else do {
        h \<leftarrow> slice data 0 4;
        n \<leftarrow> get_be32 h;
        batch_frames (unat n) data 4 [] })"

section \<open>Host of a URL\<close>

definition TrimPrefix :: "string \<Rightarrow> string \<Rightarrow> string" where
  "TrimPrefix s p = (if take (length p) s = p then drop (length p) s else s)"

definition hostOf :: "string \<Rightarrow> string" where
  "hostOf serverURL =
     (let s = TrimPrefix (TrimPrefix serverURL ''https://'') ''http://'' in
      case first_index CHR ''/'' s of Some i \<Rightarrow> take i s | None \<Rightarrow> s)"

section \<open>No input panics\<close>

lemma openFrame_total [panic_free]: "returns (openFrame openk key data)"
  unfolding openFrame_def by (intro returns_intros) auto

lemma parseUploadFrame_total [panic_free]: "returns (parseUploadFrame plain)"
  unfolding parseUploadFrame_def by (intro returns_intros) (auto dest!: slice_lengths)

lemma returns_case_sum [returns_intros]:
  "(\<And>e. s = Inl e \<Longrightarrow> returns (f e)) \<Longrightarrow> (\<And>x. s = Inr x \<Longrightarrow> returns (g x)) \<Longrightarrow> returns (case s of Inl e \<Rightarrow> f e | Inr x \<Rightarrow> g x)"
  by (cases s) auto

lemma parseResponse_total [panic_free]: "returns (parseResponse openk key body)"
  unfolding parseResponse_def by (intro returns_intros panic_free) (auto dest!: slice_lengths)

lemma fr_Read_total [panic_free]: "returns (fr_Read openk n r)"
  unfolding fr_Read_def by (intro returns_intros panic_free) auto

lemma batch_frames_total [panic_free]: "returns (batch_frames n data off frames)"
  by (induction n arbitrary: off frames) (auto intro!: returns_intros dest!: slice_lengths)

lemma decodeDatagramBatch_total [panic_free]: "returns (decodeDatagramBatch data)"
  unfolding decodeDatagramBatch_def by (intro returns_intros panic_free) (auto dest!: slice_lengths)

section \<open>Round trips\<close>

lemma openFrame_seal:
  "aead (sealk key) (openk key) \<Longrightarrow> length key = KeySize \<Longrightarrow> length nonce = NonceSize \<Longrightarrow>
   sealFrame sealk key nonce plain = Some f \<Longrightarrow> openFrame openk key f = Some (Inr plain)"
  by (auto simp: sealFrame_def openFrame_def aead_def)

lemma buildUploadPlain_layout:
  assumes "length c = 16"
  shows "buildUploadPlain (hex_encode c) seq target payload =
    Some ([frameTypeUpload] @ c @ put_be32 seq @ put_be16 (word_of_nat (length target)) @ to_bytes target @ payload)"
  using assms by (simp add: buildUploadPlain_def codec_simps)

lemma parse_buildUpload:
  assumes "length c = 16" "length target < 65536" "buildUploadPlain (hex_encode c) seq target payload = Some bs"
  shows "parseUploadFrame bs = Some (Inr (hex_encode c, seq, target, payload))"
proof -
  have bs: "bs = [frameTypeUpload] @ c @ put_be32 seq @ put_be16 (word_of_nat (length target)) @ to_bytes target @ payload"
    using assms(3) by (simp add: buildUploadPlain_layout [OF assms(1)])
  show ?thesis unfolding parseUploadFrame_def bs using assms(1,2) 
    by (simp add: Let_def drop_Cons' take_Cons' get_put_be32 [where bs = "[]", simplified] get_put_be16 [where bs = "[]", simplified])
qed

lemma parse_buildResponse:
  assumes "aead (sealk key) (openk key)" "length key = KeySize" "length nonce = NonceSize"
    and "length data < 4294967296" "minPadding \<le> length rnd + length data"
  shows "\<exists>bs. buildUploadResponse sealk key data rnd nonce = Some (Some bs) \<and>
    parseResponse openk key bs = Some (Inr data)"
proof -
  define pad where "pad = (if length data < minPadding then take (minPadding - length data) rnd else [])"
  define plain where "plain = put_be32 (word_of_nat (length data)) @ data @ pad"
  have b: "buildUploadResponse sealk key data rnd nonce = Some (sealFrame sealk key nonce plain)"
    using assms(5) by (simp add: buildUploadResponse_def codec_simps plain_def pad_def Let_def)
  obtain bs where bs: "sealFrame sealk key nonce plain = Some bs" "bs \<noteq> []"
    using assms(2,3) by (cases nonce) (auto simp: sealFrame_def NonceSize_def)
  note op = openFrame_seal [where sealk = sealk and openk = openk, OF assms(1-3) bs(1)]
  have "parseResponse openk key bs = Some (Inr data)"
    unfolding parseResponse_def using bs(2) op assms(4)
    by (simp add: plain_def Let_def get_put_be32 [where bs = "[]", simplified])
  with b bs(1) show ?thesis by simp
qed

text \<open>The streaming side of a server: each frame is preceded by its length.\<close>

definition stream_frame :: "keyed_seal \<Rightarrow> bytes \<Rightarrow> bytes \<times> bytes \<Rightarrow> bytes" where
  "stream_frame sealk key f = (let enc = fst f @ sealk key (fst f) (snd f) in put_be32 (word_of_nat (length enc)) @ enc)"

definition frame_fits :: "bytes \<times> bytes \<Rightarrow> bool" where
  "frame_fits f \<longleftrightarrow> length (fst f) = NonceSize \<and> NonceSize + length (snd f) + aead_Overhead \<le> maxStreamFrame"

lemma fr_Read_frame:
  assumes "aead (sealk key) (openk key)" "length key = KeySize" "frame_fits f"
    and "fr_key r = key" "fr_buf r = []" "fr_src r = stream_frame sealk key f @ rest"
  shows "fr_Read openk n r = Some (Inr (take n (snd f)), r\<lparr>fr_src := rest, fr_buf := drop n (snd f)\<rparr>)"
proof -
  define enc where "enc = fst f @ sealk key (fst f) (snd f)"
  have l: "length enc \<le> maxStreamFrame" using assms(1,3) by (simp add: aead_def frame_fits_def enc_def)
  then have u: "unat (word_of_nat (length enc) :: u32) = length enc"
    by (intro unat_word_of_nat32) (simp add: maxStreamFrame_def)
  have o: "openFrame openk key enc = Some (Inr (snd f))"
    using openFrame_seal [of sealk key openk "fst f" "snd f" enc] assms(1-3)
    by (simp add: sealFrame_def frame_fits_def enc_def)
  have src: "fr_src r = put_be32 (word_of_nat (length enc)) @ enc @ rest"
    using assms(6) by (simp add: stream_frame_def Let_def enc_def)
  show ?thesis
    unfolding fr_Read_def src using assms(4,5) l u o
    by (simp add: Let_def get_put_be32 [where bs = "[]", simplified])
qed

text \<open>A sequence of reads with the given buffer sizes: the bytes delivered and the error that ended it.\<close>

fun fr_reads :: "keyed_open \<Rightarrow> nat list \<Rightarrow> framedDecryptReader \<Rightarrow> (bytes \<times> frame_error option) option" where
  "fr_reads openk [] r = Some ([], None)"
| "fr_reads openk (n # ns) r = do {
     (res, r') \<leftarrow> fr_Read openk n r;
     case res of
       Inl e \<Rightarrow> Some ([], Some e)
     | Inr out \<Rightarrow> do {
         (outs, e) \<leftarrow> fr_reads openk ns r';
         Some (out @ outs, e) } }"

lemma read_rest: "drop n b @ x = out @ rest \<Longrightarrow> b @ x = take n b @ out @ rest"
  by (metis append.assoc append_take_drop_id)

lemma fr_reads_stream:
  assumes "aead (sealk key) (openk key)" "length key = KeySize"
    and "fr_key r = key" "fr_src r = concat (map (stream_frame sealk key) fs)" "\<forall>f \<in> set fs. frame_fits f"
  shows "\<exists>out e. fr_reads openk ns r = Some (out, e) \<and>
    (\<exists>rest. fr_buf r @ concat (map snd fs) = out @ rest \<and>
      (e = None \<or> (e = Some SrcEOF \<and> rest = [])) \<and>
      (0 \<notin> set ns \<and> length (fr_buf r) + length (concat (map snd fs)) + length fs < length ns \<longrightarrow> e = Some SrcEOF))"
  using assms(3-5)
proof (induction ns arbitrary: r fs)
  case Nil
  then show ?case by simp
next
  case (Cons n ns)
  consider (buf) "fr_buf r \<noteq> []" | (eof) "fr_buf r = []" "fs = []" | (frame) f fs' where "fr_buf r = []" "fs = f # fs'"
    by (cases fs) auto
  then show ?case
  proof cases
    case buf
    let ?r = "r\<lparr>fr_buf := drop n (fr_buf r)\<rparr>"
    obtain out e rest where ih: "fr_reads openk ns ?r = Some (out, e)" "fr_buf ?r @ concat (map snd fs) = out @ rest"
      "e = None \<or> (e = Some SrcEOF \<and> rest = [])"
      "0 \<notin> set ns \<and> length (fr_buf ?r) + length (concat (map snd fs)) + length fs < length ns \<longrightarrow> e = Some SrcEOF"
      using Cons.IH [of ?r fs] Cons.prems by auto
    have "fr_buf r @ concat (map snd fs) = (take n (fr_buf r) @ out) @ rest"
      using read_rest [of n "fr_buf r"] ih(2) by simp
    moreover have "length (fr_buf r) - n + c + d < m" if "0 < n" "length (fr_buf r) + c + d < Suc m" for c d m
      using buf that by (cases "fr_buf r") auto
    ultimately show ?thesis using ih buf
      by (intro exI [of _ "take n (fr_buf r) @ out"] exI [of _ e]) (auto simp: fr_Read_def intro!: exI [of _ rest])
  next
    case eof
    then show ?thesis using Cons.prems by (simp add: fr_Read_def)
  next
    case frame
    let ?r = "r\<lparr>fr_src := concat (map (stream_frame sealk key) fs'), fr_buf := drop n (snd f)\<rparr>"
    have rd: "fr_Read openk n r = Some (Inr (take n (snd f)), ?r)"
      using fr_Read_frame [of sealk key openk f r] assms(1,2) frame Cons.prems by simp
    obtain out e rest where ih: "fr_reads openk ns ?r = Some (out, e)" "fr_buf ?r @ concat (map snd fs') = out @ rest"
      "e = None \<or> (e = Some SrcEOF \<and> rest = [])"
      "0 \<notin> set ns \<and> length (fr_buf ?r) + length (concat (map snd fs')) + length fs' < length ns \<longrightarrow> e = Some SrcEOF"
      using Cons.IH [of ?r fs'] Cons.prems frame by auto
    have "snd f @ concat (map snd fs') = take n (snd f) @ out @ rest"
      using read_rest [of n "snd f"] ih(2) by simp
    note eq = this
    show ?thesis
    proof (intro exI conjI impI)
      show "fr_reads openk (n # ns) r = Some (take n (snd f) @ out, e)" using rd ih(1) by simp
      show "fr_buf r @ concat (map snd fs) = (take n (snd f) @ out) @ rest" using eq frame by simp
      show "e = None \<or> (e = Some SrcEOF \<and> rest = [])" by (rule ih(3))
      show "e = Some SrcEOF" if "0 \<notin> set (n # ns) \<and>
          length (fr_buf r) + length (concat (map snd fs)) + length fs < length (n # ns)"
        using ih(4) that frame by auto
    qed
  qed
qed

text \<open>The batch format of the exit: a count, then each datagram after its length.\<close>

definition batch_body :: "bytes list \<Rightarrow> bytes" where
  "batch_body fs = concat (map (\<lambda>f. put_be32 (word_of_nat (length f)) @ f) fs)"

lemma batch_frames_body:
  "\<forall>f \<in> set fs. length f < 4294967296 \<Longrightarrow>
   batch_frames (length fs) (pre @ batch_body fs @ junk) (length pre) acc = Some (Inr (acc @ fs))"
proof (induction fs arbitrary: pre acc)
  case (Cons f fs)
  have "batch_frames (length fs) ((pre @ put_be32 (word_of_nat (length f)) @ f) @ batch_body fs @ junk)
      (length (pre @ put_be32 (word_of_nat (length f)) @ f)) (acc @ [f]) = Some (Inr ((acc @ [f]) @ fs))"
    using Cons.IH [of "pre @ put_be32 (word_of_nat (length f)) @ f" "acc @ [f]"] Cons.prems by simp
  then show ?case using Cons.prems by (simp add: batch_body_def Let_def add.assoc)
qed (simp add: batch_body_def)

lemma decode_batch:
  assumes "length fs < 4294967296" "\<forall>f \<in> set fs. length f < 4294967296"
  shows "decodeDatagramBatch (put_be32 (word_of_nat (length fs)) @ batch_body fs @ junk) = Some (Inr fs)"
proof -
  let ?h = "put_be32 (word_of_nat (length fs))"
  have "?h \<noteq> []" by (metis length_put_be(2) list.size(3) zero_neq_numeral)
  then show ?thesis
    using batch_frames_body [OF assms(2), of ?h junk "[]"] assms(1)
    by (simp add: decodeDatagramBatch_def get_put_be32 [where bs = "[]", simplified])
qed

section \<open>Properties\<close>

text \<open>Property C8. One tunnel request and its answer. The client's sealed upload frame opens and parses on
  the server to the connection id, sequence number, target and payload that went in, and the
  server's padded answer parses on the client to exactly the data sent; for every content, nonce
  and padding.\<close>

theorem tunnel_exchange:
  assumes "aead (sealk key) (openk key)" "length key = KeySize" "length n1 = NonceSize" "length n2 = NonceSize"
    and "length c = 16" "length target < 65536" "length data < 4294967296" "minPadding \<le> length rnd + length data"
  shows "\<exists>plain frame resp. buildUploadPlain (hex_encode c) seq target payload = Some plain \<and>
    sealFrame sealk key n1 plain = Some frame \<and>
    openFrame openk key frame = Some (Inr plain) \<and>
    parseUploadFrame plain = Some (Inr (hex_encode c, seq, target, payload)) \<and>
    buildUploadResponse sealk key data rnd n2 = Some (Some resp) \<and>
    parseResponse openk key resp = Some (Inr data)"
proof -
  obtain plain where p: "buildUploadPlain (hex_encode c) seq target payload = Some plain"
    using buildUploadPlain_layout [OF assms(5)] by blast
  obtain frame where f: "sealFrame sealk key n1 plain = Some frame" using assms(2) by (simp add: sealFrame_def)
  note openFrame_seal [where sealk = sealk and openk = openk, OF assms(1-3) f]
  with p f parse_buildUpload [OF assms(5,6) p]
    parse_buildResponse [where sealk = sealk and openk = openk, OF assms(1,2,4,7,8)]
  show ?thesis by blast
qed

definition toy_sealk :: keyed_seal where "toy_sealk key nonce p = replicate 16 0 @ p"
definition toy_openk :: keyed_open where "toy_openk key nonce c = (if length c < 16 then None else Some (drop 16 c))"

lemma toy_aead: "aead (toy_sealk key) (toy_openk key)"
  by (auto simp: aead_def toy_sealk_def toy_openk_def aead_Overhead_def split: if_splits)

theorem tunnel_exchange_witness:
  "\<exists>plain. buildUploadPlain (hex_encode (replicate 16 7)) 0 ''example.org:443'' [1, 2, 3] = Some plain \<and>
     parseUploadFrame plain = Some (Inr (hex_encode (replicate 16 7), 0, ''example.org:443'', [1, 2, 3]))"
  using tunnel_exchange [of toy_sealk "replicate 32 0" toy_openk "replicate 12 0" "replicate 12 0" "replicate 16 7"
      "''example.org:443''" "[9]" "replicate 511 0" 0 "[1, 2, 3]", OF toy_aead]
  by (auto simp: KeySize_def NonceSize_def minPadding_def)

text \<open>Property C9. The decrypting reader refines a plain byte stream: over a response made of length-prefixed
  sealed frames, any sequence of reads delivers a prefix of the concatenated plaintexts in order; it
  fails only at the end of the stream, after everything was delivered; and with non-empty buffers
  it gets there.\<close>

theorem stream_reader_faithful:
  assumes "aead (sealk key) (openk key)" "length key = KeySize" "\<forall>f \<in> set fs. frame_fits f"
  shows "\<exists>out e rest.
    fr_reads openk ns (newFramedDecryptReader (concat (map (stream_frame sealk key) fs)) key) = Some (out, e) \<and>
    concat (map snd fs) = out @ rest \<and> (e = None \<or> (e = Some SrcEOF \<and> rest = [])) \<and>
    (0 \<notin> set ns \<and> length (concat (map snd fs)) + length fs < length ns \<longrightarrow> e = Some SrcEOF)"
  using fr_reads_stream [of sealk key openk "newFramedDecryptReader (concat (map (stream_frame sealk key) fs)) key" fs ns] assms
  by (auto simp: newFramedDecryptReader_def)

theorem stream_reader_faithful_witness:
  "\<exists>out. fr_reads toy_openk [2, 2, 2, 2, 2, 2]
     (newFramedDecryptReader (concat (map (stream_frame toy_sealk (replicate 32 0)) [(replicate 12 0, [1, 2, 3])])) (replicate 32 0)) =
     Some (out, Some SrcEOF) \<and> out = [1, 2, 3]"
  using stream_reader_faithful [of toy_sealk "replicate 32 0" toy_openk "[(replicate 12 0, [1, 2, 3])]" "[2, 2, 2, 2, 2, 2]", OF toy_aead]
  by (auto simp: KeySize_def frame_fits_def NonceSize_def aead_Overhead_def maxStreamFrame_def)

text \<open>What the exit batches, the client unbatches, whatever follows the batch; and on every
  input, batch or not, the decoder of datagram batches and the parsers of responses, upload frames
  and stream frames return instead of panicking.\<close>

lemma tunnel_decoders:
  assumes "length fs < 4294967296" "\<forall>f \<in> set fs. length f < 4294967296"
  shows "decodeDatagramBatch (put_be32 (word_of_nat (length fs)) @ batch_body fs @ junk) = Some (Inr fs) \<and>
    returns (decodeDatagramBatch bs) \<and> returns (parseResponse openk key bs) \<and> returns (parseUploadFrame bs) \<and>
    returns (fr_Read openk n r)"
  by (intro conjI decode_batch [OF assms] panic_free)

end
