(* ===== verification/Dial_Window.thy ===== *)
theory Dial_Window
  imports Prelude Complex_Main
begin

text \<open>
  The rolling outcome window of a dialer (\<^verbatim>\<open>tunnel.go\<close>: \<open>recordDialOutcome\<close>, \<open>FailRatio\<close>,
  \<open>classifyDialErr\<close>) and the dialer pool that weighs dialers by it (\<^verbatim>\<open>dialer_pool.go\<close>). Ratios and
  weights are exact rationals where the code has \<^verbatim>\<open>float64\<close>: the ratio of two counts compares with
  \<open>0.50\<close> and \<open>0.80\<close> the same way in both. A dialer is named by a number, its
  identity as a pointer; what the pool asks of it (measured RTT, ratio, URL, open connections) are arguments.
\<close>

section \<open>The outcome window\<close>

record dialOutcome =
  do_at :: time
  do_success :: bool

definition dialWinSize :: int where "dialWinSize = 30 * second"
definition dialWinMinSamples :: nat where "dialWinMinSamples = 3"
definition dialWinMinSpan :: int where "dialWinMinSpan = 10 * second"
definition firstFailRatio :: rat where "firstFailRatio = 1 / 2"
definition dataFailRatio :: rat where "dataFailRatio = 4 / 5"

record dial_window =
  dw_window :: "dialOutcome list"
  dw_firstFired :: bool
  dw_dataFired :: bool
  dw_lastDataAt :: time

definition newWindow :: dial_window where
  "newWindow = \<lparr>dw_window = [], dw_firstFired = False, dw_dataFired = False, dw_lastDataAt = 0\<rparr>"

definition trim :: "time \<Rightarrow> dialOutcome list \<Rightarrow> dialOutcome list" where
  "trim now w = dropWhile (\<lambda>o'. do_at o' < now - dialWinSize) w"

definition fails :: "dialOutcome list \<Rightarrow> nat" where "fails w = length (filter (\<lambda>o'. \<not> do_success o') w)"

definition ratio :: "dialOutcome list \<Rightarrow> rat" where "ratio w = of_nat (fails w) / of_nat (length w)"

text \<open>One latch with its threshold: the new value of the flag, and whether the hook fires.\<close>

definition latch :: "rat \<Rightarrow> rat \<Rightarrow> bool \<Rightarrow> bool \<times> bool" where
  "latch threshold r fired = (if r \<ge> threshold then (True, \<not> fired) else (False, False))"

definition judge :: "time \<Rightarrow> dial_window \<Rightarrow> dial_window \<times> bool \<times> bool" where
  "judge now d =
     (let w = dw_window d; winSpan = now - do_at (hd w) in
      if length w \<ge> dialWinMinSamples \<and> winSpan \<ge> dialWinMinSpan then
        (let (ff, fireFirst) = latch firstFailRatio (ratio w) (dw_firstFired d);
             (df, fireData) = latch dataFailRatio (ratio w) (dw_dataFired d) in
         (d\<lparr>dw_firstFired := ff, dw_dataFired := df\<rparr>, fireFirst, fireData))
      else (d, False, False))"

definition recordDialOutcome :: "time \<Rightarrow> bool \<Rightarrow> dial_window \<Rightarrow> dial_window \<times> bool \<times> bool" where
  "recordDialOutcome now success d =
     judge now (d\<lparr>dw_lastDataAt := (if success then now else dw_lastDataAt d),
       dw_window := trim now (dw_window d) @ [\<lparr>do_at = now, do_success = success\<rparr>]\<rparr>)"

definition FailRatio :: "time \<Rightarrow> dial_window \<Rightarrow> rat \<times> dial_window" where
  "FailRatio now d =
     (let w = trim now (dw_window d); d = d\<lparr>dw_window := w\<rparr> in
      if length w < dialWinMinSamples then (0, d)
      else if now - do_at (hd w) < dialWinMinSpan then (0, d)
      else (ratio w, d))"

text \<open>The classes of errors of a POST, and what each tells about the control.\<close>

datatype post_error = ControlHTTP nat | TransportErr

definition classifyDialErr :: "post_error option \<Rightarrow> bool option" where
  "classifyDialErr err = (case err of
     None \<Rightarrow> Some True
   | Some (ControlHTTP status) \<Rightarrow> if status \<noteq> 404 then Some True else None
   | Some TransportErr \<Rightarrow> Some False)"

definition recordClassified :: "time \<Rightarrow> post_error option \<Rightarrow> dial_window \<Rightarrow> dial_window \<times> bool \<times> bool" where
  "recordClassified now err d = (case classifyDialErr err of
     None \<Rightarrow> (d, False, False)
   | Some success \<Rightarrow> recordDialOutcome now success d)"

text \<open>The probe of \<open>Dial\<close>: up to three attempts, retried on transport errors only; the answers of the
  attempts are given with their times. The result is the final answer and every outcome recorded.\<close>

fun dial_retries :: "nat \<Rightarrow> (time \<times> (post_error + bytes)) list \<Rightarrow> post_error \<Rightarrow> (time \<times> post_error option) list \<Rightarrow>
    (post_error + bytes) \<times> (time \<times> post_error option) list" where
  "dial_retries 0 answers err recorded = (Inl err, recorded)"
| "dial_retries (Suc n) [] err recorded = (Inl err, recorded)"
| "dial_retries (Suc n) ((t, a) # answers) err recorded = (case err of
     ControlHTTP _ \<Rightarrow> (Inl err, recorded)
   | TransportErr \<Rightarrow> (case a of
       Inr resp \<Rightarrow> (Inr resp, recorded @ [(t, None)])
     | Inl e \<Rightarrow> dial_retries n answers e (recorded @ [(t, Some e)])))"

definition dial_probe :: "(time \<times> (post_error + bytes)) list \<Rightarrow> ((post_error + bytes) \<times> (time \<times> post_error option) list) option" where
  "dial_probe answers = (case answers of
     [] \<Rightarrow> None
   | (t, Inr resp) # _ \<Rightarrow> Some (Inr resp, [(t, None)])
   | (t, Inl e) # rest \<Rightarrow> Some (dial_retries 2 rest e [(t, Some e)]))"

section \<open>The pool\<close>

datatype dialerState = Standby | Draining

record dialerSlot =
  ds_dialer :: nat
  ds_state :: dialerState

record DialerPool =
  dp_slots :: "dialerSlot list"
  dp_evictCount :: int

definition defaultPickRTT :: int where "defaultPickRTT = second"
definition softMinQuality :: rat where "softMinQuality = 1 / 10"

definition NewDialerPool :: "nat list \<Rightarrow> DialerPool" where
  "NewDialerPool ds = \<lparr>dp_slots = map (\<lambda>d. \<lparr>ds_dialer = d, ds_state = Standby\<rparr>) ds, dp_evictCount = 0\<rparr>"

definition pickWeight :: "int \<Rightarrow> rat \<Rightarrow> rat" where
  "pickWeight trafficRTT failRatio =
     (let rtt = (if trafficRTT \<le> 0 then defaultPickRTT else trafficRTT);
          base = 1 / of_int rtt;
          quality = 1 - failRatio;
          quality = (if quality < softMinQuality then softMinQuality else quality) in
      base * quality)"

definition active :: "dialerSlot \<Rightarrow> bool" where "active s \<longleftrightarrow> ds_state s \<noteq> Draining"

text \<open>The selection loop with the remaining amount \<open>r\<close>.\<close>

fun pick_loop :: "(nat \<Rightarrow> rat) \<Rightarrow> rat \<Rightarrow> dialerSlot list \<Rightarrow> nat option" where
  "pick_loop weight r [] = None"
| "pick_loop weight r (s # ss) =
     (if ds_state s = Draining then pick_loop weight r ss
      else (let r' = r - weight (ds_dialer s) in if r' \<le> 0 then Some (ds_dialer s) else pick_loop weight r' ss))"

text \<open>\<open>Pick\<close> with the random number \<open>u\<close> of \<^verbatim>\<open>rand.Float64()\<close>.\<close>

definition Pick :: "(nat \<Rightarrow> rat) \<Rightarrow> rat \<Rightarrow> DialerPool \<Rightarrow> nat option" where
  "Pick weight u p =
     (let total = sum_list (map (\<lambda>s. weight (ds_dialer s)) (filter active (dp_slots p))) in
      if total = 0 then None
      else (case pick_loop weight (u * total) (dp_slots p) of
          Some d \<Rightarrow> Some d
        | None \<Rightarrow> map_option ds_dialer (find active (rev (dp_slots p)))))"

definition sizeUnlocked :: "DialerPool \<Rightarrow> nat" where "sizeUnlocked p = length (filter active (dp_slots p))"

definition pool_Add :: "nat \<Rightarrow> DialerPool \<Rightarrow> DialerPool" where
  "pool_Add d p = p\<lparr>dp_slots := dp_slots p @ [\<lparr>ds_dialer = d, ds_state = Standby\<rparr>]\<rparr>"

definition Evict :: "nat \<Rightarrow> DialerPool \<Rightarrow> nat \<times> DialerPool" where
  "Evict d p =
     (let next = filter (\<lambda>s. ds_dialer s \<noteq> d) (dp_slots p);
          found = (\<exists>s \<in> set (dp_slots p). ds_dialer s = d) in
      if \<not> found then (sizeUnlocked p, p)
      else (let p' = p\<lparr>dp_slots := next, dp_evictCount := dp_evictCount p + 1\<rparr> in (sizeUnlocked p', p')))"

definition Swap :: "nat list \<Rightarrow> DialerPool \<Rightarrow> DialerPool" where
  "Swap ds p = p\<lparr>dp_slots := map (\<lambda>d. \<lparr>ds_dialer = d, ds_state = Standby\<rparr>) ds\<rparr>"

definition NeedsRefill :: "nat \<Rightarrow> DialerPool \<Rightarrow> bool" where "NeedsRefill target p \<longleftrightarrow> sizeUnlocked p < target"

definition pool_Get :: "(nat \<Rightarrow> string) \<Rightarrow> string \<Rightarrow> DialerPool \<Rightarrow> nat option" where
  "pool_Get url ctrlURL p = map_option ds_dialer (find (\<lambda>s. active s \<and> url (ds_dialer s) = ctrlURL) (dp_slots p))"

definition pool_Has :: "(nat \<Rightarrow> string) \<Rightarrow> string \<Rightarrow> DialerPool \<Rightarrow> bool" where
  "pool_Has url ctrlURL p \<longleftrightarrow> (\<exists>s \<in> set (dp_slots p). active s \<and> url (ds_dialer s) = ctrlURL)"

definition DrainEvictions :: "DialerPool \<Rightarrow> int \<times> DialerPool" where
  "DrainEvictions p = (dp_evictCount p, p\<lparr>dp_evictCount := 0\<rparr>)"

definition pool_manage :: "(nat \<Rightarrow> nat) \<Rightarrow> DialerPool \<Rightarrow> DialerPool" where
  "pool_manage openConns p = p\<lparr>dp_slots := map (\<lambda>s.
     if ds_state s = Draining \<and> openConns (ds_dialer s) = 0 then s\<lparr>ds_state := Standby\<rparr> else s) (dp_slots p)\<rparr>"

definition pool_LastDataTime :: "(nat \<Rightarrow> time) \<Rightarrow> DialerPool \<Rightarrow> time" where
  "pool_LastDataTime lastData p = fold (\<lambda>s latest. if lastData (ds_dialer s) > latest then lastData (ds_dialer s) else latest) (dp_slots p) 0"

section \<open>The window is the recent history\<close>

definition run_outcomes :: "(time \<times> bool) list \<Rightarrow> dial_window" where
  "run_outcomes es = fold (\<lambda>(t, b) d. fst (recordDialOutcome t b d)) es newWindow"

definition outcomes :: "(time \<times> bool) list \<Rightarrow> dialOutcome list" where
  "outcomes es = map (\<lambda>(t, b). \<lparr>do_at = t, do_success = b\<rparr>) es"

definition recent :: "time \<Rightarrow> dialOutcome list \<Rightarrow> dialOutcome list" where
  "recent now h = filter (\<lambda>o'. do_at o' \<ge> now - dialWinSize) h"

definition enough :: "time \<Rightarrow> dialOutcome list \<Rightarrow> bool" where
  "enough now w \<longleftrightarrow> length w \<ge> dialWinMinSamples \<and> now - do_at (hd w) \<ge> dialWinMinSpan"

lemma trim_recent: "sorted (map do_at w) \<Longrightarrow> trim now w = recent now w"
  by (induction w) (auto simp: trim_def recent_def intro!: filter_True [symmetric])

lemma sorted_recent: "sorted (map do_at h) \<Longrightarrow> sorted (map do_at (recent now h))"
  by (simp add: recent_def sorted_filter)

lemma recent_recent: "t \<le> now \<Longrightarrow> recent now (recent t h) = recent now h"
  by (auto simp: recent_def intro: filter_cong)

lemma do_at_outcomes: "map do_at (outcomes es) = map fst es"
  by (auto simp: outcomes_def)

lemma recordDialOutcome_window:
  "dw_window (fst (recordDialOutcome now b d)) = trim now (dw_window d) @ [\<lparr>do_at = now, do_success = b\<rparr>]"
  by (simp add: recordDialOutcome_def judge_def Let_def split: prod.splits)

lemma run_window:
  "sorted (map fst es) \<Longrightarrow> es \<noteq> [] \<Longrightarrow> dw_window (run_outcomes es) = recent (fst (last es)) (outcomes es)"
proof (induction es rule: rev_induct)
  case (snoc e es)
  obtain t b where e: "e = (t, b)" by fastforce
  have s: "sorted (map do_at (outcomes es))" using snoc.prems by (simp add: do_at_outcomes sorted_append)
  have "trim t (dw_window (run_outcomes es)) = recent t (outcomes es)"
  proof (cases "es = []")
    case True then show ?thesis by (simp add: run_outcomes_def newWindow_def trim_def recent_def outcomes_def)
  next
    case False
    then have "fst (last es) \<le> t" using snoc.prems e by (simp add: sorted_append)
    then show ?thesis using snoc False s by (simp add: sorted_append trim_recent sorted_recent recent_recent)
  qed
  then show ?case
    by (simp add: run_outcomes_def e recordDialOutcome_window recent_def outcomes_def dialWinSize_def)
qed simp

lemma recordDialOutcome_fires:
  assumes "w = dw_window (fst (recordDialOutcome now b d))"
  shows "recordDialOutcome now b d =
    (d\<lparr>dw_lastDataAt := (if b then now else dw_lastDataAt d), dw_window := w,
       dw_firstFired := (if enough now w then ratio w \<ge> firstFailRatio else dw_firstFired d),
       dw_dataFired := (if enough now w then ratio w \<ge> dataFailRatio else dw_dataFired d)\<rparr>,
     enough now w \<and> ratio w \<ge> firstFailRatio \<and> \<not> dw_firstFired d,
     enough now w \<and> ratio w \<ge> dataFailRatio \<and> \<not> dw_dataFired d)"
proof -
  have "trim now (dw_window d) @ [\<lparr>do_at = now, do_success = b\<rparr>] = w"
    using assms by (simp add: recordDialOutcome_window)
  then show ?thesis by (auto simp: recordDialOutcome_def judge_def Let_def latch_def enough_def)
qed

lemma data_implies_first: "dw_dataFired (run_outcomes es) \<Longrightarrow> dw_firstFired (run_outcomes es)"
proof (induction es rule: rev_induct)
  case (snoc e es)
  obtain t b where e: "e = (t, b)" by fastforce
  have r: "run_outcomes (es @ [e]) = fst (recordDialOutcome t b (run_outcomes es))" by (simp add: run_outcomes_def e)
  define w where "w = dw_window (fst (recordDialOutcome t b (run_outcomes es)))"
  show ?case using snoc arg_cong [OF recordDialOutcome_fires [OF w_def], of fst]
    by (auto simp: r firstFailRatio_def dataFailRatio_def simp flip: w_def split: if_splits)
qed (simp add: run_outcomes_def newWindow_def)

lemma hd_recent_now: "sorted (map do_at w) \<Longrightarrow> \<forall>o' \<in> set w. do_at o' \<ge> now - dialWinSize \<Longrightarrow> trim now w = w"
  by (cases w) (auto simp: trim_def)

lemma FailRatio_enough:
  assumes "trim now (dw_window d) = dw_window d"
  shows "FailRatio now d = ((if enough now (dw_window d) then ratio (dw_window d) else 0), d)"
  using assms by (auto simp: FailRatio_def enough_def Let_def)

section \<open>Weighted selection\<close>

lemma pickWeight_pos: "0 < pickWeight rtt fr"
  by (auto simp: pickWeight_def Let_def defaultPickRTT_def softMinQuality_def intro!: mult_pos_pos)

definition cumulative :: "(nat \<Rightarrow> rat) \<Rightarrow> dialerSlot list \<Rightarrow> nat \<Rightarrow> rat" where
  "cumulative weight ss k = sum_list (map (\<lambda>s. weight (ds_dialer s)) (take k ss))"

lemma cumulative_0 [simp]: "cumulative weight ss 0 = 0"
  by (simp add: cumulative_def)

lemma cumulative_Suc [simp]: "cumulative weight (s # ss) (Suc k) = weight (ds_dialer s) + cumulative weight ss k"
  by (simp add: cumulative_def)

lemma pick_loop_active: "pick_loop weight r ss = pick_loop weight r (filter active ss)"
  by (induction ss arbitrary: r) (auto simp: active_def Let_def)

lemma pick_loop_index:
  assumes "r \<le> cumulative weight ss (length ss)" "ss \<noteq> []" "\<forall>s \<in> set ss. active s" "0 \<le> r"
  shows "\<exists>i < length ss. pick_loop weight r ss = Some (ds_dialer (ss ! i)) \<and>
    (i = 0 \<or> cumulative weight ss i < r) \<and> r \<le> cumulative weight ss (Suc i)"
  using assms
proof (induction ss arbitrary: r)
  case (Cons s ss)
  show ?case
  proof (cases "r \<le> weight (ds_dialer s)")
    case True
    then show ?thesis using Cons.prems by (intro exI [of _ 0]) (simp add: active_def)
  next
    case False
    then have r: "r - weight (ds_dialer s) \<le> cumulative weight ss (length ss)" using Cons.prems(1) by simp
    have "ss \<noteq> []" using r False by (cases ss) auto
    then obtain i where i: "i < length ss" "pick_loop weight (r - weight (ds_dialer s)) ss = Some (ds_dialer (ss ! i))"
      "i = 0 \<or> cumulative weight ss i < r - weight (ds_dialer s)" "r - weight (ds_dialer s) \<le> cumulative weight ss (Suc i)"
      using Cons.IH [OF r] Cons.prems False by auto
    then show ?thesis using False Cons.prems(3)
      by (intro exI [of _ "Suc i"]) (auto simp: active_def Let_def)
  qed
qed simp

section \<open>Sequences of pool operations\<close>

datatype pool_op = OpAdd nat | OpEvict nat | OpSwap "nat list" | OpDrainEvictions | OpManage "nat \<Rightarrow> nat"

fun pool_step :: "pool_op \<Rightarrow> DialerPool \<Rightarrow> DialerPool" where
  "pool_step (OpAdd d) p = pool_Add d p"
| "pool_step (OpEvict d) p = snd (Evict d p)"
| "pool_step (OpSwap ds) p = Swap ds p"
| "pool_step OpDrainEvictions p = snd (DrainEvictions p)"
| "pool_step (OpManage openConns) p = pool_manage openConns p"

lemma pool_step_standby:
  "\<forall>s \<in> set (dp_slots p). ds_state s = Standby \<Longrightarrow> \<forall>s \<in> set (dp_slots (pool_step a p)). ds_state s = Standby"
  by (cases a) (auto simp: pool_Add_def Evict_def Swap_def DrainEvictions_def pool_manage_def Let_def)

lemma pool_steps_standby: "\<forall>s \<in> set (dp_slots (fold pool_step ops (NewDialerPool ds))). ds_state s = Standby"
proof (induction ops rule: rev_induct)
  case Nil
  show ?case by (simp add: NewDialerPool_def)
next
  case (snoc a ops)
  then show ?case using pool_step_standby [of "fold pool_step ops (NewDialerPool ds)" a] by simp
qed

section \<open>Properties\<close>

text \<open>Property C15. Eviction is judged on the outcomes of the last thirty seconds, and nothing else. After any
  chronological sequence of outcomes the window is exactly the recorded history of that span; the
  soft hook fires precisely when, with enough data, at least half of it failed and the hook has not
  fired in this excursion, the hard hook likewise at four fifths; a raised hard flag implies the
  soft one; and \<open>FailRatio\<close> reports the very ratio the hooks were judged by.\<close>

theorem eviction_judges_recent_history:
  assumes "sorted (map fst (es @ [(now, b)]))"
  shows "let w = recent now (outcomes (es @ [(now, b)])); d = run_outcomes es;
      (d', soft, hard) = recordDialOutcome now b d in
    dw_window d' = w \<and>
    (soft \<longleftrightarrow> enough now w \<and> ratio w \<ge> 1 / 2 \<and> \<not> dw_firstFired d) \<and>
    (hard \<longleftrightarrow> enough now w \<and> ratio w \<ge> 4 / 5 \<and> \<not> dw_dataFired d) \<and>
    dw_firstFired d' = (if enough now w then ratio w \<ge> 1 / 2 else dw_firstFired d) \<and>
    dw_dataFired d' = (if enough now w then ratio w \<ge> 4 / 5 else dw_dataFired d) \<and>
    (dw_dataFired d' \<longrightarrow> dw_firstFired d') \<and>
    fst (FailRatio now d') = (if enough now w then ratio w else 0)"
proof -
  define d where "d = run_outcomes es"
  define d' where "d' = fst (recordDialOutcome now b d)"
  define w where "w = recent now (outcomes (es @ [(now, b)]))"
  have run: "run_outcomes (es @ [(now, b)]) = d'" by (simp add: run_outcomes_def d_def d'_def)
  have w: "dw_window d' = w" using run_window [OF assms] run by (simp add: w_def)
  have s: "sorted (map do_at w)" using assms by (simp add: w_def sorted_recent do_at_outcomes)
  have "trim now w = w" by (rule hd_recent_now [OF s]) (simp add: w_def recent_def)
  then have fr: "fst (FailRatio now d') = (if enough now w then ratio w else 0)" using FailRatio_enough [of now d'] w by simp
  have imp: "dw_dataFired d' \<longrightarrow> dw_firstFired d'" using data_implies_first [of "es @ [(now, b)]"] run by simp
  have rec: "recordDialOutcome now b d = (d', enough now w \<and> ratio w \<ge> firstFailRatio \<and> \<not> dw_firstFired d,
      enough now w \<and> ratio w \<ge> dataFailRatio \<and> \<not> dw_dataFired d)"
    and flags: "dw_firstFired d' = (if enough now w then ratio w \<ge> firstFailRatio else dw_firstFired d)"
      "dw_dataFired d' = (if enough now w then ratio w \<ge> dataFailRatio else dw_dataFired d)"
    using recordDialOutcome_fires [of w now b d] w by (simp_all add: d'_def)
  show ?thesis
    unfolding Let_def d_def [symmetric] w_def [symmetric] rec prod.case
    using w fr imp flags by (simp add: firstFailRatio_def dataFailRatio_def)
qed

theorem eviction_judges_recent_history_witness:
  "let (d', soft, hard) = recordDialOutcome (40 * second) False (run_outcomes [(0, True), (second, True), (2 * second, True), (20 * second, False), (25 * second, False)]) in
    soft \<and> hard"
proof -
  have w: "recent (40 * second) (outcomes ([(0, True), (second, True), (2 * second, True), (20 * second, False), (25 * second, False)] @ [(40 * second, False)])) =
      [\<lparr>do_at = 20 * second, do_success = False\<rparr>, \<lparr>do_at = 25 * second, do_success = False\<rparr>, \<lparr>do_at = 40 * second, do_success = False\<rparr>]"
    by (simp add: recent_def outcomes_def dialWinSize_def)
  have f: "\<not> dw_firstFired (run_outcomes [(0, True), (second, True), (2 * second, True), (20 * second, False), (25 * second, False)])"
    "\<not> dw_dataFired (run_outcomes [(0, True), (second, True), (2 * second, True), (20 * second, False), (25 * second, False)])"
    by code_simp+
  show ?thesis
    using eviction_judges_recent_history [of "[(0, True), (second, True), (2 * second, True), (20 * second, False), (25 * second, False)]" "40 * second" False] f
    unfolding w Let_def by (simp add: enough_def dialWinMinSamples_def dialWinMinSpan_def ratio_def fails_def split: prod.splits)
qed

text \<open>Property C31. Selection in proportion to weight. The pool returns no dialer exactly when none is
  active, and otherwise the random number \<open>u\<close> selects the active dialer in whose stretch of the
  cumulative weights \<open>u\<close> times the total lies, so that each dialer owns a share of \<open>[0, 1)\<close> equal to its
  share of the weight; a draining dialer is never returned.\<close>

theorem Pick_proportional:
  assumes "0 \<le> u" "u < 1"
  shows "let weight = (\<lambda>d. pickWeight (rtt d) (failRatio d)); act = filter active (dp_slots p);
      total = cumulative weight act (length act) in
    (Pick weight u p = None \<longleftrightarrow> act = []) \<and>
    (act \<noteq> [] \<longrightarrow> (\<exists>i < length act. Pick weight u p = Some (ds_dialer (act ! i)) \<and>
       (i = 0 \<or> cumulative weight act i < u * total) \<and> u * total \<le> cumulative weight act (Suc i)))"
proof -
  define weight where "weight = (\<lambda>d. pickWeight (rtt d) (failRatio d))"
  define act where "act = filter active (dp_slots p)"
  define total where "total = cumulative weight act (length act)"
  have pos: "0 < weight d" for d by (simp add: weight_def pickWeight_pos)
  have tot: "sum_list (map (\<lambda>s. weight (ds_dialer s)) act) = total" by (simp add: total_def cumulative_def)
  have nonneg: "0 \<le> sum_list (map (\<lambda>s. weight (ds_dialer s)) ss)" for ss :: "dialerSlot list"
    by (rule sum_list_nonneg) (use less_imp_le [OF pos] in auto)
  then have "0 \<le> total" using tot by metis
  have posT: "0 < total" if "act \<noteq> []"
    using that pos nonneg unfolding tot [symmetric] by (cases act) (simp_all add: add_pos_nonneg)
  have some: "\<exists>i < length act. pick_loop weight (u * total) act = Some (ds_dialer (act ! i)) \<and>
       (i = 0 \<or> cumulative weight act i < u * total) \<and> u * total \<le> cumulative weight act (Suc i)" if "act \<noteq> []"
  proof (rule pick_loop_index [OF _ that])
    show "u * total \<le> cumulative weight act (length act)" "0 \<le> u * total"
      using \<open>0 \<le> total\<close> assms mult_left_le_one_le [of total u] by (simp_all flip: total_def)
    show "\<forall>s \<in> set act. active s" by (simp add: act_def)
  qed
  have none: "total = 0" if "act = []" using that by (simp add: total_def)
  have "Pick weight u p = (if act = [] then None else pick_loop weight (u * total) act)"
    using some none posT pick_loop_active [of weight "u * total" "dp_slots p"]
    by (auto simp: Pick_def Let_def tot simp flip: act_def)
  then show ?thesis using some unfolding Let_def weight_def [symmetric] act_def [symmetric] total_def [symmetric] by auto
qed

theorem Pick_proportional_witness:
  "\<exists>d. Pick (\<lambda>d. pickWeight 0 0) (1 / 2) (NewDialerPool [7, 8]) = Some d"
  using Pick_proportional [of "1 / 2" "\<lambda>_. 0" "\<lambda>_. 0" "NewDialerPool [7, 8]"]
  by (auto simp: Let_def NewDialerPool_def active_def)

text \<open>Nothing ever drains. Whatever sequence of operations a pool made by \<open>NewDialerPool\<close>
  goes through, every slot is on standby, so that the draining state and the tick that ends it never
  matter: the tick changes nothing and the size is the number of slots.\<close>

lemma pool_never_drains:
  "let p = fold pool_step ops (NewDialerPool ds) in
    (\<forall>s \<in> set (dp_slots p). ds_state s = Standby) \<and> pool_manage openConns p = p \<and> sizeUnlocked p = length (dp_slots p)"
proof -
  define p where "p = fold pool_step ops (NewDialerPool ds)"
  have st: "\<forall>s \<in> set (dp_slots p). ds_state s = Standby" using pool_steps_standby by (simp add: p_def)
  then have "map (\<lambda>s. if ds_state s = Draining \<and> openConns (ds_dialer s) = 0 then s\<lparr>ds_state := Standby\<rparr> else s) (dp_slots p) = dp_slots p"
    by (intro map_idI) auto
  moreover have "filter active (dp_slots p) = dp_slots p" using st by (auto simp: active_def filter_id_conv)
  ultimately show ?thesis using st unfolding p_def [symmetric] Let_def by (simp add: pool_manage_def sizeUnlocked_def)
qed

end
