(* ===== verification/Tunnel_Auth.thy ===== *)
theory Tunnel_Auth
  imports Tunnel_Frames Dial_Window
begin

text \<open>
  Authentication and the tunnel POST (\<^verbatim>\<open>tunnel.go\<close>): login with its parallel attempts and the cache
  fallback, re-authentication with its two deadlines, and \<open>doPost\<close> with its one retry. HTTP exchanges
  are given by their results, JSON decoding by parameters, the clock and concurrent token updates by
  observations.
\<close>

section \<open>The authenticator\<close>

record keyAuthInfo =
  ka_username :: string
  ka_servers :: "string list"
  ka_controlNodes :: "string list"
  ka_arbiterPubkey :: string
  ka_nodeID :: string
  ka_apiKey :: string
  ka_clientID :: string
  ka_keyID :: string
  ka_authSig :: string

type_synonym KeyAuthParams = keyAuthInfo

record Authenticator =
  au_serverURL :: string
  au_apiKey :: string
  au_username :: string
  au_password :: string
  au_token :: string
  au_keyID :: string
  au_deviceID :: string
  au_deviceName :: string
  au_keyAuth :: "keyAuthInfo option"
  au_pendingNotifs :: "string list"

definition trim_slashes :: "string \<Rightarrow> string" where
  "trim_slashes s = rev (dropWhile (\<lambda>c. c = CHR ''/'') (rev s))"

definition NewAuthenticator :: "string \<Rightarrow> string \<Rightarrow> string \<Rightarrow> string \<Rightarrow> Authenticator" where
  "NewAuthenticator serverURL apiKey username password =
     \<lparr>au_serverURL = trim_slashes serverURL, au_apiKey = apiKey, au_username = username, au_password = password,
      au_token = [], au_keyID = [], au_deviceID = [], au_deviceName = [], au_keyAuth = None, au_pendingNotifs = []\<rparr>"

definition NewAuthenticatorWithToken :: "string \<Rightarrow> string \<Rightarrow> string \<Rightarrow> Authenticator" where
  "NewAuthenticatorWithToken serverURL apiKey token = (NewAuthenticator serverURL apiKey [] [])\<lparr>au_token := token\<rparr>"

definition SetDeviceInfo :: "string \<Rightarrow> string \<Rightarrow> string \<Rightarrow> Authenticator \<Rightarrow> Authenticator" where
  "SetDeviceInfo keyID deviceID deviceName a = a\<lparr>au_keyID := keyID, au_deviceID := deviceID, au_deviceName := deviceName\<rparr>"

definition SetKeyAuthParams :: "KeyAuthParams \<Rightarrow> Authenticator \<Rightarrow> Authenticator" where
  "SetKeyAuthParams p a = (if ka_authSig p = [] then a else a\<lparr>au_keyAuth := Some p\<rparr>)"

definition AdoptToken :: "string \<Rightarrow> Authenticator \<Rightarrow> Authenticator" where "AdoptToken tok a = a\<lparr>au_token := tok\<rparr>"

definition DrainNotifications :: "Authenticator \<Rightarrow> string list \<times> Authenticator" where
  "DrainNotifications a = (if au_pendingNotifs a = [] then ([], a) else (au_pendingNotifs a, a\<lparr>au_pendingNotifs := []\<rparr>))"

section \<open>Requests\<close>

datatype jval = JStr string | JList "string list"

definition opt_str :: "string \<Rightarrow> string \<Rightarrow> (string \<times> jval) list" where
  "opt_str k v = (if v = [] then [] else [(k, JStr v)])"

definition opt_list :: "string \<Rightarrow> string list \<Rightarrow> (string \<times> jval) list" where
  "opt_list k v = (if v = [] then [] else [(k, JList v)])"

definition buildKeyAuthBody :: "keyAuthInfo \<Rightarrow> Authenticator \<Rightarrow> (string \<times> jval) list" where
  "buildKeyAuthBody ka a =
     [(''.command'', JStr ''authenticateKey''), (''username'', JStr (ka_username ka)),
      (''node_id'', JStr (ka_nodeID ka)), (''auth_sig'', JStr (ka_authSig ka))] @
     opt_list ''servers'' (ka_servers ka) @ opt_list ''control_nodes'' (ka_controlNodes ka) @
     opt_str ''arbiter_pubkey'' (ka_arbiterPubkey ka) @ opt_str ''api_key'' (ka_apiKey ka) @
     opt_str ''client_id'' (ka_clientID ka) @ opt_str ''key_id'' (ka_keyID ka) @
     opt_str ''device_id'' (au_deviceID a) @ opt_str ''device_name'' (au_deviceName a)"

definition buildPasswordAuthBody :: "Authenticator \<Rightarrow> (string \<times> jval) list" where
  "buildPasswordAuthBody a =
     [(''.command'', JStr ''verifyPassword''), (''path'', JStr ''users''), (''user'', JStr (au_username a)),
      (''password'', JStr (au_password a)), (''key'', JStr (au_apiKey a))] @
     opt_str ''key_id'' (au_keyID a) @ opt_str ''device_id'' (au_deviceID a) @ opt_str ''device_name'' (au_deviceName a)"

text \<open>Errors as \<^verbatim>\<open>errors.Is\<close> distinguishes them.\<close>

datatype auth_error = AuthRejected | AuthTransient | AuthOther

definition classifyAuthError :: "(bytes \<Rightarrow> bool) \<Rightarrow> nat \<Rightarrow> bytes \<Rightarrow> auth_error" where
  "classifyAuthError transient_probe status raw =
     (if status = 503 \<and> transient_probe raw then AuthTransient else AuthRejected)"

text \<open>The result of an HTTP exchange: an error, or a status and a body.\<close>

datatype http_result = HttpErr | HttpResp nat bytes

text \<open>\<open>parse raw\<close> is the decoded answer: the session token (empty if absent) and the notifications;
  \<^term>\<open>None\<close> if the body is not JSON.\<close>

definition doKeyAuth ::
  "(bytes \<Rightarrow> bool) \<Rightarrow> (bytes \<Rightarrow> (string \<times> string list) option) \<Rightarrow> http_result \<Rightarrow> Authenticator \<Rightarrow>
   (auth_error + string) \<times> Authenticator" where
  "doKeyAuth probe parse http a = (case http of
     HttpErr \<Rightarrow> (Inl AuthOther, a)
   | HttpResp status raw \<Rightarrow>
       if status \<noteq> 200 then (Inl (classifyAuthError probe status raw), a)
       else (case parse raw of
           None \<Rightarrow> (Inl AuthRejected, a)
         | Some (tok, notifs) \<Rightarrow>
             if tok = [] then (Inl AuthRejected, a)
             else (Inr tok, if notifs = [] then a else a\<lparr>au_pendingNotifs := notifs\<rparr>)))"

definition doPasswordAuth ::
  "(bytes \<Rightarrow> bool) \<Rightarrow> (bytes \<Rightarrow> string option) \<Rightarrow> http_result \<Rightarrow> auth_error + string" where
  "doPasswordAuth probe parse http = (case http of
     HttpErr \<Rightarrow> Inl AuthOther
   | HttpResp status raw \<Rightarrow>
       if status \<noteq> 200 then Inl (classifyAuthError probe status raw)
       else (case parse raw of
           None \<Rightarrow> Inl AuthRejected
         | Some tok \<Rightarrow> if tok = [] then Inl AuthRejected else Inr tok))"

text \<open>Over the UDP relay the status is not looked at.\<close>

definition sendAuthViaUDP :: "(bytes \<Rightarrow> string option) \<Rightarrow> http_result \<Rightarrow> auth_error + string" where
  "sendAuthViaUDP parse rt = (case rt of
     HttpErr \<Rightarrow> Inl AuthOther
   | HttpResp status raw \<Rightarrow> (case parse raw of
       None \<Rightarrow> Inl AuthRejected
     | Some tok \<Rightarrow> if tok = [] then Inl AuthRejected else Inr tok))"

definition ProxyValidate ::
  "(bytes \<Rightarrow> bool) \<Rightarrow> (bytes \<Rightarrow> string option) \<Rightarrow> http_result \<Rightarrow> auth_error + string" where
  "ProxyValidate probe parse http = (case http of
     HttpErr \<Rightarrow> Inl AuthOther
   | HttpResp status raw \<Rightarrow>
       if status \<noteq> 200 then Inl (classifyAuthError probe status raw)
       else (case parse raw of None \<Rightarrow> Inl AuthOther | Some s \<Rightarrow> if s = [] then Inl AuthOther else Inr s))"

definition tryAuthViaControlCache :: "(bytes \<Rightarrow> string option) \<Rightarrow> http_result \<Rightarrow> Authenticator \<Rightarrow> string option" where
  "tryAuthViaControlCache parse http a =
     (if au_deviceID a = [] then None
      else (case http of
          HttpErr \<Rightarrow> None
        | HttpResp status raw \<Rightarrow>
            if status \<noteq> 200 then None
            else (case parse raw of None \<Rightarrow> None | Some tok \<Rightarrow> if tok = [] then None else Some tok)))"

section \<open>Login\<close>

text \<open>The attempts that are launched, and the loop over their results in the order of arrival: the first
  token, or whether a rejection and a transient failure were seen.\<close>

definition login_attempts :: "Authenticator \<Rightarrow> nat" where
  "login_attempts a = (if au_keyAuth a \<noteq> None then 1 else 0) + (if au_password a \<noteq> [] then 1 else 0)"

fun login_collect :: "(auth_error + string) list \<Rightarrow> bool \<Rightarrow> bool \<Rightarrow> string option \<times> bool \<times> bool" where
  "login_collect [] hasRejection hasTransient = (None, hasRejection, hasTransient)"
| "login_collect (Inr tok # rs) hasRejection hasTransient = (Some tok, hasRejection, hasTransient)"
| "login_collect (Inl e # rs) hasRejection hasTransient =
     login_collect rs (hasRejection \<or> e = AuthRejected) (hasTransient \<or> e = AuthTransient)"

definition Login :: "(auth_error + string) list \<Rightarrow> string option \<Rightarrow> Authenticator \<Rightarrow> auth_error option \<times> Authenticator" where
  "Login results cached a =
     (if login_attempts a = 0 then (Some AuthOther, a)
      else (case login_collect results False False of
          (Some tok, _) \<Rightarrow> (None, a\<lparr>au_token := tok\<rparr>)
        | (None, hasRejection, hasTransient) \<Rightarrow>
            (case (if hasTransient \<and> \<not> hasRejection then cached else None) of
               Some tok \<Rightarrow> (None, a\<lparr>au_token := tok\<rparr>)
             | None \<Rightarrow> (Some (if hasRejection then AuthRejected else if hasTransient then AuthTransient else AuthOther), a))))"

definition LoginViaUDP :: "(auth_error + string) list \<Rightarrow> Authenticator \<Rightarrow> auth_error option \<times> Authenticator" where
  "LoginViaUDP results a =
     (if login_attempts a = 0 then (Some AuthOther, a)
      else (case login_collect results False False of
          (Some tok, _) \<Rightarrow> (None, a\<lparr>au_token := tok\<rparr>)
        | (None, hasRejection, _) \<Rightarrow> (Some (if hasRejection then AuthRejected else AuthOther), a)))"

section \<open>Re-authentication\<close>

definition str_contains :: "string \<Rightarrow> string \<Rightarrow> bool" where
  "str_contains s sub = list_ex (\<lambda>i. take (length sub) (drop i s) = sub) [0..<Suc (length s)]"

definition isAuthRejection :: "string option \<Rightarrow> bool" where
  "isAuthRejection err = (case err of
     None \<Rightarrow> False
   | Some s \<Rightarrow> str_contains s (CHR 0x22 # ''invalid credentials'' @ [CHR 0x22]) \<or>
              str_contains s (CHR 0x22 # ''key expired'' @ [CHR 0x22]))"

definition authRejectWindow :: int where "authRejectWindow = 3 * minute"
definition serverErrorWindow :: int where "serverErrorWindow = 180 * minute"
definition reauth_backoff0 :: int where "reauth_backoff0 = 5 * second"

datatype reauth_effect = WarnHook | RecoveredHook | FatalHook

text \<open>One round of the loop as it is observed: the login's error text or new token, the time after it,
  and the token found when the lock is taken again after the sleep.\<close>

record reauth_round =
  rr_login :: "string + string"
  rr_now :: time
  rr_wake :: string

datatype reauth_result = ReauthOK string | ReauthFailed | ReauthPanic

text \<open>The loop, cut off after \<open>fuel\<close> rounds (\<^term>\<open>None\<close>). Slicing a token of fewer than eight bytes panics.\<close>

fun reauth_loop ::
  "nat \<Rightarrow> (nat \<Rightarrow> reauth_round) \<Rightarrow> nat \<Rightarrow> string \<Rightarrow> time \<Rightarrow> time option \<Rightarrow> int \<Rightarrow> bool \<Rightarrow>
   (reauth_result \<times> reauth_effect list) option" where
  "reauth_loop 0 obs k badToken serverDeadline rejectDeadline backoff warned = None"
| "reauth_loop (Suc fuel) obs k badToken serverDeadline rejectDeadline backoff warned =
     (case rr_login (obs k) of
        Inr tok \<Rightarrow>
          if length tok < 8 then Some (ReauthPanic, [])
          else Some (ReauthOK tok, if warned then [RecoveredHook] else [])
      | Inl err \<Rightarrow>
         (let now = rr_now (obs k);
              warn = (if warned then [] else [WarnHook]);
              sleep = (\<lambda>rd w eff.
                if rr_wake (obs k) \<noteq> badToken then Some (ReauthOK (rr_wake (obs k)), eff)
                else map_option (\<lambda>(r, es). (r, eff @ es))
                  (reauth_loop fuel obs (Suc k) badToken serverDeadline rd
                     (if backoff < 30 * second then backoff * 2 else backoff) w)) in
          if isAuthRejection (Some err) then
            (let rd = (case rejectDeadline of None \<Rightarrow> now + authRejectWindow | Some t \<Rightarrow> t) in
             if now > rd then Some (ReauthFailed, warn @ [FatalHook])
             else sleep (Some rd) True warn)
          else if now > serverDeadline then Some (ReauthFailed, warn @ [FatalHook])
          else sleep rejectDeadline warned []))"

definition refreshToken ::
  "nat \<Rightarrow> (nat \<Rightarrow> reauth_round) \<Rightarrow> time \<Rightarrow> string \<Rightarrow> string \<Rightarrow> (reauth_result \<times> reauth_effect list) option" where
  "refreshToken fuel obs start token badToken =
     (if token \<noteq> badToken then Some (ReauthOK token, [])
      else if length badToken < 8 then Some (ReauthPanic, [])
      else reauth_loop fuel obs 0 badToken (start + serverErrorWindow) None reauth_backoff0 False)"

section \<open>Traffic measurements\<close>

record traffic_rtt =
  tr_nanos :: int
  tr_count :: nat

definition trafficRTTMinSamples :: nat where "trafficRTTMinSamples = 5"

text \<open>\<open>mix d old\<close> is the floating-point average \<^verbatim>\<open>int64(0.15*d + 0.85*old)\<close>; the second result is the value
  passed to the hook.\<close>

definition recordTrafficRTT :: "(int \<Rightarrow> int \<Rightarrow> int) \<Rightarrow> int \<Rightarrow> traffic_rtt \<Rightarrow> traffic_rtt \<times> int option" where
  "recordTrafficRTT mix d t =
     (let newVal = (if tr_nanos t = 0 then d else mix d (tr_nanos t)); count = tr_count t + 1 in
      (\<lparr>tr_nanos = newVal, tr_count = count\<rparr>, if count \<ge> trafficRTTMinSamples then Some newVal else None))"

definition TrafficRTT :: "traffic_rtt \<Rightarrow> int" where
  "TrafficRTT t = (if tr_count t < trafficRTTMinSamples then 0 else tr_nanos t)"

section \<open>The tunnel POST\<close>

text \<open>The dialer's state: the session token, the UDP relay if there is one (with its failure flag), and
  whether the hook for its failure is still to fire.\<close>

record TunnelDialer =
  td_token :: string
  td_udpRelay :: "bool option"
  td_onUDPFailed :: bool

datatype post_failure = SealFailed | PostTransport | PostReauth | PostHTTP nat | PostParse frame_error | PostPanic

text \<open>The environment of a POST: \<open>pe_send udp token body\<close> is the exchange over the relay or over TCP,
  \<open>pe_refresh\<close> the outcome of \<open>refreshToken\<close>, \<open>pe_nonce\<close> the nonce of the first and of the repeated POST.\<close>

record post_env =
  pe_send :: "bool \<Rightarrow> string \<Rightarrow> bytes \<Rightarrow> http_result"
  pe_refresh :: "string \<Rightarrow> reauth_result"
  pe_nonce :: "bool \<Rightarrow> bytes"

definition choose_transport :: "TunnelDialer \<Rightarrow> bool \<times> TunnelDialer" where
  "choose_transport td = (case td_udpRelay td of
     None \<Rightarrow> (False, td)
   | Some failed \<Rightarrow> if failed then (False, td\<lparr>td_onUDPFailed := False\<rparr>) else (True, td))"

function doPost ::
  "(bytes \<Rightarrow> bytes) \<Rightarrow> keyed_seal \<Rightarrow> keyed_open \<Rightarrow> post_env \<Rightarrow> bytes \<Rightarrow> bool \<Rightarrow> bool \<Rightarrow> TunnelDialer \<Rightarrow>
   (post_failure + bytes) \<times> TunnelDialer" where
  "doPost blake sealk openk env plaintext allowRetry retryOn404 td =
     (let token = td_token td; key = sessionKey blake token in
      case sealFrame sealk key (pe_nonce env allowRetry) plaintext of
        None \<Rightarrow> (Inl SealFailed, td)
      | Some body \<Rightarrow>
         (let (udp, td) = choose_transport td in
          case pe_send env udp token body of
            HttpErr \<Rightarrow> (Inl PostTransport, td)
          | HttpResp status raw \<Rightarrow>
              if allowRetry \<and> (status = 401 \<or> (status = 404 \<and> retryOn404)) then
                (case pe_refresh env token of
                   ReauthPanic \<Rightarrow> (Inl PostPanic, td)
                 | ReauthFailed \<Rightarrow> (Inl PostReauth, td)
                 | ReauthOK tok \<Rightarrow> doPost blake sealk openk env plaintext False retryOn404 (td\<lparr>td_token := tok\<rparr>))
              else if status \<noteq> 200 then (Inl (PostHTTP status), td)
              else (case parseResponse openk key raw of
                  None \<Rightarrow> (Inl PostPanic, td)
                | Some (Inl e) \<Rightarrow> (Inl (PostParse e), td)
                | Some (Inr data) \<Rightarrow> (Inr data, td))))"
  by pat_completeness auto
termination
  by (relation "measure (\<lambda>(blake, sealk, openk, env, plaintext, allowRetry, retryOn404, td). if allowRetry then 1 else 0)") auto

declare doPost.simps [simp del]

section \<open>Login in any order of arrival\<close>

lemma login_collect_token:
  "\<exists>t. Inr t \<in> set rs \<Longrightarrow> \<exists>t. Inr t \<in> set rs \<and> fst (login_collect rs hr ht) = Some t"
  by (induction rs hr ht rule: login_collect.induct) auto

lemma login_collect_none:
  "\<forall>t. Inr t \<notin> set rs \<Longrightarrow>
   login_collect rs hr ht = (None, hr \<or> Inl AuthRejected \<in> set rs, ht \<or> Inl AuthTransient \<in> set rs)"
  by (induction rs hr ht rule: login_collect.induct) auto

section \<open>The re-authentication loop ends\<close>

text \<open>The rounds a deadline still allows at time \<open>t\<close> when rounds are five seconds apart.\<close>

definition rounds_left :: "time \<Rightarrow> time \<Rightarrow> nat" where
  "rounds_left deadline t = (if t \<le> deadline then nat ((deadline - t) div (5 * second)) + 1 else 0)"

lemma rounds_left_step: "t + 5 * second \<le> t' \<Longrightarrow> t \<le> deadline \<Longrightarrow> rounds_left deadline t' < rounds_left deadline t"
proof -
  assume a: "t + 5 * second \<le> t'" "t \<le> deadline"
  then have "(deadline - t') div (5 * second) \<le> (deadline - t) div (5 * second) - 1"
    using zdiv_mono1 [of "deadline - t'" "deadline - t + (-1) * (5 * second)" "5 * second"] div_mult_self1 [of "5 * second" "deadline - t" "-1"] by simp
  moreover have "0 < (deadline - t) div (5 * second)" if "t' \<le> deadline"
    using a that by (subst pos_imp_zdiv_pos_iff) simp_all
  ultimately show ?thesis using a by (simp add: rounds_left_def)
qed

lemma rounds_left_mono: "t \<le> t' \<Longrightarrow> rounds_left deadline t' \<le> rounds_left deadline t"
  by (auto simp: rounds_left_def intro!: nat_mono zdiv_mono1)

definition reauth_rounds :: "time \<Rightarrow> time option \<Rightarrow> time \<Rightarrow> nat" where
  "reauth_rounds sd rd t = rounds_left sd t + (case rd of None \<Rightarrow> 37 | Some r \<Rightarrow> rounds_left r t)"

definition reauth_answer :: "bool \<Rightarrow> (reauth_result \<times> reauth_effect list) option \<Rightarrow> bool" where
  "reauth_answer warned res \<longleftrightarrow> (\<exists>r es. res = Some (r, es) \<and> r \<noteq> ReauthPanic \<and>
     (r = ReauthFailed \<longrightarrow> (\<exists>pre. es = pre @ [FatalHook]) \<and> (warned \<or> WarnHook \<in> set es)))"

lemma reauth_answer_prefix:
  "reauth_answer w res \<Longrightarrow> w \<Longrightarrow> warned \<or> WarnHook \<in> set eff \<Longrightarrow> reauth_answer warned (map_option (\<lambda>(r, es). (r, eff @ es)) res)"
  "reauth_answer warned res \<Longrightarrow> reauth_answer warned (map_option (\<lambda>(r, es). (r, eff @ es)) res)"
  by (fastforce simp: reauth_answer_def)+

lemma reauth_answer_final:
  "reauth_answer warned (Some (ReauthOK t, es))"
  "warned \<or> WarnHook \<in> set eff \<Longrightarrow> reauth_answer warned (Some (ReauthFailed, eff @ [FatalHook]))"
  by (auto simp: reauth_answer_def)

lemma reauth_loop_ends:
  assumes "\<forall>k. rr_now (obs k) + 5 * second \<le> rr_now (obs (Suc k))"
    and "\<forall>k tok. rr_login (obs k) = Inr tok \<longrightarrow> 8 \<le> length tok"
  shows "reauth_rounds sd rd (rr_now (obs k)) < fuel \<Longrightarrow> reauth_answer warned (reauth_loop fuel obs k bad sd rd backoff warned)"
proof (induction fuel arbitrary: k rd backoff warned)
  case (Suc fuel)
  let ?now = "rr_now (obs k)" and ?next = "rr_now (obs (Suc k))"
  have nxt: "?now + 5 * second \<le> ?next" using assms(1) by blast
  show ?case
  proof (cases "rr_login (obs k)")
    case (Inr tok)
    then show ?thesis using assms(2) by (auto simp: reauth_answer_def not_less)
  next
    case (Inl err)
    show ?thesis
    proof (cases "isAuthRejection (Some err)")
      case True
      define rd' where "rd' = (case rd of None \<Rightarrow> ?now + authRejectWindow | Some t \<Rightarrow> t)"
      have "reauth_rounds sd (Some rd') ?next < fuel" if le: "?now \<le> rd'"
      proof (cases rd)
        case None
        then have "rounds_left rd' ?next \<le> rounds_left (?now + authRejectWindow) (?now + 5 * second)"
          using nxt by (simp add: rd'_def rounds_left_mono)
        also have "\<dots> = 36" by (simp add: rounds_left_def authRejectWindow_def)
        finally show ?thesis using Suc.prems None rounds_left_mono [of ?now ?next sd] nxt by (simp add: reauth_rounds_def)
      next
        case (Some r)
        then show ?thesis using Suc.prems rounds_left_step [OF nxt, of r] le rounds_left_mono [of ?now ?next sd] nxt
          by (simp add: reauth_rounds_def rd'_def)
      qed
      then have "reauth_answer True (reauth_loop fuel obs (Suc k) bad sd (Some rd') b' True)" if "?now \<le> rd'" for b'
        using Suc.IH that by blast
      then show ?thesis using Inl True
        by (cases "rd' < ?now"; cases "rr_wake (obs k) = bad")
          (simp_all add: Let_def not_less reauth_answer_final reauth_answer_prefix(1) [where w = True] flip: rd'_def)
    next
      case False
      have "reauth_rounds sd rd ?next < fuel" if "?now \<le> sd"
        using Suc.prems rounds_left_step [OF nxt that] rounds_left_mono [of ?now ?next "the rd"] nxt
        by (cases rd) (simp_all add: reauth_rounds_def)
      then have "reauth_answer warned (reauth_loop fuel obs (Suc k) bad sd rd b' warned)" if "?now \<le> sd" for b'
        using Suc.IH that by blast
      then show ?thesis using Inl False
        by (cases "sd < ?now"; cases "rr_wake (obs k) = bad")
          (simp_all add: Let_def not_less reauth_answer_final reauth_answer_prefix(2) option.map_id)
    qed
  qed
qed simp

section \<open>One POST and its repetition\<close>

text \<open>A control that knows which tokens are valid: it refuses the others with 401, opens the frame under
  the key of the token it came with, and answers under the same key.\<close>

definition control ::
  "(bytes \<Rightarrow> bytes) \<Rightarrow> keyed_seal \<Rightarrow> keyed_open \<Rightarrow> (string \<Rightarrow> bool) \<Rightarrow> (bytes \<Rightarrow> bytes) \<Rightarrow> bytes \<Rightarrow> bytes \<Rightarrow>
   bool \<Rightarrow> string \<Rightarrow> bytes \<Rightarrow> http_result" where
  "control blake sealk openk valid handler rnd nonce udp token body =
     (let key = sessionKey blake token in
      if \<not> valid token then HttpResp 401 []
      else (case openFrame openk key body of
          Some (Inr plain) \<Rightarrow> (case buildUploadResponse sealk key (handler plain) rnd nonce of
              Some (Some resp) \<Rightarrow> HttpResp 200 resp
            | _ \<Rightarrow> HttpResp 500 [])
        | _ \<Rightarrow> HttpResp 404 []))"

lemma choose_transport_token: "choose_transport td = (udp, td') \<Longrightarrow> td_token td' = td_token td"
  by (auto simp: choose_transport_def split: option.splits if_splits)

lemma doPost_valid:
  assumes "\<forall>t. length (blake t) = KeySize" "\<forall>key. aead (sealk key) (openk key)"
    and "\<forall>b. length (pe_nonce env b) = NonceSize" "length nonce = NonceSize"
    and "pe_send env = control blake sealk openk valid handler rnd nonce"
    and "length (handler plain) < 4294967296" "minPadding \<le> length rnd + length (handler plain)"
    and "valid (td_token td)"
  shows "\<exists>td'. doPost blake sealk openk env plain allowRetry retryOn404 td = (Inr (handler plain), td') \<and> td_token td' = td_token td"
proof -
  define key where "key = sessionKey blake (td_token td)"
  have k: "length key = KeySize" using assms(1) by (simp add: key_def sessionKey_def)
  obtain body where b: "sealFrame sealk key (pe_nonce env allowRetry) plain = Some body"
    using k by (simp add: sealFrame_def)
  obtain udp td' where ct: "choose_transport td = (udp, td')" by fastforce
  have o: "openFrame openk key body = Some (Inr plain)"
    using openFrame_seal [of sealk key openk] assms(2,3) k b by blast
  obtain resp where r: "buildUploadResponse sealk key (handler plain) rnd nonce = Some (Some resp)"
    "parseResponse openk key resp = Some (Inr (handler plain))"
    using parse_buildResponse [of sealk key openk nonce "handler plain" rnd] assms k by auto
  have "pe_send env udp (td_token td) body = HttpResp 200 resp"
    using assms(5,8) o r(1) by (simp add: control_def Let_def flip: key_def)
  then show ?thesis using b ct r(2) choose_transport_token [OF ct]
    by (subst doPost.simps) (simp add: Let_def flip: key_def)
qed

section \<open>Properties\<close>

text \<open>Property C3. An expired session is renewed under the caller. Against a control that refuses unknown
  tokens and answers valid ones under the token's own key, a POST that may retry delivers the
  control's answer, with a valid token at once, with an expired one after exactly one
  re-authentication; the repeated POST uses the new token for both the header and the key.\<close>

theorem post_renews_session:
  assumes "\<forall>t. length (blake t) = KeySize" "\<forall>key. aead (sealk key) (openk key)"
    and "\<forall>b. length (pe_nonce env b) = NonceSize" "length nonce = NonceSize"
    and "pe_send env = control blake sealk openk valid handler rnd nonce"
    and "length (handler plain) < 4294967296" "minPadding \<le> length rnd + length (handler plain)"
    and "valid (td_token td) \<or> (pe_refresh env (td_token td) = ReauthOK tok \<and> valid tok)"
  shows "\<exists>td'. doPost blake sealk openk env plain True retryOn404 td = (Inr (handler plain), td') \<and>
    td_token td' = (if valid (td_token td) then td_token td else tok)"
proof (cases "valid (td_token td)")
  case True
  with doPost_valid [OF assms(1-7), of td] show ?thesis by simp
next
  case False
  obtain udp td1 where ct: "choose_transport td = (udp, td1)" by fastforce
  obtain body where b: "sealFrame sealk (sessionKey blake (td_token td)) (pe_nonce env True) plain = Some body"
    using assms(1) by (simp add: sealFrame_def sessionKey_def)
  have "pe_send env udp (td_token td) body = HttpResp 401 []" using assms(5) False by (simp add: control_def Let_def)
  then have "doPost blake sealk openk env plain True retryOn404 td =
      doPost blake sealk openk env plain False retryOn404 (td1\<lparr>td_token := tok\<rparr>)"
    using b ct assms(8) False by (subst doPost.simps) (simp add: Let_def)
  with doPost_valid [OF assms(1-7), of "td1\<lparr>td_token := tok\<rparr>" False retryOn404] assms(8) False show ?thesis by simp
qed

theorem post_renews_session_witness:
  "\<exists>td'. doPost (\<lambda>_. replicate 32 0) toy_sealk toy_openk
      \<lparr>pe_send = control (\<lambda>_. replicate 32 0) toy_sealk toy_openk (\<lambda>t. t = ''new'') (\<lambda>p. p @ p) (replicate 512 0) (replicate 12 0),
       pe_refresh = (\<lambda>_. ReauthOK ''new''), pe_nonce = (\<lambda>_. replicate 12 0)\<rparr>
      [1, 2] True False \<lparr>td_token = ''old'', td_udpRelay = Some True, td_onUDPFailed = True\<rparr> = (Inr [1, 2, 1, 2], td') \<and>
    td_token td' = ''new''"
  using post_renews_session [of "\<lambda>_. replicate 32 0" toy_sealk toy_openk
      "\<lparr>pe_send = control (\<lambda>_. replicate 32 0) toy_sealk toy_openk (\<lambda>t. t = ''new'') (\<lambda>p. p @ p) (replicate 512 0) (replicate 12 0),
       pe_refresh = (\<lambda>_. ReauthOK ''new''), pe_nonce = (\<lambda>_. replicate 12 0)\<rparr>" "replicate 12 0" "\<lambda>t. t = ''new''"
      "\<lambda>p. p @ p" "replicate 512 0" "[1, 2]" "\<lparr>td_token = ''old'', td_udpRelay = Some True, td_onUDPFailed = True\<rparr>" "''new''" False]
    toy_aead
  by (simp add: KeySize_def NonceSize_def minPadding_def)

text \<open>Property C29. Re-authentication always comes to an end. Since rounds are at least five seconds apart,
  within 2,200 rounds the loop has obtained a token or given up, whatever mixture of rejections and
  outages the logins report; and when it gives up, it has warned the user and raised the fatal hook
  last.\<close>

theorem reauth_terminates:
  assumes "\<forall>k. rr_now (obs k) + 5 * second \<le> rr_now (obs (Suc k))" "start \<le> rr_now (obs 0)"
    and "\<forall>k tok. rr_login (obs k) = Inr tok \<longrightarrow> 8 \<le> length tok" "8 \<le> length badToken"
  shows "\<exists>r es. refreshToken 2200 obs start token badToken = Some (r, es) \<and> r \<noteq> ReauthPanic \<and>
    (r = ReauthFailed \<longrightarrow> (\<exists>pre. es = pre @ [FatalHook]) \<and> WarnHook \<in> set es)"
proof -
  have "rounds_left (start + serverErrorWindow) (rr_now (obs 0)) \<le> rounds_left (start + serverErrorWindow) start"
    using assms(2) by (rule rounds_left_mono)
  also have "\<dots> = 2161" by (simp add: rounds_left_def serverErrorWindow_def)
  finally have "reauth_rounds (start + serverErrorWindow) None (rr_now (obs 0)) < 2200" by (simp add: reauth_rounds_def)
  from reauth_loop_ends [OF assms(1,3) this, of False badToken reauth_backoff0] show ?thesis
    using assms(4) by (auto simp: refreshToken_def reauth_answer_def)
qed

theorem reauth_terminates_witness:
  "\<exists>r es. refreshToken 2200 (\<lambda>k. \<lparr>rr_login = Inl ''refused'', rr_now = int k * (40 * second), rr_wake = ''expired!''\<rparr>) 0
     ''expired!'' ''expired!'' = Some (r, es) \<and> r \<noteq> ReauthPanic"
  using reauth_terminates [of "\<lambda>k. \<lparr>rr_login = Inl ''refused'', rr_now = int k * (40 * second), rr_wake = ''expired!''\<rparr>" 0 "''expired!''" "''expired!''"]
  by auto

text \<open>The outcome of a login does not depend on which attempt answers first: it succeeds if some
  attempt brought a token, or if only transient failures came back and the control's cache had one;
  otherwise the error is a rejection if there was one, transient if there was such a failure, and
  the authenticator keeps its old token.\<close>

lemma login_outcome:
  assumes "login_attempts a \<noteq> 0"
  shows "(fst (Login results cached a) = None \<longleftrightarrow> (\<exists>t. Inr t \<in> set results) \<or>
      (Inl AuthTransient \<in> set results \<and> Inl AuthRejected \<notin> set results \<and> cached \<noteq> None)) \<and>
    (fst (Login results cached a) = None \<longrightarrow>
      (\<exists>t. (Inr t \<in> set results \<or> cached = Some t) \<and> snd (Login results cached a) = a\<lparr>au_token := t\<rparr>)) \<and>
    (\<forall>e. fst (Login results cached a) = Some e \<longrightarrow> snd (Login results cached a) = a \<and>
      e = (if Inl AuthRejected \<in> set results then AuthRejected
           else if Inl AuthTransient \<in> set results then AuthTransient else AuthOther))"
proof (cases "\<exists>t. Inr t \<in> set results")
  case True
  then obtain t x where t: "Inr t \<in> set results" "login_collect results False False = (Some t, x)"
    using login_collect_token by (metis prod.collapse)
  then show ?thesis using assms by (auto simp: Login_def)
next
  case False
  then show ?thesis using assms login_collect_none [of results False False]
    by (auto simp: Login_def split: option.splits)
qed

text \<open>The same answer of the control, an outage flagged as transient, is classified as
  transient by both logins over HTTP, but as a rejection by the login over the UDP relay, which does
  not look at the status.\<close>

lemma udp_login_rejects_on_outage:
  assumes "probe raw" "parseU raw = Some []"
  shows "fst (doKeyAuth probe parseK (HttpResp 503 raw) a) = Inl AuthTransient \<and>
    doPasswordAuth probe parseP (HttpResp 503 raw) = Inl AuthTransient \<and>
    sendAuthViaUDP parseU (HttpResp 503 raw) = Inl AuthRejected"
  using assms by (simp add: doKeyAuth_def doPasswordAuth_def sendAuthViaUDP_def classifyAuthError_def)

end
