(* ===== verification/Tunnel_Conn.thy ===== *)
theory Tunnel_Conn
  imports Tunnel_Auth "HOL-Library.Multiset"
begin

text \<open>
  A tunnel connection (\<^verbatim>\<open>session.go\<close>): reads and writes over the state shared with the background
  goroutines, as steps that interleave, and the loop that keeps the streaming response open, as a
  step relation.
\<close>

section \<open>Reading and writing\<close>

text \<open>The state: the sequence counter, the local read buffer, the chunks waiting in \<open>dataChan\<close>
  (\<^term>\<open>None\<close> in polling mode), whether that channel and the connection are closed, the first error of
  a pipelined send, and the sends in flight. \<open>tc_pipeWidth\<close> is zero in synchronous mode.\<close>

record TunnelConn =
  tc_seq :: nat
  tc_readBuf :: bytes
  tc_dataChan :: "bytes list option"
  tc_chanClosed :: bool
  tc_closed :: bool
  tc_pipeErr :: bool
  tc_pipeWidth :: nat
  tc_inflight :: "(nat \<times> bytes) list"

definition ChanDepth :: nat where "ChanDepth = 64"
definition tunnelPipelineWidth :: nat where "tunnelPipelineWidth = 8"

definition newTunnelConn :: "bool \<Rightarrow> nat \<Rightarrow> TunnelConn" where
  "newTunnelConn streaming pipeWidth =
     \<lparr>tc_seq = 0, tc_readBuf = [], tc_dataChan = (if streaming then Some [] else None), tc_chanClosed = False,
      tc_closed = False, tc_pipeErr = False, tc_pipeWidth = (if streaming then pipeWidth else 0), tc_inflight = []\<rparr>"

text \<open>What \<open>Dial\<close> does after the probe: buffer the first answer and continue with sequence number 1.\<close>

definition tc_established :: "bytes \<Rightarrow> TunnelConn \<Rightarrow> TunnelConn" where
  "tc_established resp c = c\<lparr>tc_readBuf := tc_readBuf c @ resp, tc_seq := 1\<rparr>"

datatype io_error = ErrClosed | ErrSend | WouldBlock

text \<open>A pipelined \<open>Write\<close>: it blocks while all slots are taken.\<close>

definition tc_Write_pipe :: "bytes \<Rightarrow> TunnelConn \<Rightarrow> (io_error + nat) \<times> TunnelConn" where
  "tc_Write_pipe p c =
     (if tc_pipeErr c then (Inl ErrSend, c)
      else if tc_closed c then (Inl ErrClosed, c)
      else if length (tc_inflight c) \<ge> tc_pipeWidth c then (Inl WouldBlock, c)
      else (Inr (length p), c\<lparr>tc_seq := tc_seq c + 1, tc_inflight := tc_inflight c @ [(tc_seq c, p)]\<rparr>))"

text \<open>The goroutine of send \<open>seq\<close> finishes and frees its slot.\<close>

definition tc_pipe_done :: "nat \<Rightarrow> bool \<Rightarrow> TunnelConn \<Rightarrow> TunnelConn" where
  "tc_pipe_done seq ok c =
     c\<lparr>tc_inflight := filter (\<lambda>(s, _). s \<noteq> seq) (tc_inflight c), tc_pipeErr := (tc_pipeErr c \<or> \<not> ok)\<rparr>"

text \<open>A synchronous \<open>Write\<close> with the answer of \<open>send\<close>.\<close>

definition tc_Write_sync :: "bytes \<Rightarrow> bytes option \<Rightarrow> TunnelConn \<Rightarrow> (io_error + nat) \<times> TunnelConn" where
  "tc_Write_sync p answer c =
     (if tc_pipeErr c then (Inl ErrSend, c)
      else if tc_closed c then (Inl ErrClosed, c)
      else (let c = c\<lparr>tc_seq := tc_seq c + 1\<rparr> in
        case answer of
          None \<Rightarrow> (Inl ErrSend, c)
        | Some resp \<Rightarrow> (Inr (length p), c\<lparr>tc_readBuf := tc_readBuf c @ resp\<rparr>)))"

text \<open>\<open>Read\<close> with a buffer of \<open>n\<close> bytes, streaming mode. When the connection is closed and a chunk is
  waiting, \<^verbatim>\<open>select\<close> takes either; \<open>pickClosed\<close> is its choice.\<close>

definition tc_Read :: "bool \<Rightarrow> nat \<Rightarrow> TunnelConn \<Rightarrow> (io_error + bytes) \<times> TunnelConn" where
  "tc_Read pickClosed n c =
     (if tc_readBuf c \<noteq> [] then (Inr (take n (tc_readBuf c)), c\<lparr>tc_readBuf := drop n (tc_readBuf c)\<rparr>)
      else if tc_closed c \<and> pickClosed then (Inl ErrClosed, c)
      else (case tc_dataChan c of
          None \<Rightarrow> (Inl WouldBlock, c)
        | Some (chunk # rest) \<Rightarrow> (Inr (take n chunk), c\<lparr>tc_dataChan := Some rest, tc_readBuf := drop n chunk\<rparr>)
        | Some [] \<Rightarrow> (Inl (if tc_chanClosed c \<or> tc_closed c then ErrClosed else WouldBlock), c)))"

text \<open>Polling \<open>Read\<close>: empty POSTs with the given answers until one brings data.\<close>

fun tc_poll :: "nat \<Rightarrow> bytes option list \<Rightarrow> TunnelConn \<Rightarrow> (io_error + bytes) \<times> TunnelConn" where
  "tc_poll n answers c =
     (if tc_readBuf c \<noteq> [] then (Inr (take n (tc_readBuf c)), c\<lparr>tc_readBuf := drop n (tc_readBuf c)\<rparr>)
      else if tc_closed c then (Inl ErrClosed, c)
      else (case answers of
          [] \<Rightarrow> (Inl WouldBlock, c)
        | None # _ \<Rightarrow> (Inl ErrSend, c\<lparr>tc_seq := tc_seq c + 1\<rparr>)
        | Some resp # as \<Rightarrow>
            if resp = [] then tc_poll n as (c\<lparr>tc_seq := tc_seq c + 1\<rparr>)
            else (Inr (take n resp), c\<lparr>tc_seq := tc_seq c + 1, tc_readBuf := drop n resp\<rparr>)))"

text \<open>The stream goroutine pushes a chunk, if there is room; \<open>Close\<close> sends one final empty request.\<close>

definition tc_push :: "bytes \<Rightarrow> TunnelConn \<Rightarrow> TunnelConn option" where
  "tc_push chunk c = (case tc_dataChan c of
     None \<Rightarrow> None
   | Some ch \<Rightarrow> if tc_closed c \<or> tc_chanClosed c \<or> length ch \<ge> ChanDepth then None
               else Some (c\<lparr>tc_dataChan := Some (ch @ [chunk])\<rparr>))"

definition tc_Close :: "TunnelConn \<Rightarrow> TunnelConn" where
  "tc_Close c = (if tc_closed c then c else c\<lparr>tc_closed := True, tc_seq := tc_seq c + 1\<rparr>)"

definition tc_closeChan :: "TunnelConn \<Rightarrow> TunnelConn" where "tc_closeChan c = c\<lparr>tc_chanClosed := True\<rparr>"

section \<open>The stream loop\<close>

definition streamMinLifetime :: int where "streamMinLifetime = second"
definition streamMaxFlaps :: nat where "streamMaxFlaps = 5"
definition streamMaxOpenErrors :: nat where "streamMaxOpenErrors = 5"
definition maxRenewals :: nat where "maxRenewals = 3"

datatype loop_status = Running | Shutdown | GaveUp bool

text \<open>The loop's counters, the renewals its callback has granted, the calls of \<open>recordStreamDead\<close> so far,
  and the chunks delivered.\<close>

record stream_loop =
  sl_status :: loop_status
  sl_openErrors :: nat
  sl_flaps :: nat
  sl_renewals :: nat
  sl_deaths :: nat
  sl_delivered :: "bytes list"

definition stream_loop0 :: stream_loop where
  "stream_loop0 = \<lparr>sl_status = Running, sl_openErrors = 0, sl_flaps = 0, sl_renewals = 0, sl_deaths = 0, sl_delivered = []\<rparr>"

text \<open>What one round meets: the connection is closed, opening fails with 404 or otherwise, or a stream is
  opened, delivers chunks and ends after some time, or is cut because the connection is closed.\<close>

datatype stream_event = ConnClosed | OpenNotFound | OpenError | StreamEnded "bytes list" int | StreamCut "bytes list"

text \<open>\<open>tryRenew\<close> with the callback that \<open>Dial\<close> installs, or the end of the loop with its report.\<close>

definition tryRenew :: "stream_loop \<Rightarrow> stream_loop option" where
  "tryRenew l = (if sl_renewals l \<ge> maxRenewals then None
     else Some (l\<lparr>sl_renewals := sl_renewals l + 1, sl_deaths := sl_deaths l + 1, sl_openErrors := 0, sl_flaps := 0\<rparr>))"

definition renew_or_give_up :: "stream_loop \<Rightarrow> stream_loop" where
  "renew_or_give_up l = (case tryRenew l of
     Some l' \<Rightarrow> l'
   | None \<Rightarrow> l\<lparr>sl_status := GaveUp True, sl_deaths := sl_deaths l + 1\<rparr>)"

inductive stream_step :: "stream_loop \<Rightarrow> stream_event \<Rightarrow> stream_loop \<Rightarrow> bool" where
  closed: "sl_status l = Running \<Longrightarrow> stream_step l ConnClosed (l\<lparr>sl_status := Shutdown\<rparr>)"
| not_found: "sl_status l = Running \<Longrightarrow> stream_step l OpenNotFound (l\<lparr>sl_status := GaveUp False\<rparr>)"
| open_retry: "sl_status l = Running \<Longrightarrow> sl_openErrors l + 1 < streamMaxOpenErrors \<Longrightarrow>
    stream_step l OpenError (l\<lparr>sl_openErrors := sl_openErrors l + 1, sl_flaps := 0\<rparr>)"
| open_exhausted: "sl_status l = Running \<Longrightarrow> sl_openErrors l + 1 \<ge> streamMaxOpenErrors \<Longrightarrow>
    stream_step l OpenError (renew_or_give_up (l\<lparr>sl_openErrors := sl_openErrors l + 1, sl_flaps := 0\<rparr>))"
| stable: "sl_status l = Running \<Longrightarrow> lifetime \<ge> streamMinLifetime \<Longrightarrow>
    stream_step l (StreamEnded chunks lifetime)
      (l\<lparr>sl_openErrors := 0, sl_flaps := 0, sl_delivered := sl_delivered l @ chunks\<rparr>)"
| flap_retry: "sl_status l = Running \<Longrightarrow> lifetime < streamMinLifetime \<Longrightarrow> sl_flaps l + 1 < streamMaxFlaps \<Longrightarrow>
    stream_step l (StreamEnded chunks lifetime)
      (l\<lparr>sl_openErrors := 0, sl_flaps := sl_flaps l + 1, sl_delivered := sl_delivered l @ chunks\<rparr>)"
| flap_exhausted: "sl_status l = Running \<Longrightarrow> lifetime < streamMinLifetime \<Longrightarrow> sl_flaps l + 1 \<ge> streamMaxFlaps \<Longrightarrow>
    stream_step l (StreamEnded chunks lifetime)
      (renew_or_give_up (l\<lparr>sl_openErrors := 0, sl_flaps := sl_flaps l + 1, sl_delivered := sl_delivered l @ chunks\<rparr>))"
| cut: "sl_status l = Running \<Longrightarrow>
    stream_step l (StreamCut chunks) (l\<lparr>sl_status := Shutdown, sl_delivered := sl_delivered l @ chunks\<rparr>)"

inductive stream_run :: "stream_loop \<Rightarrow> stream_event list \<Rightarrow> stream_loop \<Rightarrow> bool" where
  run_Nil: "stream_run l [] l"
| run_Cons: "stream_step l e l' \<Longrightarrow> stream_run l' es l'' \<Longrightarrow> stream_run l (e # es) l''"

inductive_cases stream_runE: "stream_run l (e # es) l''"
inductive_cases stream_run_NilE: "stream_run l [] l'"
inductive_simps stream_step_OpenError: "stream_step l OpenError l'"
inductive_simps stream_step_Ended: "stream_step l (StreamEnded chunks lifetime) l'"
inductive_simps stream_run_simps: "stream_run l [] l'" "stream_run l (e # es) l''"

section \<open>Interleavings\<close>

text \<open>The steps of a streaming connection in any order, with what they read, pushed, accepted and sent.\<close>

datatype conn_op = OpPush bytes | OpRead bool nat | OpWrite bytes | OpDone nat bool | OpClose | OpCloseChan

record conn_trace =
  ct_read :: bytes
  ct_pushed :: bytes
  ct_sent :: "(nat \<times> bytes) list"
  ct_written :: bytes

fun conn_step :: "conn_op \<Rightarrow> TunnelConn \<times> conn_trace \<Rightarrow> TunnelConn \<times> conn_trace" where
  "conn_step (OpPush chunk) (c, t) = (case tc_push chunk c of
     None \<Rightarrow> (c, t) | Some c' \<Rightarrow> (c', t\<lparr>ct_pushed := ct_pushed t @ chunk\<rparr>))"
| "conn_step (OpRead pick n) (c, t) = (case tc_Read pick n c of
     (Inl _, c') \<Rightarrow> (c', t) | (Inr out, c') \<Rightarrow> (c', t\<lparr>ct_read := ct_read t @ out\<rparr>))"
| "conn_step (OpWrite p) (c, t) = (case tc_Write_pipe p c of
     (Inl _, c') \<Rightarrow> (c', t)
   | (Inr _, c') \<Rightarrow> (c', t\<lparr>ct_sent := ct_sent t @ [(tc_seq c, p)], ct_written := ct_written t @ p\<rparr>))"
| "conn_step (OpDone seq ok) (c, t) = (tc_pipe_done seq ok c, t)"
| "conn_step OpClose (c, t) = (tc_Close c, t)"
| "conn_step OpCloseChan (c, t) = (tc_closeChan c, t)"

definition conn_start :: "nat \<Rightarrow> bytes \<Rightarrow> TunnelConn \<times> conn_trace" where
  "conn_start w resp = (tc_established resp (newTunnelConn True w), \<lparr>ct_read = [], ct_pushed = resp, ct_sent = [], ct_written = []\<rparr>)"

definition numbered :: "(nat \<times> bytes) list \<Rightarrow> bool" where
  "numbered xs \<longleftrightarrow> map fst xs = [1..<Suc (length xs)]"

lemma numbered_Nil: "numbered []"
  by (simp add: numbered_def)

lemma numbered_snoc: "numbered xs \<Longrightarrow> n = Suc (length xs) \<Longrightarrow> numbered (xs @ [(n, p)])"
  by (simp add: numbered_def)

definition inbound_inv :: "TunnelConn \<Rightarrow> conn_trace \<Rightarrow> bool" where
  "inbound_inv c t \<longleftrightarrow>
     (\<exists>ch. tc_dataChan c = Some ch \<and> ct_pushed t = ct_read t @ tc_readBuf c @ concat ch \<and> length ch \<le> ChanDepth)"

definition outbound_inv :: "nat \<Rightarrow> TunnelConn \<Rightarrow> conn_trace \<Rightarrow> bool" where
  "outbound_inv w c t \<longleftrightarrow> numbered (ct_sent t) \<and> ct_written t = concat (map snd (ct_sent t)) \<and>
     (tc_closed c \<or> tc_seq c = Suc (length (ct_sent t))) \<and> tc_pipeWidth c = w \<and> length (tc_inflight c) \<le> w"

lemmas conn_ops = tc_push_def tc_Read_def tc_Write_pipe_def tc_pipe_done_def tc_Close_def tc_closeChan_def

lemma conn_start_inv: "conn_start w resp = (c, t) \<Longrightarrow> inbound_inv c t \<and> outbound_inv w c t"
  by (auto simp: inbound_inv_def outbound_inv_def conn_start_def tc_established_def newTunnelConn_def numbered_Nil)

lemma inbound_step: "conn_step a (c, t) = (c', t') \<Longrightarrow> inbound_inv c t \<Longrightarrow> inbound_inv c' t'"
  by (cases a) (auto simp: inbound_inv_def conn_ops not_le split: if_splits option.splits list.splits)

lemma outbound_step: "conn_step a (c, t) = (c', t') \<Longrightarrow> outbound_inv w c t \<Longrightarrow> outbound_inv w c' t'"
  by (cases a) (auto simp: outbound_inv_def conn_ops numbered_snoc split: if_splits option.splits list.splits
      intro: le_trans [OF length_filter_le])

lemma conn_run_inv:
  "inbound_inv (fst s) (snd s) \<Longrightarrow> outbound_inv w (fst s) (snd s) \<Longrightarrow>
   inbound_inv (fst (fold conn_step ops s)) (snd (fold conn_step ops s)) \<and>
   outbound_inv w (fst (fold conn_step ops s)) (snd (fold conn_step ops s))"
proof (induction ops arbitrary: s)
  case (Cons a ops)
  obtain c t c' t' where s: "s = (c, t)" "conn_step a (c, t) = (c', t')" by (metis surj_pair)
  then have "inbound_inv c' t'" "outbound_inv w c' t'" using Cons.prems inbound_step outbound_step by auto
  with Cons.IH [of "(c', t')"] s show ?case by simp
qed simp

text \<open>Numbered sends arrive in some order; ordered by number they are the original sequence.\<close>

lemma sort_numbered:
  assumes "mset ys = mset xs" "sorted (map fst xs)" "distinct (map fst xs)"
  shows "sort_key fst ys = xs"
proof (rule properties_for_sort_key)
  show "mset xs = mset ys" using assms(1) by simp
  show "sorted (map fst xs)" by (rule assms(2))
  fix k assume k: "k \<in> set xs"
  have one: "filter (\<lambda>x. fst k = fst x) zs = [k]" if "distinct (map fst zs)" "k \<in> set zs" for zs
    using that by (induction zs) (auto simp: filter_empty_conv image_iff)
  have "distinct (map fst ys)" using assms(1,3) mset_eq_imp_distinct_iff [of "map fst ys" "map fst xs"] by simp
  then show "filter (\<lambda>x. fst k = fst x) xs = filter (\<lambda>x. fst k = fst x) ys"
    using one [OF assms(3) k] one [of ys] k mset_eq_setD [OF assms(1)] by simp
qed

section \<open>Properties of the stream loop\<close>

definition loop_inv :: "stream_loop \<Rightarrow> bool" where
  "loop_inv l \<longleftrightarrow> sl_renewals l \<le> maxRenewals \<and>
     sl_deaths l = sl_renewals l + (if sl_status l = GaveUp True then 1 else 0) \<and>
     (sl_status l = GaveUp True \<longrightarrow> sl_renewals l = maxRenewals) \<and>
     (sl_status l = Running \<longrightarrow> sl_openErrors l < streamMaxOpenErrors \<and> sl_flaps l < streamMaxFlaps)"

lemma loop_inv_step: "stream_step l e l' \<Longrightarrow> loop_inv l \<Longrightarrow> loop_inv l'"
  by (induction rule: stream_step.induct)
    (auto simp: loop_inv_def renew_or_give_up_def tryRenew_def streamMaxOpenErrors_def streamMaxFlaps_def maxRenewals_def
      split: if_splits)

lemma loop_inv_run: "stream_run l es l' \<Longrightarrow> loop_inv l \<Longrightarrow> loop_inv l'"
  by (induction rule: stream_run.induct) (auto intro: loop_inv_step)

lemma stream_step_progress: "sl_status l = Running \<Longrightarrow> \<exists>l'. stream_step l e l'"
proof (cases e)
  case OpenError
  assume "sl_status l = Running"
  then show ?thesis using OpenError
    by (cases "sl_openErrors l + 1 < streamMaxOpenErrors") (metis open_retry, metis not_less open_exhausted)
next
  case (StreamEnded chunks lifetime)
  assume "sl_status l = Running"
  then show ?thesis using StreamEnded
    by (cases "lifetime < streamMinLifetime"; cases "sl_flaps l + 1 < streamMaxFlaps")
      (metis flap_retry, metis not_less flap_exhausted, (metis not_less stable)+)
qed (auto intro: stream_step.intros)

lemma stream_step_deterministic: "stream_step l e l1 \<Longrightarrow> stream_step l e l2 \<Longrightarrow> l1 = l2"
  by (induction rule: stream_step.induct) (auto elim: stream_step.cases)

lemma stream_run_deterministic: "stream_run l es l1 \<Longrightarrow> stream_run l es l2 \<Longrightarrow> l1 = l2"
proof (induction arbitrary: l2 rule: stream_run.induct)
  case (run_Nil l)
  then show ?case by (auto elim: stream_run_NilE)
next
  case (run_Cons l e l' es l'')
  from run_Cons.prems obtain l3 where "stream_step l e l3" "stream_run l3 es l2" by (rule stream_runE)
  with run_Cons.IH stream_step_deterministic [OF run_Cons.hyps(1)] show ?case by blast
qed

text \<open>The failures of one kind a running loop can still take.\<close>

definition open_budget :: "stream_loop \<Rightarrow> nat" where
  "open_budget l = (streamMaxOpenErrors - sl_openErrors l) + streamMaxOpenErrors * (maxRenewals - sl_renewals l)"

lemma open_budget_pos: "loop_inv l \<Longrightarrow> sl_status l = Running \<Longrightarrow> 0 < open_budget l"
  by (simp add: loop_inv_def open_budget_def)

lemma open_budget_step:
  assumes "stream_step l OpenError l'" "loop_inv l" "sl_status l = Running"
  shows "(sl_status l' = Running \<and> open_budget l' + 1 = open_budget l) \<or> (sl_status l' = GaveUp True \<and> open_budget l = 1)"
  using assms
  by (auto simp: stream_step_OpenError loop_inv_def renew_or_give_up_def tryRenew_def open_budget_def
      streamMaxOpenErrors_def maxRenewals_def split: if_splits)

lemma open_errors_run:
  assumes "loop_inv l" "sl_status l = Running" "open_budget l = Suc n"
  shows "\<exists>l'. stream_run l (replicate (Suc n) OpenError) l' \<and> sl_status l' = GaveUp True"
  using assms
proof (induction n arbitrary: l)
  case 0
  obtain l' where st: "stream_step l OpenError l'" using stream_step_progress 0 by blast
  with open_budget_step [OF this] open_budget_pos [of l'] loop_inv_step [OF this] 0 have "sl_status l' = GaveUp True" by auto
  with st show ?case by (auto intro: stream_run.intros)
next
  case (Suc n)
  obtain l1 where st: "stream_step l OpenError l1" using stream_step_progress Suc by blast
  with open_budget_step [OF this] Suc.prems have "sl_status l1 = Running" "open_budget l1 = Suc n" by auto
  with Suc.IH [of l1] loop_inv_step [OF st] Suc.prems st show ?case by (auto intro: stream_run.intros)
qed

definition flap_budget :: "stream_loop \<Rightarrow> nat" where
  "flap_budget l = (streamMaxFlaps - sl_flaps l) + streamMaxFlaps * (maxRenewals - sl_renewals l)"

lemma flap_budget_pos: "loop_inv l \<Longrightarrow> sl_status l = Running \<Longrightarrow> 0 < flap_budget l"
  by (simp add: loop_inv_def flap_budget_def)

lemma flap_budget_step:
  assumes "stream_step l (StreamEnded [] 0) l'" "loop_inv l" "sl_status l = Running"
  shows "(sl_status l' = Running \<and> flap_budget l' + 1 = flap_budget l) \<or> (sl_status l' = GaveUp True \<and> flap_budget l = 1)"
  using assms
  by (auto simp: stream_step_Ended loop_inv_def renew_or_give_up_def tryRenew_def flap_budget_def streamMinLifetime_def
      streamMaxFlaps_def maxRenewals_def split: if_splits)

lemma flaps_run:
  assumes "loop_inv l" "sl_status l = Running" "flap_budget l = Suc n"
  shows "\<exists>l'. stream_run l (replicate (Suc n) (StreamEnded [] 0)) l' \<and> sl_status l' = GaveUp True"
  using assms
proof (induction n arbitrary: l)
  case 0
  obtain l' where st: "stream_step l (StreamEnded [] 0) l'" using stream_step_progress 0 by blast
  with flap_budget_step [OF this] flap_budget_pos [of l'] loop_inv_step [OF this] 0 have "sl_status l' = GaveUp True" by auto
  with st show ?case by (auto intro: stream_run.intros)
next
  case (Suc n)
  obtain l1 where st: "stream_step l (StreamEnded [] 0) l1" using stream_step_progress Suc by blast
  with flap_budget_step [OF this] Suc.prems have "sl_status l1 = Running" "flap_budget l1 = Suc n" by auto
  with Suc.IH [of l1] loop_inv_step [OF st] Suc.prems st show ?case by (auto intro: stream_run.intros)
qed

lemma loop_inv_start: "loop_inv stream_loop0"
  by (simp add: loop_inv_def stream_loop0_def streamMaxOpenErrors_def streamMaxFlaps_def)

lemma alternation_runs:
  assumes "sl_status l = Running" "sl_flaps l \<le> 1" "sl_openErrors l = 0"
  shows "\<exists>l'. stream_run l (concat (replicate n [OpenError, StreamEnded [] 0])) l' \<and> sl_status l' = Running \<and>
    sl_deaths l' = sl_deaths l"
  using assms
proof (induction n arbitrary: l)
  case 0
  then show ?case by (auto intro: stream_run.intros)
next
  case (Suc n)
  define l1 where "l1 = l\<lparr>sl_openErrors := 1, sl_flaps := 0\<rparr>"
  define l2 where "l2 = l1\<lparr>sl_openErrors := 0, sl_flaps := 1, sl_delivered := sl_delivered l1 @ []\<rparr>"
  have s1: "stream_step l OpenError l1"
    using open_retry [of l] Suc.prems by (simp add: l1_def streamMaxOpenErrors_def)
  have s2: "stream_step l1 (StreamEnded [] 0) l2"
    using flap_retry [of l1 0 "[]"] Suc.prems by (simp add: l1_def l2_def streamMaxFlaps_def streamMinLifetime_def)
  have "sl_status l2 = Running" "sl_flaps l2 \<le> 1" "sl_openErrors l2 = 0" "sl_deaths l2 = sl_deaths l"
    using Suc.prems by (simp_all add: l2_def l1_def)
  with Suc.IH [of l2] s1 s2 show ?case by (auto intro: stream_run.intros)
qed

section \<open>Properties\<close>





text \<open>Property C38. An alternating fault keeps the loop going for ever: each failure to open resets the count
  of short-lived streams and each opened stream resets the count of open errors, so that a path which
  fails to open and flaps in turn is never reported and never given up.\<close>

theorem stream_loop_alternation_never_ends:
  "\<exists>l. stream_run stream_loop0 (concat (replicate n [OpenError, StreamEnded [] 0])) l \<and> sl_status l = Running \<and> sl_deaths l = 0"
  using alternation_runs [of stream_loop0 n] by (simp add: stream_loop0_def)

end
