(* ===== verification/Host_Addr.thy ===== *)
theory Host_Addr
  imports IP_Addr
begin

text \<open>
  More of Go's \<^verbatim>\<open>net\<close> package: printing of addresses (\<^verbatim>\<open>IP.String\<close>, \<^verbatim>\<open>UDPAddr.String\<close>), the
  address classes, and the helpers the program uses to strip a port. An address is four or sixteen
  bytes; a zone is never set by this program.
\<close>

section \<open>Printing addresses\<close>

fun uhex :: "nat \<Rightarrow> string" where
  "uhex n = (if n < 16 then [hex_digit n] else uhex (n div 16) @ [hex_digit (n mod 16)])"

declare uhex.simps [simp del]

fun v6_groups :: "bytes \<Rightarrow> nat list" where
  "v6_groups (a # b # r) = (256 * unat a + unat b) # v6_groups r"
| "v6_groups _ = []"

definition zero_run :: "nat list \<Rightarrow> nat \<Rightarrow> nat" where
  "zero_run gs i = length (takeWhile (\<lambda>g. g = 0) (drop i gs))"

text \<open>The first longest run of at least two zero groups.\<close>

definition longest_run :: "nat list \<Rightarrow> (nat \<times> nat) option" where
  "longest_run gs = foldl (\<lambda>best i.
     let l = zero_run gs i in
     if l \<ge> 2 \<and> (case best of None \<Rightarrow> True | Some (s, e) \<Rightarrow> l > e - s) then Some (i, i + l) else best)
     None [0..<length gs]"

fun join_colon :: "string list \<Rightarrow> string" where
  "join_colon [] = []"
| "join_colon [s] = s"
| "join_colon (s # t # r) = s @ '':'' @ join_colon (t # r)"

definition v6_string :: "bytes \<Rightarrow> string" where
  "v6_string a = (let gs = v6_groups a in
     case longest_run gs of
       None \<Rightarrow> join_colon (map uhex gs)
     | Some (s, e) \<Rightarrow> join_colon (map uhex (take s gs)) @ ''::'' @ join_colon (map uhex (drop e gs)))"

definition IP_String :: "ip \<Rightarrow> string" where
  "IP_String a =
     (if a = [] then ''<nil>''
      else if length a \<noteq> 4 \<and> length a \<noteq> 16 then ''?'' @ hex_encode a
      else case To4 a of
        Some p \<Rightarrow> ipv4_string (p ! 0) (p ! 1) (p ! 2) (p ! 3)
      | None \<Rightarrow> v6_string a)"

definition To16 :: "ip \<Rightarrow> bytes option" where
  "To16 a = (if length a = 4 then Some (v4InV6Prefix @ a) else if length a = 16 then Some a else None)"

record UDPAddr =
  ua_IP :: ip
  ua_Port :: int

definition UDPAddr_String :: "UDPAddr \<Rightarrow> string" where
  "UDPAddr_String u = JoinHostPort (if ua_IP u = [] then [] else IP_String (ua_IP u)) (itoa (ua_Port u))"

section \<open>Classes of addresses\<close>

definition IsLoopback :: "ip \<Rightarrow> bool" where
  "IsLoopback a \<longleftrightarrow> (case To4 a of Some p \<Rightarrow> p ! 0 = 127 | None \<Rightarrow> a = replicate 15 0 @ [1])"

definition IsLinkLocalUnicast :: "ip \<Rightarrow> bool" where
  "IsLinkLocalUnicast a \<longleftrightarrow> (case To4 a of
     Some p \<Rightarrow> p ! 0 = 169 \<and> p ! 1 = 254
   | None \<Rightarrow> length a = 16 \<and> a ! 0 = 0xFE \<and> (a ! 1) AND 0xC0 = 0x80)"

definition IsPrivate :: "ip \<Rightarrow> bool" where
  "IsPrivate a \<longleftrightarrow> (case To4 a of
     Some p \<Rightarrow> p ! 0 = 10 \<or> (p ! 0 = 172 \<and> (p ! 1) AND 0xF0 = 16) \<or> (p ! 0 = 192 \<and> p ! 1 = 168)
   | None \<Rightarrow> length a = 16 \<and> (a ! 0) AND 0xFE = 0xFC)"

section \<open>Stripping the port\<close>

text \<open>The host of \<^verbatim>\<open>host:port\<close>, or the whole string when it has no port: the idiom of
  \<open>remoteHost\<close>, \<open>hostOnly\<close>, \<open>ShouldBypass\<close> and \<open>isLANAddress\<close>.\<close>

definition host_part :: "string \<Rightarrow> string" where
  "host_part addr = (case SplitHostPort addr of None \<Rightarrow> addr | Some (h, p) \<Rightarrow> h)"

definition ParseUint16 :: "string \<Rightarrow> nat option" where
  "ParseUint16 s = (if s = [] \<or> \<not> list_all is_digit s \<or> atou s > 65535 then None else Some (atou s))"

section \<open>Facts\<close>

lemma last_index_None: "c \<notin> set s \<Longrightarrow> last_index c s = None"
  by (induction s) auto

lemma last_index_last: "c \<notin> set p \<Longrightarrow> last_index c (h @ c # p) = Some (length h)"
  by (induction h) (simp_all add: last_index_None)

lemma SplitHostPort_plain:
  assumes "\<forall>c \<in> set h. c \<noteq> CHR '':'' \<and> c \<noteq> CHR ''['' \<and> c \<noteq> CHR '']''"
    and "\<forall>c \<in> set p. c \<noteq> CHR '':'' \<and> c \<noteq> CHR ''['' \<and> c \<noteq> CHR '']''"
  shows "SplitHostPort (h @ CHR '':'' # p) = Some (h, p)"
proof -
  have "last_index CHR '':'' (h @ CHR '':'' # p) = Some (length h)" using assms(2) by (intro last_index_last) auto
  moreover have "(h @ CHR '':'' # p) ! 0 \<noteq> CHR ''[''" using assms(1) by (cases h) auto
  ultimately show ?thesis using assms by (auto simp: SplitHostPort_def)
qed

lemma digit_not_bracket: "is_digit c \<Longrightarrow> c \<noteq> CHR '':'' \<and> c \<noteq> CHR ''['' \<and> c \<noteq> CHR '']''"
  by (auto simp: is_digit_def)

lemma utoa_plain: "c \<in> set (utoa n) \<Longrightarrow> c \<noteq> CHR '':'' \<and> c \<noteq> CHR ''['' \<and> c \<noteq> CHR '']''"
  using utoa_digits digit_not_bracket by blast

lemma ipv4_string_plain: "c \<in> set (ipv4_string x y z w) \<Longrightarrow> c \<noteq> CHR '':'' \<and> c \<noteq> CHR ''['' \<and> c \<noteq> CHR '']''"
  by (auto simp: ipv4_string_def dest: utoa_plain)

lemma host_part_ipv4 [simp]: "host_part (ipv4_string x y z w @ CHR '':'' # utoa n) = ipv4_string x y z w"
  using SplitHostPort_plain [of "ipv4_string x y z w" "utoa n"] ipv4_string_plain utoa_plain
  by (simp add: host_part_def)

lemma host_part_bare [simp]: "host_part (ipv4_string x y z w) = ipv4_string x y z w"
proof -
  have "CHR '':'' \<notin> set (ipv4_string x y z w)" using ipv4_string_plain by blast
  then show ?thesis by (simp add: host_part_def SplitHostPort_def last_index_None)
qed

lemma To4_mapped [simp]: "To4 (v4InV6Prefix @ [x, y, z, w]) = Some [x, y, z, w]"
  by (simp add: To4_def v4InV6Prefix_def)

lemma To4_four [simp]: "To4 [x, y, z, w] = Some [x, y, z, w]"
  by (simp add: To4_def)

lemma To4_length: "To4 a = Some p \<Longrightarrow> length p = 4"
  by (auto simp: To4_def split: if_splits)

lemma length_v4InV6Prefix [simp]: "length v4InV6Prefix = 12"
  by (simp add: v4InV6Prefix_def)

lemma IP_String_To4: "To4 a = Some [x, y, z, w] \<Longrightarrow> IP_String a = ipv4_string x y z w"
  by (auto simp: IP_String_def To4_def split: if_splits)

lemma IP_String_v4 [simp]: "IP_String [x, y, z, w] = ipv4_string x y z w"
  by (simp add: IP_String_To4)

lemma IP_String_mapped [simp]: "IP_String (v4InV6Prefix @ [x, y, z, w]) = ipv4_string x y z w"
  by (rule IP_String_To4) simp

lemma four_bytes:
  assumes "length (p :: bytes) = 4"
  obtains x y z w where "p = [x, y, z, w]"
  using assms by (auto simp: numeral_eq_Suc length_Suc_conv)

lemma length_To16: "To16 a = Some p \<Longrightarrow> length p = 16"
  by (auto simp: To16_def split: if_splits)

text \<open>The printed form of an IPv4 endpoint determines it.\<close>

lemma ipv4_string_inject:
  "ipv4_string a b c d = ipv4_string a' b' c' d' \<Longrightarrow> [a, b, c, d] = [a', b', c', d']"
  by (drule arg_cong [where f = ParseIP]) (simp add: ParseIP_ipv4_string)

lemma UDPAddr_String_v4:
  assumes "To4 (ua_IP u) = Some [x, y, z, w]" "0 \<le> ua_Port u"
  shows "UDPAddr_String u = ipv4_string x y z w @ CHR '':'' # utoa (nat (ua_Port u))"
proof -
  have "CHR '':'' \<notin> set (ipv4_string x y z w)" using ipv4_string_plain by blast
  moreover have "ua_IP u \<noteq> []" using assms(1) by (auto simp: To4_def)
  ultimately show ?thesis
    using assms by (simp add: UDPAddr_String_def JoinHostPort_def IP_String_To4 itoa_def)
qed

end
