(* ===== verification/Socks_Wire.thy ===== *)
theory Socks_Wire
  imports Host_Addr "HOL-Library.AList" "HOL-Library.Multiset"
begin

text \<open>
  The wire side of the SOCKS5 proxy: the greeting and request read from a client and the replies
  (\<^verbatim>\<open>socks5.go\<close>), the header of UDP datagrams (\<^verbatim>\<open>udp_assoc.go\<close>), the classification of targets and
  the limiter of connections per address. What a client sends is a list of bytes; a read past its end
  is the error of \<^verbatim>\<open>io.ReadFull\<close>. A slice or index out of range is a panic, the outer \<^term>\<open>None\<close>.
\<close>

definition socks5Version :: byte where "socks5Version = 0x05"
definition authNone :: byte where "authNone = 0x00"
definition authNoAccept :: byte where "authNoAccept = 0xFF"
definition cmdConnect :: byte where "cmdConnect = 0x01"
definition cmdUDPAssoc :: byte where "cmdUDPAssoc = 0x03"
definition atypIPv4 :: byte where "atypIPv4 = 0x01"
definition atypDomain :: byte where "atypDomain = 0x03"
definition atypIPv6 :: byte where "atypIPv6 = 0x04"
definition repSuccess :: byte where "repSuccess = 0x00"
definition repCmdNotSupp :: byte where "repCmdNotSupp = 0x07"
definition repGenFail :: byte where "repGenFail = 0x01"

lemmas socks_consts = socks5Version_def authNone_def authNoAccept_def cmdConnect_def cmdUDPAssoc_def
  atypIPv4_def atypDomain_def atypIPv6_def repSuccess_def repCmdNotSupp_def repGenFail_def

section \<open>Targets\<close>

definition bitTorrentPorts :: "nat list" where
  "bitTorrentPorts = [6881, 6882, 6883, 6884, 6885, 6886, 6887, 6888, 6889, 6969, 51413]"

definition isBitTorrentPort :: "string \<Rightarrow> bool" where
  "isBitTorrentPort target = (case SplitHostPort target of
     None \<Rightarrow> False
   | Some (h, p) \<Rightarrow> (case ParseUint16 p of None \<Rightarrow> False | Some n \<Rightarrow> n \<in> set bitTorrentPorts))"

definition remoteHost :: "string \<Rightarrow> string" where "remoteHost addr = host_part addr"

definition isLANAddress :: "string \<Rightarrow> bool" where
  "isLANAddress target = (case ParseIP (host_part target) of
     None \<Rightarrow> False
   | Some a \<Rightarrow> IsLoopback a \<or> IsLinkLocalUnicast a \<or> IsPrivate a)"

section \<open>Limiter\<close>

text \<open>A semaphore is the number of tokens in its channel.\<close>

record connLimiter =
  cl_sems :: "(string \<times> nat) list"
  cl_perIP :: nat

definition newConnLimiter :: "nat \<Rightarrow> connLimiter" where
  "newConnLimiter perIP = \<lparr>cl_sems = [], cl_perIP = perIP\<rparr>"

definition sem_count :: "string \<Rightarrow> connLimiter \<Rightarrow> nat" where
  "sem_count a l = (case map_of (cl_sems l) a of None \<Rightarrow> 0 | Some n \<Rightarrow> n)"

text \<open>\<open>acquire\<close> up to the send on the channel: whether it goes through now.\<close>

definition acquire :: "string \<Rightarrow> connLimiter \<Rightarrow> bool \<times> connLimiter" where
  "acquire a l =
     (let n = sem_count a l in
      if n < cl_perIP l then (True, l\<lparr>cl_sems := AList.update a (n + 1) (cl_sems l)\<rparr>)
      else (False, l\<lparr>cl_sems := AList.update a n (cl_sems l)\<rparr>))"

text \<open>\<open>release\<close>; \<^term>\<open>None\<close> when the receive would block.\<close>

definition release :: "string \<Rightarrow> connLimiter \<Rightarrow> connLimiter option" where
  "release a l = (case map_of (cl_sems l) a of
     None \<Rightarrow> Some l
   | Some n \<Rightarrow> if n = 0 then None else Some (l\<lparr>cl_sems := AList.update a (n - 1) (cl_sems l)\<rparr>))"

section \<open>Greeting and request\<close>

definition ReadFull :: "nat \<Rightarrow> bytes \<Rightarrow> (bytes \<times> bytes) option" where
  "ReadFull n inp = (if length inp < n then None else Some (take n inp, drop n inp))"

text \<open>What is written to the client, and the input left when the handshake went through.\<close>

definition socks_handshake :: "bytes \<Rightarrow> bytes \<times> bytes option" where
  "socks_handshake inp = (case ReadFull 2 inp of
     None \<Rightarrow> ([], None)
   | Some (hdr, r1) \<Rightarrow>
      if hdr ! 0 \<noteq> socks5Version then ([], None)
      else (case ReadFull (unat (hdr ! 1)) r1 of
          None \<Rightarrow> ([], None)
        | Some (methods, r2) \<Rightarrow>
            if authNone \<in> set methods then ([socks5Version, authNone], Some r2)
            else ([socks5Version, authNoAccept], None)))"

definition socks5Reply :: "byte \<Rightarrow> bytes" where
  "socks5Reply rep = [socks5Version, rep, 0x00, atypIPv4, 0, 0, 0, 0, 0, 0]"

definition sendSOCKS5UDPReply :: "ip \<Rightarrow> u16 \<Rightarrow> bytes" where
  "sendSOCKS5UDPReply a port = (case To4 a of
     Some ip4 \<Rightarrow> copy_at (copy_at [socks5Version, repSuccess, 0x00, atypIPv4, 0, 0, 0, 0, 0, 0] 4 ip4) 8 (put_be16 port)
   | None \<Rightarrow> copy_at (copy_at ([socks5Version, repSuccess, 0x00, atypIPv6] @ replicate 18 0) 4
       (case To16 a of None \<Rightarrow> [] | Some b \<Rightarrow> b)) 20 (put_be16 port))"

datatype target_read = TargetErr | TargetUnsupported | Target string bytes

definition read_target :: "byte \<Rightarrow> bytes \<Rightarrow> target_read" where
  "read_target atyp inp =
     (if atyp = atypIPv4 then
        (case ReadFull 4 inp of None \<Rightarrow> TargetErr | Some (a, r) \<Rightarrow> Target (IP_String a) r)
      else if atyp = atypIPv6 then
        (case ReadFull 16 inp of None \<Rightarrow> TargetErr | Some (a, r) \<Rightarrow> Target (''['' @ IP_String a @ '']'') r)
      else if atyp = atypDomain then
        (case ReadFull 1 inp of
           None \<Rightarrow> TargetErr
         | Some (l, r) \<Rightarrow> (case ReadFull (unat (l ! 0)) r of
             None \<Rightarrow> TargetErr
           | Some (d, r2) \<Rightarrow> Target (of_bytes d) r2))
      else TargetUnsupported)"

datatype socks_cmd = CmdNone | CmdConnect string | CmdUDPAssoc string

text \<open>The request: what is written before dispatch, the command to run, and the input left.\<close>

definition socks_request :: "bytes \<Rightarrow> bytes \<times> socks_cmd \<times> bytes" where
  "socks_request inp = (case ReadFull 4 inp of
     None \<Rightarrow> ([], CmdNone, [])
   | Some (h, r1) \<Rightarrow>
      if h ! 0 \<noteq> socks5Version then ([], CmdNone, r1)
      else (case read_target (h ! 3) r1 of
          TargetErr \<Rightarrow> ([], CmdNone, [])
        | TargetUnsupported \<Rightarrow> (socks5Reply repGenFail, CmdNone, r1)
        | Target t r2 \<Rightarrow> (case ReadFull 2 r2 of
            None \<Rightarrow> ([], CmdNone, [])
          | Some (p, r3) \<Rightarrow>
             let target = t @ '':'' @ utoa (be_val p) in
             if h ! 1 = cmdConnect then ([], CmdConnect target, r3)
             else if h ! 1 = cmdUDPAssoc then ([], CmdUDPAssoc target, r3)
             else (socks5Reply repCmdNotSupp, CmdNone, r3))))"

text \<open>\<open>handle\<close> up to the dispatch.\<close>

definition socks_handle :: "bytes \<Rightarrow> bytes \<times> socks_cmd \<times> bytes" where
  "socks_handle inp = (case socks_handshake inp of
     (w, None) \<Rightarrow> (w, CmdNone, [])
   | (w, Some r) \<Rightarrow> (case socks_request r of (w2, c, r2) \<Rightarrow> (w @ w2, c, r2)))"

section \<open>Headers of datagrams\<close>

datatype udp_header_error = HeaderShort | TruncatedIPv4 | TruncatedIPv6 | TruncatedDomain | ResolveFailed
  | UnknownAtyp | TruncatedPort

text \<open>The destination's address is \<^term>\<open>None\<close> when the resolver returned something \<open>ParseIP\<close> does not
  accept: a nil address.\<close>

definition parseSOCKS5UDPHeader ::
  "(string \<Rightarrow> string list option) \<Rightarrow> bytes \<Rightarrow> (udp_header_error + UDPAddr \<times> bytes \<times> byte) option" where
  "parseSOCKS5UDPHeader lookup pkt =
     (if length pkt < 4 then Some (Inl HeaderShort)
      else do {
        frag \<leftarrow> idx pkt 2;
        atyp \<leftarrow> idx pkt 3;
        a \<leftarrow> (if atyp = atypIPv4 then
               if 8 > length pkt then Some (Inl TruncatedIPv4)
               else do { s \<leftarrow> slice pkt 4 8; Some (Inr (s, 8)) }
             else if atyp = atypIPv6 then
               if 20 > length pkt then Some (Inl TruncatedIPv6)
               else do { s \<leftarrow> slice pkt 4 20; Some (Inr (s, 20)) }
             else if atyp = atypDomain then
               if 5 > length pkt then Some (Inl TruncatedDomain)
               else do {
                 l \<leftarrow> idx pkt 4;
                 if 5 + unat l > length pkt then Some (Inl TruncatedDomain)
                 else do {
                   s \<leftarrow> slice pkt 5 (5 + unat l);
                   case lookup (of_bytes s) of
                     None \<Rightarrow> Some (Inl ResolveFailed)
                   | Some [] \<Rightarrow> Some (Inl ResolveFailed)
                   | Some (r # rs) \<Rightarrow> Some (Inr (case ParseIP r of None \<Rightarrow> [] | Some x \<Rightarrow> x, 5 + unat l))
                 }
               }
             else Some (Inl UnknownAtyp));
        case a of
          Inl e \<Rightarrow> Some (Inl e)
        | Inr (x, off) \<Rightarrow>
            if off + 2 > length pkt then Some (Inl TruncatedPort)
            else do {
              pb \<leftarrow> slice_from pkt off;
              port \<leftarrow> get_be16 pb;
              payload \<leftarrow> slice_from pkt (off + 2);
              Some (Inr (\<lparr>ua_IP = x, ua_Port = int (unat port)\<rparr>, payload, frag))
            }
      })"

definition buildSOCKS5UDPHeader :: "UDPAddr \<Rightarrow> bytes \<Rightarrow> bytes" where
  "buildSOCKS5UDPHeader src payload =
     (let port = word_of_int (ua_Port src) :: u16 in
      (case To4 (ua_IP src) of
         Some ip4 \<Rightarrow> copy_at (copy_at ([0, 0, 0, atypIPv4] @ replicate 6 0) 4 ip4) 8 (put_be16 port)
       | None \<Rightarrow> copy_at (copy_at ([0, 0, 0, atypIPv6] @ replicate 18 0) 4
           (case To16 (ua_IP src) of None \<Rightarrow> [] | Some b \<Rightarrow> b)) 20 (put_be16 port)) @ payload)"

section \<open>Specification of a client\<close>

datatype socks_dest = DIPv4 byte byte byte byte | DIPv6 bytes | DDomain string

fun dest_ok :: "socks_dest \<Rightarrow> bool" where
  "dest_ok (DIPv4 a b c d) = True"
| "dest_ok (DIPv6 x) = (length x = 16)"
| "dest_ok (DDomain s) = (length s \<le> 255)"

fun enc_dest :: "socks_dest \<Rightarrow> bytes" where
  "enc_dest (DIPv4 a b c d) = [atypIPv4, a, b, c, d]"
| "enc_dest (DIPv6 x) = atypIPv6 # x"
| "enc_dest (DDomain s) = [atypDomain, word_of_nat (length s)] @ to_bytes s"

fun dest_string :: "socks_dest \<Rightarrow> string" where
  "dest_string (DIPv4 a b c d) = ipv4_string a b c d"
| "dest_string (DIPv6 x) = ''['' @ IP_String x @ '']''"
| "dest_string (DDomain s) = s"

definition enc_greeting :: "bytes \<Rightarrow> bytes" where
  "enc_greeting methods = [socks5Version, word_of_nat (length methods)] @ methods"

definition enc_request :: "byte \<Rightarrow> byte \<Rightarrow> socks_dest \<Rightarrow> u16 \<Rightarrow> bytes" where
  "enc_request cmd rsv d port = [socks5Version, cmd, rsv] @ enc_dest d @ put_be16 port"

section \<open>Facts\<close>

lemma unat_word_of_nat8 [simp]: "n < 256 \<Longrightarrow> unat (word_of_nat n :: byte) = n"
  by (simp add: unat_of_nat take_bit_eq_mod)

lemma ReadFull_append [simp]: "n = length a \<Longrightarrow> ReadFull n (a @ b) = Some (a, b)"
  by (simp add: ReadFull_def)

lemma ReadFull_Some: "ReadFull n inp = Some (a, r) \<Longrightarrow> inp = a @ r \<and> length a = n"
  by (auto simp: ReadFull_def split: if_splits)

lemma read_target_enc:
  assumes "dest_ok d"
  shows "read_target (hd (enc_dest d)) (tl (enc_dest d) @ r) = Target (dest_string d) r"
proof (cases d)
  case (DIPv4 a b c e)
  then show ?thesis using ReadFull_append [of 4 "[a, b, c, e]" r] by (simp add: read_target_def)
next
  case (DIPv6 x)
  then show ?thesis using assms by (simp add: read_target_def socks_consts)
next
  case (DDomain s)
  then show ?thesis
    using assms ReadFull_append [of 1 "[word_of_nat (length s)]" "to_bytes s @ r"] by (simp add: read_target_def socks_consts)
qed

lemma handshake_greeting:
  "authNone \<in> set methods \<Longrightarrow> length methods \<le> 255 \<Longrightarrow>
   socks_handshake (enc_greeting methods @ r) = ([socks5Version, authNone], Some r)"
  using ReadFull_append [of 2 "[socks5Version, word_of_nat (length methods)]" "methods @ r"]
  by (simp add: socks_handshake_def enc_greeting_def)

lemma enc_dest_hd: "enc_dest d = hd (enc_dest d) # tl (enc_dest d)"
  by (cases d) simp_all

lemma request_enc:
  assumes "dest_ok d"
  shows "socks_request (enc_request cmd rsv d port @ r) =
    (if cmd = cmdConnect then ([], CmdConnect (dest_string d @ '':'' @ utoa (unat port)), r)
     else if cmd = cmdUDPAssoc then ([], CmdUDPAssoc (dest_string d @ '':'' @ utoa (unat port)), r)
     else (socks5Reply repCmdNotSupp, CmdNone, r))"
proof -
  let ?h = "[socks5Version, cmd, rsv, hd (enc_dest d)]"
  have "enc_request cmd rsv d port @ r = ?h @ tl (enc_dest d) @ put_be16 port @ r"
    using enc_dest_hd [of d] by (simp add: enc_request_def)
  moreover have "ReadFull 4 (?h @ tl (enc_dest d) @ put_be16 port @ r) = Some (?h, tl (enc_dest d) @ put_be16 port @ r)"
    by (rule ReadFull_append) simp
  moreover have "be_val (put_be16 port) = unat port"
    using unsigned_less [of port, where ?'a = nat] by (simp add: put_be16_def)
  ultimately show ?thesis using assms by (simp add: socks_request_def read_target_enc Let_def)
qed

text \<open>Every input: what may be written, and how much is read before a command is dispatched.\<close>

lemma handshake_out:
  "(case socks_handshake inp of
      (w, None) \<Rightarrow> w = [] \<or> w = [socks5Version, authNoAccept]
    | (w, Some r) \<Rightarrow> w = [socks5Version, authNone] \<and> (\<exists>pre. inp = pre @ r \<and> length pre \<le> 257))"
proof -
  have "length a = 2 \<Longrightarrow> length m = unat (a ! 1) \<Longrightarrow> length a + length m \<le> 257" for a m :: bytes
    using unat_byte_less [of "a ! 1"] by linarith
  then show ?thesis
    by (auto simp: socks_handshake_def split: option.splits dest!: ReadFull_Some)
qed

lemma read_target_reads: "read_target t inp = Target s r \<Longrightarrow> \<exists>pre. inp = pre @ r \<and> length pre \<le> 256"
proof -
  have "length a = 1 \<Longrightarrow> length d = unat (a ! 0) \<Longrightarrow> length a + length d \<le> 256" for a d :: bytes
    using unat_byte_less [of "a ! 0"] by linarith
  then show "read_target t inp = Target s r \<Longrightarrow> ?thesis"
    by (fastforce simp: read_target_def split: if_splits option.splits dest!: ReadFull_Some intro: exI [of _ "_ @ _"])
qed

lemma request_out:
  assumes "socks_request inp = (w, c, r)"
  shows "(w = [] \<or> w = socks5Reply repGenFail \<or> w = socks5Reply repCmdNotSupp) \<and>
    (c \<noteq> CmdNone \<longrightarrow> w = [] \<and> (\<exists>pre. inp = pre @ r \<and> length pre \<le> 262))"
proof -
  have "\<exists>pre. h @ r1 = pre @ r3 \<and> length pre \<le> 262"
    if len: "length h = 4" and rd: "read_target t r1 = Target s (p @ r3)" and len2: "length p = 2" for h r1 p r3 :: bytes and t s
  proof -
    obtain q where "r1 = q @ p @ r3" "length q \<le> 256" using read_target_reads [OF rd] by blast
    then show ?thesis using len len2 by (intro exI [of _ "h @ q @ p"]) simp
  qed
  then show ?thesis using assms
    by (fastforce simp: socks_request_def Let_def split: option.splits target_read.splits if_splits dest!: ReadFull_Some)
qed

section \<open>Facts about datagram headers\<close>

lemma buildSOCKS5UDPHeader_v4:
  "To4 (ua_IP src) = Some [x, y, z, w] \<Longrightarrow>
   buildSOCKS5UDPHeader src payload = [0, 0, 0, atypIPv4, x, y, z, w] @ put_be16 (word_of_int (ua_Port src)) @ payload"
  by (simp add: buildSOCKS5UDPHeader_def copy_at_def numeral_eq_Suc)

lemma buildSOCKS5UDPHeader_v6:
  "To4 (ua_IP src) = None \<Longrightarrow> length (ua_IP src) = 16 \<Longrightarrow>
   buildSOCKS5UDPHeader src payload = [0, 0, 0, atypIPv6] @ ua_IP src @ put_be16 (word_of_int (ua_Port src)) @ payload"
  by (simp add: buildSOCKS5UDPHeader_def copy_at_def To16_def numeral_eq_Suc)

lemma parse_v4:
  "parseSOCKS5UDPHeader lookup ([r1, r2, fr, atypIPv4, x, y, z, w] @ put_be16 port @ payload) =
   Some (Inr (\<lparr>ua_IP = [x, y, z, w], ua_Port = int (unat port)\<rparr>, payload, fr))"
  by (simp add: parseSOCKS5UDPHeader_def slice_def idx_def slice_from_def numeral_eq_Suc)

lemma parseSOCKS5UDPHeader_total [panic_free]: "returns (parseSOCKS5UDPHeader lookup pkt)"
  by (auto simp: parseSOCKS5UDPHeader_def returns_def get_be16_Some split: list.split option.split sum.split)

section \<open>The limiter under interleaving\<close>

text \<open>Connections of one limiter: the multiset holds the address of every connection between its
  \<open>acquire\<close> and its \<open>release\<close>. A blocked \<open>acquire\<close> is retried.\<close>

inductive lim_step :: "connLimiter \<times> string multiset \<Rightarrow> connLimiter \<times> string multiset \<Rightarrow> bool" where
  lim_acquire: "acquire a l = (True, l') \<Longrightarrow> lim_step (l, H) (l', add_mset a H)"
| lim_block: "acquire a l = (False, l') \<Longrightarrow> lim_step (l, H) (l', H)"
| lim_release: "a \<in># H \<Longrightarrow> release a l = Some l' \<Longrightarrow> lim_step (l, H) (l', H - {#a#})"

inductive_cases lim_stepE: "lim_step (l, H) s"

definition lim_inv :: "nat \<Rightarrow> connLimiter \<times> string multiset \<Rightarrow> bool" where
  "lim_inv n s \<longleftrightarrow> cl_perIP (fst s) = n \<and> (\<forall>a. sem_count a (fst s) = count (snd s) a \<and> count (snd s) a \<le> n)"

lemma sem_count_update [simp]:
  "sem_count b (l\<lparr>cl_sems := AList.update a k (cl_sems l)\<rparr>) = (if b = a then k else sem_count b l)"
  by (simp add: sem_count_def update_conv)

lemma release_sem: "release a l = Some l' \<Longrightarrow> cl_perIP l' = cl_perIP l \<and> (\<forall>b. sem_count b l' = (if b = a then sem_count a l - 1 else sem_count b l))"
  by (auto simp: release_def split: option.splits if_splits) (simp_all add: sem_count_def)

lemma lim_inv_step: "lim_step s s' \<Longrightarrow> lim_inv n s \<Longrightarrow> lim_inv n s'"
proof (induction rule: lim_step.induct)
  case (lim_release a H l l')
  then show ?case using release_sem [OF lim_release(2)] by (auto simp: lim_inv_def intro: le_trans [OF diff_le_self])
qed (auto simp: lim_inv_def acquire_def Let_def split: if_splits)

lemma lim_inv_run: "lim_step\<^sup>*\<^sup>* s s' \<Longrightarrow> lim_inv n s \<Longrightarrow> lim_inv n s'"
  by (induction rule: rtranclp_induct) (auto intro: lim_inv_step)

lemma release_held: "lim_inv n (l, H) \<Longrightarrow> a \<in># H \<Longrightarrow> \<exists>l'. release a l = Some l'"
proof -
  assume "lim_inv n (l, H)" "a \<in># H"
  then have "sem_count a l > 0" by (simp add: lim_inv_def)
  then show ?thesis by (auto simp: release_def sem_count_def split: option.splits)
qed

section \<open>Properties\<close>

text \<open>Property C25. The greeting and request of a client. A well-formed greeting that offers no
  authentication, followed by a request for an IPv4, IPv6 or domain destination, is answered with
  ``no authentication'' and dispatched with exactly that target and port; other commands are refused
  with ``command not supported''. On every other input the proxy writes only one of five protocol
  messages, dispatches a command only after accepting the greeting, and has then read at most 519
  bytes.\<close>

theorem socks_handle_correct:
  shows "(\<forall>methods cmd rsv d port rest.
      authNone \<in> set methods \<and> length methods \<le> 255 \<and> dest_ok d \<longrightarrow>
      socks_handle (enc_greeting methods @ enc_request cmd rsv d port @ rest) =
        (let target = dest_string d @ '':'' @ utoa (unat port) in
         if cmd = cmdConnect then ([socks5Version, authNone], CmdConnect target, rest)
         else if cmd = cmdUDPAssoc then ([socks5Version, authNone], CmdUDPAssoc target, rest)
         else ([socks5Version, authNone] @ socks5Reply repCmdNotSupp, CmdNone, rest))) \<and>
    (case socks_handle inp of (w, c, r) \<Rightarrow>
       w \<in> {[], [socks5Version, authNoAccept], [socks5Version, authNone],
         [socks5Version, authNone] @ socks5Reply repGenFail, [socks5Version, authNone] @ socks5Reply repCmdNotSupp} \<and>
       (c \<noteq> CmdNone \<longrightarrow> w = [socks5Version, authNone] \<and> (\<exists>pre. inp = pre @ r \<and> length pre \<le> 519)))"
proof (intro conjI allI impI)
  fix methods :: bytes and cmd rsv d and port :: u16 and rest
  assume "authNone \<in> set methods \<and> length methods \<le> 255 \<and> dest_ok d"
  then show "socks_handle (enc_greeting methods @ enc_request cmd rsv d port @ rest) =
      (let target = dest_string d @ '':'' @ utoa (unat port) in
       if cmd = cmdConnect then ([socks5Version, authNone], CmdConnect target, rest)
       else if cmd = cmdUDPAssoc then ([socks5Version, authNone], CmdUDPAssoc target, rest)
       else ([socks5Version, authNone] @ socks5Reply repCmdNotSupp, CmdNone, rest))"
    by (simp add: socks_handle_def handshake_greeting request_enc Let_def)
next
  obtain w mr where h: "socks_handshake inp = (w, mr)" by (cases "socks_handshake inp")
  show "case socks_handle inp of (w, c, r) \<Rightarrow>
       w \<in> {[], [socks5Version, authNoAccept], [socks5Version, authNone],
         [socks5Version, authNone] @ socks5Reply repGenFail, [socks5Version, authNone] @ socks5Reply repCmdNotSupp} \<and>
       (c \<noteq> CmdNone \<longrightarrow> w = [socks5Version, authNone] \<and> (\<exists>pre. inp = pre @ r \<and> length pre \<le> 519))"
  proof (cases mr)
    case None
    then show ?thesis using handshake_out [of inp] h by (auto simp: socks_handle_def)
  next
    case (Some r)
    then obtain pre where pre: "w = [socks5Version, authNone]" "inp = pre @ r" "length pre \<le> 257"
      using handshake_out [of inp] h by auto
    obtain w2 c r2 where q: "socks_request r = (w2, c, r2)" by (cases "socks_request r")
    have "\<exists>p. inp = p @ r2 \<and> length p \<le> 519" if "r = p2 @ r2" "length p2 \<le> 262" for p2
      using that pre by (intro exI [of _ "pre @ p2"]) simp
    then show ?thesis using request_out [OF q] h Some q pre(1) by (auto simp: socks_handle_def)
  qed
qed

theorem socks_handle_correct_witness:
  "socks_handle (enc_greeting [2, authNone] @ enc_request cmdConnect 0 (DDomain ''a.b'') 443 @ [9]) =
     ([socks5Version, authNone], CmdConnect ''a.b:443'', [9])"
proof -
  have "utoa (unat (443 :: u16)) = ''443''" by code_simp
  then show ?thesis
    using conjunct1 [OF socks_handle_correct [of "[]"], rule_format, of "[2, authNone]" "DDomain ''a.b''" cmdConnect 0 443 "[9]"]
    by simp
qed

text \<open>Property C26. The limit on connections per address. Under every interleaving of connections that
  acquire and release, no address ever holds more than the limit, the semaphore counts exactly the
  connections that hold a slot, a holder's \<open>release\<close> never blocks, and a further \<open>acquire\<close> goes
  through exactly while the address is below the limit.\<close>

theorem limiter_bounds_connections:
  assumes "lim_step\<^sup>*\<^sup>* (newConnLimiter n, {#}) (l, H)"
  shows "(\<forall>a. count H a \<le> n \<and> sem_count a l = count H a \<and> (fst (acquire a l) \<longleftrightarrow> count H a < n)) \<and>
    (\<forall>a. a \<in># H \<longrightarrow> release a l \<noteq> None)"
proof -
  have "lim_inv n (newConnLimiter n, {#})" by (simp add: lim_inv_def newConnLimiter_def sem_count_def)
  then have inv: "lim_inv n (l, H)" using lim_inv_run [OF assms] by blast
  then show ?thesis using release_held [OF inv] by (auto simp: lim_inv_def acquire_def Let_def)
qed

theorem limiter_bounds_connections_witness:
  "\<exists>l. lim_step\<^sup>*\<^sup>* (newConnLimiter 1, {#}) (l, {#''10.0.0.1''#}) \<and> \<not> fst (acquire ''10.0.0.1'' l)"
proof -
  obtain l where l: "acquire ''10.0.0.1'' (newConnLimiter 1) = (True, l)"
    by (simp add: acquire_def newConnLimiter_def sem_count_def Let_def)
  then have "lim_step\<^sup>*\<^sup>* (newConnLimiter 1, {#}) (l, {#''10.0.0.1''#})" by (intro r_into_rtranclp lim_acquire)
  then show ?thesis using limiter_bounds_connections by fastforce
qed

end
