(* ===== verification/DNS_Cache.thy ===== *)
theory DNS_Cache
  imports Host_Addr "HOL-Library.AList"
begin

text \<open>
  The cache from addresses to host names of \<^verbatim>\<open>dns_cache.go\<close>. The Go map is an association list
  without duplicate keys. The third-party parser of \<^verbatim>\<open>dnsmessage\<close> is the parameter
  \<open>dns_parse\<close>; \<open>uni\<close> is what \<^verbatim>\<open>strings.ToLower\<close> does to strings that are not ASCII.
\<close>

record dnsCacheEntry =
  ce_fqdn :: string
  ce_expires :: time

type_synonym dnsCache = "(string \<times> dnsCacheEntry) list"

definition GlobalDNSCache :: dnsCache where "GlobalDNSCache = []"

definition ascii_lower :: "char \<Rightarrow> char" where
  "ascii_lower c = (if 65 \<le> (of_char c :: nat) \<and> of_char c \<le> (90 :: nat) then char_of (of_char c + 32 :: nat) else c)"

definition ToLower :: "(string \<Rightarrow> string) \<Rightarrow> string \<Rightarrow> string" where
  "ToLower uni s = (if list_all (\<lambda>c. of_char c < (128 :: nat)) s then map ascii_lower s else uni s)"

text \<open>One tick of the goroutine of \<open>startCleanup\<close>.\<close>

definition dns_cleanup :: "time \<Rightarrow> dnsCache \<Rightarrow> dnsCache" where
  "dns_cleanup now c = filter (\<lambda>(a, e). \<not> now > ce_expires e) c"

definition clampTTL :: "int \<Rightarrow> int" where
  "clampTTL ttl =
     (let ttl1 = (if ttl < 5 * minute then 5 * minute else ttl) in
      if ttl1 > 24 * 60 * minute then 24 * 60 * minute else ttl1)"

definition dns_Set :: "(string \<Rightarrow> string) \<Rightarrow> time \<Rightarrow> string \<Rightarrow> string \<Rightarrow> int \<Rightarrow> dnsCache \<Rightarrow> dnsCache" where
  "dns_Set uni now a fqdn ttl c =
     AList.update a \<lparr>ce_fqdn = ToLower uni fqdn, ce_expires = now + clampTTL ttl\<rparr> c"

definition dns_Get :: "time \<Rightarrow> string \<Rightarrow> dnsCache \<Rightarrow> string" where
  "dns_Get now a c = (case map_of c a of
     None \<Rightarrow> []
   | Some e \<Rightarrow> if now > ce_expires e then [] else ce_fqdn e)"

text \<open>What the parser yields after the questions: a header with its resource (\<^term>\<open>None\<close> when it does
  not parse), or another type that is skipped, successfully or not. The list ends where
  \<open>AnswerHeader\<close> fails.\<close>

datatype dns_answer = AnsA string u32 "bytes option" | AnsAAAA string u32 "bytes option" | AnsOther bool

fun learn_answers :: "(string \<Rightarrow> string) \<Rightarrow> time \<Rightarrow> dns_answer list \<Rightarrow> dnsCache \<Rightarrow> dnsCache" where
  "learn_answers uni now [] c = c"
| "learn_answers uni now (AnsA fqdn ttl r # as) c = (case r of
     None \<Rightarrow> c
   | Some a \<Rightarrow> learn_answers uni now as (dns_Set uni now (IP_String a) fqdn (int (unat ttl) * second) c))"
| "learn_answers uni now (AnsAAAA fqdn ttl r # as) c = (case r of
     None \<Rightarrow> c
   | Some a \<Rightarrow> learn_answers uni now as (dns_Set uni now (IP_String a) fqdn (int (unat ttl) * second) c))"
| "learn_answers uni now (AnsOther ok # as) c = (if ok then learn_answers uni now as c else c)"

definition ParseAndLearn ::
  "(bytes \<Rightarrow> dns_answer list option) \<Rightarrow> (string \<Rightarrow> string) \<Rightarrow> time \<Rightarrow> bytes \<Rightarrow> dnsCache \<Rightarrow> dnsCache" where
  "ParseAndLearn dns_parse uni now msg c = (case dns_parse msg of
     None \<Rightarrow> c
   | Some as \<Rightarrow> learn_answers uni now as c)"

section \<open>Histories\<close>

text \<open>A history of the cache: names learned and cleanup ticks, each at its time.\<close>

datatype dns_op = Learn time string string int | Cleanup time

fun op_time :: "dns_op \<Rightarrow> time" where
  "op_time (Learn t a f ttl) = t"
| "op_time (Cleanup t) = t"

fun dns_step :: "(string \<Rightarrow> string) \<Rightarrow> dns_op \<Rightarrow> dnsCache \<Rightarrow> dnsCache" where
  "dns_step uni (Learn t a f ttl) c = dns_Set uni t a f ttl c"
| "dns_step uni (Cleanup t) c = dns_cleanup t c"

definition dns_run :: "(string \<Rightarrow> string) \<Rightarrow> dns_op list \<Rightarrow> dnsCache" where
  "dns_run uni ops = fold (dns_step uni) ops GlobalDNSCache"

text \<open>The reference: the last name learned for the address, while it is fresh.\<close>

definition last_learned :: "(string \<Rightarrow> string) \<Rightarrow> string \<Rightarrow> dns_op list \<Rightarrow> (time \<times> string \<times> int) option" where
  "last_learned uni a ops = fold (\<lambda>x acc. case x of
      Learn t b f ttl \<Rightarrow> if b = a then Some (t, ToLower uni f, ttl) else acc
    | Cleanup t \<Rightarrow> acc) ops None"

definition dns_answer_for :: "(string \<Rightarrow> string) \<Rightarrow> string \<Rightarrow> dns_op list \<Rightarrow> time \<Rightarrow> string" where
  "dns_answer_for uni a ops now = (case last_learned uni a ops of
     None \<Rightarrow> []
   | Some (t, f, ttl) \<Rightarrow> if now \<le> t + clampTTL ttl then f else [])"

section \<open>Facts\<close>

lemma clampTTL_bounds: "5 * minute \<le> clampTTL ttl" "clampTTL ttl \<le> 24 * 60 * minute"
  by (auto simp: clampTTL_def Let_def)

lemma map_of_cleanup:
  "distinct (map fst c) \<Longrightarrow> map_of (dns_cleanup t c) a =
     (case map_of c a of None \<Rightarrow> None | Some e \<Rightarrow> if t > ce_expires e then None else Some e)"
proof (induction c)
  case (Cons x c)
  obtain k e where x: "x = (k, e)" by (cases x)
  have "map_of c k = None" using Cons.prems x by (simp add: map_of_eq_None_iff)
  with Cons x show ?case by (auto simp: dns_cleanup_def)
qed (simp add: dns_cleanup_def)

lemma distinct_cleanup: "distinct (map fst c) \<Longrightarrow> distinct (map fst (dns_cleanup t c))"
  by (induction c) (auto simp: dns_cleanup_def)

lemma dns_step_distinct: "distinct (map fst c) \<Longrightarrow> distinct (map fst (dns_step uni x c))"
  by (cases x) (simp_all add: dns_Set_def distinct_update distinct_cleanup)

lemma dns_run_snoc: "dns_run uni (ops @ [x]) = dns_step uni x (dns_run uni ops)"
  by (simp add: dns_run_def)

lemma dns_run_distinct: "distinct (map fst (dns_run uni ops))"
  by (induction ops rule: rev_induct) (simp_all add: dns_run_snoc dns_step_distinct, simp add: dns_run_def GlobalDNSCache_def)

lemma last_learned_snoc:
  "last_learned uni a (ops @ [x]) = (case x of
      Learn t b f ttl \<Rightarrow> if b = a then Some (t, ToLower uni f, ttl) else last_learned uni a ops
    | Cleanup t \<Rightarrow> last_learned uni a ops)"
  by (cases x) (simp_all add: last_learned_def)

text \<open>What the map holds: the last name learned, or nothing once a cleanup found it expired.\<close>

lemma dns_run_entry:
  "(case map_of (dns_run uni ops) a of
      Some e \<Rightarrow> (\<exists>t ttl. last_learned uni a ops = Some (t, ce_fqdn e, ttl) \<and> ce_expires e = t + clampTTL ttl)
    | None \<Rightarrow> (case last_learned uni a ops of None \<Rightarrow> True
        | Some (t, f, ttl) \<Rightarrow> \<exists>x \<in> set ops. t + clampTTL ttl < op_time x))"
proof (induction ops rule: rev_induct)
  case Nil
  show ?case by (simp add: dns_run_def GlobalDNSCache_def last_learned_def)
next
  case (snoc x ops)
  show ?case
  proof (cases x)
    case (Learn t b f ttl)
    with snoc show ?thesis
      by (auto simp: dns_run_snoc last_learned_snoc dns_Set_def update_conv split: option.splits)
  next
    case (Cleanup t)
    with snoc show ?thesis
      by (auto simp: dns_run_snoc last_learned_snoc map_of_cleanup [OF dns_run_distinct] split: option.splits)
  qed
qed

lemma dns_Get_run:
  assumes "\<forall>x \<in> set ops. op_time x \<le> now"
  shows "dns_Get now a (dns_run uni ops) = dns_answer_for uni a ops now"
  using dns_run_entry [where uni = uni and ops = ops and a = a] assms
  by (fastforce simp: dns_Get_def dns_answer_for_def split: option.splits)

text \<open>An answer learned last for an address is the one found.\<close>

lemma map_of_learn_other:
  "(\<forall>x \<in> set as. case x of AnsA f l (Some b) \<Rightarrow> IP_String b \<noteq> a | AnsAAAA f l (Some b) \<Rightarrow> IP_String b \<noteq> a | _ \<Rightarrow> True) \<Longrightarrow>
   map_of (learn_answers uni now as c) a = map_of c a"
  by (induction uni now as c rule: learn_answers.induct) (auto simp: dns_Set_def update_conv split: option.splits)

section \<open>Properties\<close>

text \<open>Lifetime of a cached name. In every history of learned names and cleanup ticks, the
  cache answers with the last name learned for the address, in lower case, exactly until its clamped
  lifetime is over: at least five minutes and at most a day, whatever the record said. Cleanup ticks
  never change an answer.\<close>

lemma dns_cache_lifetime:
  assumes "\<forall>x \<in> set ops. op_time x \<le> now"
  shows "dns_Get now a (dns_run uni ops) = dns_answer_for uni a ops now \<and>
    (\<forall>t f ttl. last_learned uni a ops = Some (t, f, ttl) \<longrightarrow>
       (now \<le> t + 5 * minute \<longrightarrow> dns_Get now a (dns_run uni ops) = f) \<and>
       (t + 24 * 60 * minute < now \<longrightarrow> dns_Get now a (dns_run uni ops) = []))"
proof (intro conjI allI impI)
  show get: "dns_Get now a (dns_run uni ops) = dns_answer_for uni a ops now" by (rule dns_Get_run [OF assms])
  fix t f ttl
  assume l: "last_learned uni a ops = Some (t, f, ttl)"
  show "dns_Get now a (dns_run uni ops) = f" if "now \<le> t + 5 * minute"
    using that clampTTL_bounds(1) [of ttl] by (simp add: get l dns_answer_for_def)
  show "dns_Get now a (dns_run uni ops) = []" if "t + 24 * 60 * minute < now"
    using that clampTTL_bounds(2) [of ttl] by (simp add: get l dns_answer_for_def)
qed

end
