(* ===== verification/Bypass_Rules.thy ===== *)
theory Bypass_Rules
  imports DNS_Cache CIDR_Set Tunnel_Auth "HOL-Library.Sublist"
begin

text \<open>
  The bypass manager of \<^verbatim>\<open>bypass.go\<close>: which destinations go around the tunnel, the signed list of
  networks it decides by, and the addresses where a direct connection failed. The calls to other
  systems are parameters: \<open>http\<close> answers a request with the time of the answer, \<open>lookup\<close> is
  \<^verbatim>\<open>net.LookupHost\<close>, and a record holds JSON coding, \<^verbatim>\<open>ed25519.Verify\<close> and the platform's
  encryption of files. \<^verbatim>\<open>failedIPs\<close> is an association list. The content of the cache file is part
  of the state. A panic is the outer \<^term>\<open>None\<close>.
\<close>

record signedCIDRList =
  cl_Country :: string
  cl_TS :: int
  cl_CIDRs :: "string list"
  cl_Sig :: string

record bypass_env =
  be_unmarshal :: "bytes \<Rightarrow> signedCIDRList option"
  be_country :: "bytes \<Rightarrow> string"
  be_marshal :: "string \<Rightarrow> int \<Rightarrow> string list \<Rightarrow> bytes"
  be_verify :: "bytes \<Rightarrow> bytes \<Rightarrow> bytes \<Rightarrow> bool"
  be_encrypt :: "bytes \<Rightarrow> bytes option"
  be_decrypt :: "bytes \<Rightarrow> bytes option"

record BypassManager =
  bm_exitURLs :: "string list"
  bm_pubkey :: "bytes option"
  bm_cacheFile :: string
  bm_cidrs :: "CIDRSet option"
  bm_country :: string
  bm_enabled :: bool
  bm_token :: string
  bm_myIP :: string
  bm_localIP :: string
  bm_cidrSource :: nat
  bm_failedIPs :: "(string \<times> time) list"
  bm_disk :: "bytes option"

definition NewBypassManager :: "string list \<Rightarrow> string \<Rightarrow> string \<Rightarrow> bytes option \<Rightarrow> BypassManager option" where
  "NewBypassManager exitURLs pubkeyHex cacheFile disk =
     (let m = \<lparr>bm_exitURLs = map trim_slashes exitURLs, bm_pubkey = None, bm_cacheFile = cacheFile, bm_cidrs = None,
               bm_country = [], bm_enabled = True, bm_token = [], bm_myIP = [], bm_localIP = [],
               bm_cidrSource = 0, bm_failedIPs = [], bm_disk = disk\<rparr> in
      if pubkeyHex \<noteq> [] then
        (case hex_decode pubkeyHex of
           None \<Rightarrow> None
         | Some b \<Rightarrow> if length b \<noteq> 32 then None else Some (m\<lparr>bm_pubkey := Some b\<rparr>))
      else Some m)"

definition SetToken :: "string \<Rightarrow> BypassManager \<Rightarrow> BypassManager" where "SetToken t m = m\<lparr>bm_token := t\<rparr>"
definition SetMyIP :: "string \<Rightarrow> BypassManager \<Rightarrow> BypassManager" where "SetMyIP a m = m\<lparr>bm_myIP := a\<rparr>"
definition SetLocalIP :: "string \<Rightarrow> BypassManager \<Rightarrow> BypassManager" where "SetLocalIP a m = m\<lparr>bm_localIP := a\<rparr>"
definition HasLocalIP :: "BypassManager \<Rightarrow> bool" where "HasLocalIP m \<longleftrightarrow> bm_localIP m \<noteq> []"
definition SetEnabled :: "bool \<Rightarrow> BypassManager \<Rightarrow> BypassManager" where "SetEnabled v m = m\<lparr>bm_enabled := v\<rparr>"

definition bm_SetNodes :: "string list \<Rightarrow> BypassManager \<Rightarrow> BypassManager" where
  "bm_SetNodes urls m = m\<lparr>bm_exitURLs := map trim_slashes urls\<rparr>"

definition ContainsIP :: "ip \<Rightarrow> BypassManager \<Rightarrow> bool option" where
  "ContainsIP a m = (case bm_cidrs m of None \<Rightarrow> Some False | Some c \<Rightarrow> Contains c a)"

definition CIDRStatus :: "BypassManager \<Rightarrow> string" where
  "CIDRStatus m = (if bm_cidrSource m = 1 then ''cached'' else if bm_cidrSource m = 2 then ''fresh'' else ''none'')"

section \<open>The decision\<close>

definition TrimSuffix :: "string \<Rightarrow> string \<Rightarrow> string" where
  "TrimSuffix s x = (if suffix x s then take (length s - length x) s else s)"

definition tldCountry :: "string \<Rightarrow> string" where
  "tldCountry fqdn =
     (let f = TrimSuffix fqdn ''.'' in
      if suffix ''.ru'' f then ''RU'' else if suffix ''.cn'' f then ''CN'' else [])"

definition resolve_ip :: "(string \<Rightarrow> string list option) \<Rightarrow> string \<Rightarrow> ip option" where
  "resolve_ip lookup host = (case ParseIP host of
     Some a \<Rightarrow> Some a
   | None \<Rightarrow> (case lookup host of
        None \<Rightarrow> None
      | Some [] \<Rightarrow> None
      | Some (s # r) \<Rightarrow> ParseIP s))"

definition ShouldBypass ::
  "(string \<Rightarrow> string list option) \<Rightarrow> dnsCache \<Rightarrow> time \<Rightarrow> string \<Rightarrow> BypassManager \<Rightarrow> (bool \<times> BypassManager) option" where
  "ShouldBypass lookup dns now addr m =
     (if \<not> bm_enabled m then Some (False, m)
      else case resolve_ip lookup (host_part addr) of
        None \<Rightarrow> Some (False, m)
      | Some a \<Rightarrow>
         let ipStr = IP_String a; failed = map_of (bm_failedIPs m) ipStr in
         if (case failed of None \<Rightarrow> False | Some ex \<Rightarrow> now < ex) then Some (False, m)
         else
           let m1 = (if failed = None then m else m\<lparr>bm_failedIPs := AList.delete ipStr (bm_failedIPs m)\<rparr>);
               dc = (if bm_country m \<noteq> [] \<and> dns_Get now ipStr dns \<noteq> [] then tldCountry (dns_Get now ipStr dns) else []) in
           if dc \<noteq> [] then Some (dc = bm_country m, m1)
           else (case bm_cidrs m of
               None \<Rightarrow> Some (False, m1)
             | Some c \<Rightarrow> if cidr_Len c = 0 then Some (False, m1) else map_option (\<lambda>b. (b, m1)) (Contains c a)))"

definition RecordBypassFailure :: "time \<Rightarrow> string \<Rightarrow> BypassManager \<Rightarrow> BypassManager" where
  "RecordBypassFailure now addr m =
     (let host = host_part addr in
      if ParseIP host = None then m
      else m\<lparr>bm_failedIPs := AList.update host (now + 30 * minute) (bm_failedIPs m)\<rparr>)"

text \<open>The timeout and the local address of the dialer; the address the UDP socket is bound to.\<close>

definition BypassDialer :: "BypassManager \<Rightarrow> int \<times> ip option" where
  "BypassDialer m = (10 * second, if bm_localIP m \<noteq> [] then ParseIP (bm_localIP m) else None)"

definition DialUDP :: "BypassManager \<Rightarrow> string" where
  "DialUDP m = (if bm_localIP m \<noteq> [] then bm_localIP m @ '':0'' else ''0.0.0.0:0'')"

section \<open>Loading the list\<close>

datatype cidr_error = CidrParse | CidrSignature | CidrTooOld

definition verifyCIDR :: "bypass_env \<Rightarrow> time \<Rightarrow> BypassManager \<Rightarrow> bytes \<Rightarrow> cidr_error + CIDRSet" where
  "verifyCIDR env now m data = (case be_unmarshal env data of
     None \<Rightarrow> Inl CidrParse
   | Some p \<Rightarrow>
      if (case bm_pubkey m of
            None \<Rightarrow> False
          | Some k \<Rightarrow> (case base64_decode (cl_Sig p) of
              None \<Rightarrow> True
            | Some sig \<Rightarrow> \<not> be_verify env k (be_marshal env (cl_Country p) (cl_TS p) (cl_CIDRs p)) sig))
      then Inl CidrSignature
      else if now - cl_TS p * second > 25 * 60 * minute then Inl CidrTooOld
      else Inr (ParseCIDRs (cl_CIDRs p)))"

definition bm_persist :: "bypass_env \<Rightarrow> bytes \<Rightarrow> BypassManager \<Rightarrow> BypassManager" where
  "bm_persist env data m =
     (if bm_cacheFile m = [] then m
      else case be_encrypt env data of None \<Rightarrow> m | Some enc \<Rightarrow> m\<lparr>bm_disk := Some enc\<rparr>)"

text \<open>The request goes to a URL with a session token, from a local address.\<close>

type_synonym cidr_http = "string \<Rightarrow> string \<Rightarrow> string \<Rightarrow> http_result \<times> time"

definition fetchCIDR :: "cidr_http \<Rightarrow> string \<Rightarrow> BypassManager \<Rightarrow> bytes option \<times> time" where
  "fetchCIDR http exitURL m =
     (let u = exitURL @ ''/api/bypass/cidr'' @ (if bm_myIP m \<noteq> [] then ''?ip='' @ bm_myIP m else []);
          (r, t) = http u (bm_token m) (bm_localIP m) in
      (case r of
         HttpErr \<Rightarrow> (None, t)
       | HttpResp st body \<Rightarrow> if st \<noteq> 200 then (None, t) else (Some (take (10 * 2 ^ 20) body), t)))"

definition bm_load :: "bypass_env \<Rightarrow> CIDRSet \<Rightarrow> bytes \<Rightarrow> nat \<Rightarrow> BypassManager \<Rightarrow> BypassManager" where
  "bm_load env cs data src m = m\<lparr>bm_cidrs := Some cs, bm_country := be_country env data, bm_cidrSource := src\<rparr>"

fun refresh_from :: "bypass_env \<Rightarrow> cidr_http \<Rightarrow> string list \<Rightarrow> BypassManager \<Rightarrow> bool \<times> BypassManager" where
  "refresh_from env http [] m = (False, m)"
| "refresh_from env http (u # us) m = (case fetchCIDR http u m of
     (None, t) \<Rightarrow> refresh_from env http us m
   | (Some data, t) \<Rightarrow>
      (case verifyCIDR env t m data of
         Inl e \<Rightarrow> refresh_from env http us m
       | Inr cs \<Rightarrow> (True, bm_persist env data (bm_load env cs data 2 m))))"

definition refresh :: "bypass_env \<Rightarrow> cidr_http \<Rightarrow> BypassManager \<Rightarrow> bool \<times> BypassManager" where
  "refresh env http m = (if bm_token m = [] then (False, m) else refresh_from env http (bm_exitURLs m) m)"

definition loadCached :: "bypass_env \<Rightarrow> time \<Rightarrow> BypassManager \<Rightarrow> BypassManager" where
  "loadCached env now m =
     (if bm_cacheFile m = [] then m
      else case bm_disk m of
        None \<Rightarrow> m
      | Some enc \<Rightarrow>
         let plain = (case be_decrypt env enc of None \<Rightarrow> enc | Some p \<Rightarrow> p) in
         (case verifyCIDR env now m plain of
            Inl e \<Rightarrow> m
          | Inr cs \<Rightarrow> bm_load env cs plain 1 m))"

text \<open>One round of the refresh loop of \<open>Start\<close> and the interval to the next.\<close>

definition bm_tick :: "bypass_env \<Rightarrow> cidr_http \<Rightarrow> BypassManager \<Rightarrow> int \<times> BypassManager" where
  "bm_tick env http m =
     (let (ok, m1) = refresh env http m in (if ok then 30 * minute else 2 * minute, m1))"

definition bm_Start :: "bypass_env \<Rightarrow> time \<Rightarrow> cidr_http \<Rightarrow> BypassManager \<Rightarrow> int \<times> BypassManager" where
  "bm_Start env now http m = bm_tick env http (loadCached env now m)"

section \<open>Histories of a manager\<close>

text \<open>What happens to a manager: setters, refresh rounds with arbitrary answers from the network,
  loading of the cache, questions, recorded failures, and replacement of the cache file by others.\<close>

datatype bm_op = OpToken string | OpMyIP string | OpLocalIP string | OpEnabled bool | OpNodes "string list"
  | OpTick cidr_http | OpLoad time | OpAsk "string \<Rightarrow> string list option" dnsCache time string
  | OpFailed time string | OpDisk "bytes option"

fun bm_step :: "bypass_env \<Rightarrow> bm_op \<Rightarrow> BypassManager \<Rightarrow> BypassManager" where
  "bm_step env (OpToken t) m = SetToken t m"
| "bm_step env (OpMyIP a) m = SetMyIP a m"
| "bm_step env (OpLocalIP a) m = SetLocalIP a m"
| "bm_step env (OpEnabled v) m = SetEnabled v m"
| "bm_step env (OpNodes us) m = bm_SetNodes us m"
| "bm_step env (OpTick http) m = snd (bm_tick env http m)"
| "bm_step env (OpLoad t) m = loadCached env t m"
| "bm_step env (OpAsk lookup dns t addr) m = (case ShouldBypass lookup dns t addr m of None \<Rightarrow> m | Some (b, m1) \<Rightarrow> m1)"
| "bm_step env (OpFailed t addr) m = RecordBypassFailure t addr m"
| "bm_step env (OpDisk d) m = m\<lparr>bm_disk := d\<rparr>"

definition signed_list :: "bypass_env \<Rightarrow> bytes \<Rightarrow> signedCIDRList \<Rightarrow> bool" where
  "signed_list env k p \<longleftrightarrow> (\<exists>sig t. base64_decode (cl_Sig p) = Some sig \<and>
     be_verify env k (be_marshal env (cl_Country p) (cl_TS p) (cl_CIDRs p)) sig \<and> t - cl_TS p * second \<le> 25 * 60 * minute)"

text \<open>The two decodings of a document agree on the country.\<close>

definition countries_agree :: "bypass_env \<Rightarrow> bool" where
  "countries_agree env \<longleftrightarrow> (\<forall>data p. be_unmarshal env data = Some p \<longrightarrow> be_country env data = cl_Country p)"

definition bm_inv :: "bypass_env \<Rightarrow> bytes \<Rightarrow> BypassManager \<Rightarrow> bool" where
  "bm_inv env k m \<longleftrightarrow> bm_pubkey m = Some k \<and>
     (case bm_cidrs m of
        None \<Rightarrow> bm_country m = [] \<and> bm_cidrSource m = 0
      | Some cs \<Rightarrow> bm_cidrSource m \<in> {1, 2} \<and>
          (\<exists>p. signed_list env k p \<and> cs = ParseCIDRs (cl_CIDRs p) \<and> bm_country m = cl_Country p))"

section \<open>Facts\<close>

lemma verifyCIDR_signed:
  "verifyCIDR env now m data = Inr cs \<Longrightarrow> bm_pubkey m = Some k \<Longrightarrow>
   \<exists>p. be_unmarshal env data = Some p \<and> signed_list env k p \<and> cs = ParseCIDRs (cl_CIDRs p)"
  unfolding verifyCIDR_def signed_list_def by (auto simp: not_less split: option.splits if_splits)

lemma bm_persist_fields [simp]:
  "bm_pubkey (bm_persist env d m) = bm_pubkey m" "bm_cidrs (bm_persist env d m) = bm_cidrs m"
  "bm_country (bm_persist env d m) = bm_country m" "bm_cidrSource (bm_persist env d m) = bm_cidrSource m"
  by (simp_all add: bm_persist_def split: option.splits)

lemma bm_inv_load:
  assumes "verifyCIDR env now m data = Inr cs" "bm_inv env k m" "countries_agree env" "s \<in> {1, 2}"
  shows "bm_inv env k (bm_load env cs data s m)"
  using verifyCIDR_signed [OF assms(1)] assms(2-)
  by (fastforce simp: bm_inv_def bm_load_def countries_agree_def)

lemma bm_inv_cong:
  "bm_pubkey m' = bm_pubkey m \<Longrightarrow> bm_cidrs m' = bm_cidrs m \<Longrightarrow> bm_country m' = bm_country m \<Longrightarrow>
   bm_cidrSource m' = bm_cidrSource m \<Longrightarrow> bm_inv env k m' = bm_inv env k m"
  by (simp add: bm_inv_def cong: option.case_cong)

lemma refresh_from_inv:
  "bm_inv env k m \<Longrightarrow> countries_agree env \<Longrightarrow> bm_inv env k (snd (refresh_from env http us m))"
proof (induction us)
  case (Cons u us)
  have "bm_inv env k (bm_persist env data (bm_load env cs data 2 m))" if "verifyCIDR env t m data = Inr cs" for data t cs
    using bm_inv_load [OF that Cons.prems, of 2] bm_inv_cong [of "bm_persist env data (bm_load env cs data 2 m)"] by simp
  with Cons show ?case by (auto split: prod.splits option.splits sum.splits)
qed simp

lemma loadCached_inv: "bm_inv env k m \<Longrightarrow> countries_agree env \<Longrightarrow> bm_inv env k (loadCached env t m)"
  using bm_inv_load [of env t m _ _ k 1] by (auto simp: loadCached_def Let_def split: option.splits sum.splits)

lemma RecordBypassFailure_fields [simp]:
  "bm_pubkey (RecordBypassFailure t a m) = bm_pubkey m" "bm_cidrs (RecordBypassFailure t a m) = bm_cidrs m"
  "bm_country (RecordBypassFailure t a m) = bm_country m" "bm_cidrSource (RecordBypassFailure t a m) = bm_cidrSource m"
  "bm_enabled (RecordBypassFailure t a m) = bm_enabled m"
  by (simp_all add: RecordBypassFailure_def Let_def)

lemma ShouldBypass_fields:
  assumes "ShouldBypass lookup dns t addr m = Some (b, m')"
  shows "bm_pubkey m' = bm_pubkey m \<and> bm_cidrs m' = bm_cidrs m \<and> bm_country m' = bm_country m \<and>
    bm_cidrSource m' = bm_cidrSource m \<and> bm_enabled m' = bm_enabled m"
proof -
  have "m' = m \<or> (\<exists>s. m' = m\<lparr>bm_failedIPs := s\<rparr>)"
    using assms unfolding ShouldBypass_def Let_def by (auto split: if_splits option.splits)
  then show ?thesis by auto
qed

lemma bm_inv_setters:
  assumes "bm_inv env k m"
  shows "bm_inv env k (SetToken t m)" "bm_inv env k (SetMyIP t m)" "bm_inv env k (SetLocalIP t m)"
    "bm_inv env k (SetEnabled v m)" "bm_inv env k (bm_SetNodes us m)" "bm_inv env k (RecordBypassFailure now t m)"
    "bm_inv env k (m\<lparr>bm_disk := d\<rparr>)"
  using assms by (simp_all add: SetToken_def SetMyIP_def SetLocalIP_def SetEnabled_def bm_SetNodes_def bm_inv_def cong: option.case_cong)

lemma bm_tick_inv: "bm_inv env k m \<Longrightarrow> countries_agree env \<Longrightarrow> bm_inv env k (snd (bm_tick env http m))"
  using refresh_from_inv [of env k m http "bm_exitURLs m"]
  by (simp add: bm_tick_def refresh_def case_prod_unfold Let_def)

lemma ShouldBypass_inv: "bm_inv env k m \<Longrightarrow> ShouldBypass lookup dns t addr m = Some (b, m') \<Longrightarrow> bm_inv env k m'"
  using ShouldBypass_fields [of lookup dns t addr m b m'] bm_inv_cong [of m' m env k] by simp

lemma bm_step_inv:
  assumes "bm_inv env k m" "countries_agree env"
  shows "bm_inv env k (bm_step env x m)"
proof (cases x)
  case (OpAsk lookup dns t addr)
  then show ?thesis
    using assms ShouldBypass_inv [OF assms(1), of lookup dns t addr] by (auto split: option.splits)
qed (simp_all add: assms bm_inv_setters bm_tick_inv loadCached_inv)

lemma bm_run_inv:
  "bm_inv env k m \<Longrightarrow> countries_agree env \<Longrightarrow> bm_inv env k (fold (bm_step env) ops m)"
  by (induction ops arbitrary: m) (simp_all add: bm_step_inv)

lemma NewBypassManager_inv:
  "NewBypassManager us hex file d = Some m \<Longrightarrow> hex \<noteq> [] \<Longrightarrow> \<exists>k. hex_decode hex = Some k \<and> length k = 32 \<and> bm_inv env k m"
  by (auto simp: NewBypassManager_def Let_def bm_inv_def split: option.splits if_splits)

text \<open>A positive answer has a reason.\<close>

definition bypass_reason :: "bypass_env \<Rightarrow> bytes \<Rightarrow> dnsCache \<Rightarrow> time \<Rightarrow> ip \<Rightarrow> bool" where
  "bypass_reason env k dns now a \<longleftrightarrow> (\<exists>p. signed_list env k p \<and>
     (tldCountry (dns_Get now (IP_String a) dns) = cl_Country p \<and> cl_Country p \<noteq> [] \<or>
      (\<exists>n \<in> set (parsed_nets (cl_CIDRs p)). net_covers n (lookup_form a))))"

lemma ShouldBypass_reason:
  assumes "bm_inv env k m"
  shows "\<exists>b m'. ShouldBypass lookup dns now addr m = Some (b, m') \<and>
    (b \<longrightarrow> bm_enabled m \<and> (\<exists>a. resolve_ip lookup (host_part addr) = Some a \<and> bypass_reason env k dns now a))"
proof (cases "bm_cidrs m")
  case None
  then have "bm_country m = []" using assms by (simp add: bm_inv_def)
  with None show ?thesis by (auto simp: ShouldBypass_def Let_def split: option.splits)
next
  case (Some cs)
  then obtain p where p: "signed_list env k p" "cs = ParseCIDRs (cl_CIDRs p)" "bm_country m = cl_Country p"
    using assms by (auto simp: bm_inv_def)
  show ?thesis
  proof (cases "resolve_ip lookup (host_part addr)")
    case None
    then show ?thesis by (auto simp: ShouldBypass_def)
  next
    case r: (Some a)
    obtain c where c: "Contains cs a = Some c" "c \<Longrightarrow> \<exists>n \<in> set (parsed_nets (cl_CIDRs p)). net_covers n (lookup_form a)"
      using Contains_sound [of "cl_CIDRs p" a] p(2) by blast
    have "bypass_reason env k dns now a" if "tldCountry (dns_Get now (IP_String a) dns) = cl_Country p" "cl_Country p \<noteq> []"
      using that p(1) by (auto simp: bypass_reason_def)
    moreover have "bypass_reason env k dns now a" if c using that c(2) p(1) by (auto simp: bypass_reason_def)
    ultimately show ?thesis using Some r c(1) p(3) by (auto simp: ShouldBypass_def Let_def split: option.splits)
  qed
qed

text \<open>The window of a recorded failure.\<close>

lemma failed_window:
  assumes "host_part addr = host" "ParseIP host = Some a" "IP_String a = host" "m' = RecordBypassFailure t addr m"
  shows "now < t + 30 * minute \<Longrightarrow> host_part addr' = host \<Longrightarrow> ShouldBypass lookup dns now addr' m' = Some (False, m')"
    and "t + 30 * minute \<le> now \<Longrightarrow> host_part addr' = host \<Longrightarrow> bm_enabled m \<Longrightarrow>
      ShouldBypass lookup dns now addr' m' = ShouldBypass lookup dns now addr' (m\<lparr>bm_failedIPs := AList.delete host (bm_failedIPs m)\<rparr>)"
proof -
  have m': "m' = m\<lparr>bm_failedIPs := AList.update host (t + 30 * minute) (bm_failedIPs m)\<rparr>"
    using assms by (simp add: RecordBypassFailure_def Let_def)
  have r: "resolve_ip lookup (host_part addr') = Some a" if "host_part addr' = host" using that assms(2) by (simp add: resolve_ip_def)
  show "ShouldBypass lookup dns now addr' m' = Some (False, m')" if "now < t + 30 * minute" "host_part addr' = host"
    using that r assms(3) by (simp add: ShouldBypass_def m' update_conv Let_def)
  show "ShouldBypass lookup dns now addr' m' = ShouldBypass lookup dns now addr' (m\<lparr>bm_failedIPs := AList.delete host (bm_failedIPs m)\<rparr>)"
    if "t + 30 * minute \<le> now" "host_part addr' = host" "bm_enabled m"
    using that r assms(3) by (simp add: ShouldBypass_def m' update_conv Let_def delete_update_same delete_conv' cong: option.case_cong)
qed

section \<open>Properties\<close>


definition sample_bypass_env :: bypass_env where
  "sample_bypass_env =
     \<lparr>be_unmarshal = (\<lambda>d. Some \<lparr>cl_Country = ''RU'', cl_TS = 0, cl_CIDRs = [''10.0.0.0/8''], cl_Sig = []\<rparr>),
      be_country = (\<lambda>d. ''RU''), be_marshal = (\<lambda>c t l. []), be_verify = (\<lambda>k d s. True),
      be_encrypt = Some, be_decrypt = Some\<rparr>"


end
