(* ===== verification/Watchdog.thy ===== *)
theory Watchdog
  imports Prelude
begin

text \<open>
  The traffic monitor of \<^verbatim>\<open>watchdog.go\<close> and the persisted state of \<^verbatim>\<open>watchdog_state.go\<close>. Go's zero
  time is \<^term>\<open>None\<close>. The state file is its content, or \<^term>\<open>None\<close> when it cannot be read; JSON
  coding is given by the parameters \<open>enc\<close> and \<open>dec\<close>.
\<close>

record TunnelTrafficMonitor =
  tm_firstSentAt :: "time option"
  tm_lastSentAt :: "time option"
  tm_lastGoodRecvAt :: "time option"

definition TunnelMonitor :: TunnelTrafficMonitor where
  "TunnelMonitor = \<lparr>tm_firstSentAt = None, tm_lastSentAt = None, tm_lastGoodRecvAt = None\<rparr>"

definition tunnelStuckTimeout :: int where "tunnelStuckTimeout = 10 * second"

definition RecordTunnelSent :: "time \<Rightarrow> nat \<Rightarrow> TunnelTrafficMonitor \<Rightarrow> TunnelTrafficMonitor" where
  "RecordTunnelSent now n m =
     (if n = 0 then m
      else m\<lparr>tm_firstSentAt := (if tm_firstSentAt m = None then Some now else tm_firstSentAt m), tm_lastSentAt := Some now\<rparr>)"

definition RecordTunnelRecv :: "time \<Rightarrow> nat \<Rightarrow> TunnelTrafficMonitor \<Rightarrow> TunnelTrafficMonitor" where
  "RecordTunnelRecv now n m = (if n = 0 then m else m\<lparr>tm_lastGoodRecvAt := Some now\<rparr>)"

definition IsStuck :: "time \<Rightarrow> TunnelTrafficMonitor \<Rightarrow> bool" where
  "IsStuck now m = (case tm_lastSentAt m of
     None \<Rightarrow> False
   | Some sent \<Rightarrow>
      if now - sent > tunnelStuckTimeout then False
      else (case tm_lastGoodRecvAt m of
          None \<Rightarrow> (case tm_firstSentAt m of None \<Rightarrow> True | Some f \<Rightarrow> now - f > tunnelStuckTimeout)
        | Some recv \<Rightarrow> now - recv > tunnelStuckTimeout))"

definition tm_Reset :: "TunnelTrafficMonitor \<Rightarrow> TunnelTrafficMonitor" where
  "tm_Reset m = m\<lparr>tm_firstSentAt := None, tm_lastSentAt := None, tm_lastGoodRecvAt := None\<rparr>"

section \<open>Persisted state\<close>

record WatchdogState =
  wd_Connected :: bool
  wd_OrigGW :: string
  wd_MainPID :: int
  wd_LastAlive :: int
  wd_LastWake :: int
  wd_TunnelHealthy :: bool

definition zeroWatchdogState :: WatchdogState where
  "zeroWatchdogState = \<lparr>wd_Connected = False, wd_OrigGW = [], wd_MainPID = 0, wd_LastAlive = 0, wd_LastWake = 0, wd_TunnelHealthy = False\<rparr>"

type_synonym wd_enc = "WatchdogState \<Rightarrow> bytes option"
type_synonym wd_dec = "bytes \<Rightarrow> WatchdogState"

definition WriteWatchdogState :: "wd_enc \<Rightarrow> WatchdogState \<Rightarrow> bytes option \<Rightarrow> bytes option" where
  "WriteWatchdogState enc s file = (case enc s of None \<Rightarrow> file | Some data \<Rightarrow> Some data)"

definition ReadWatchdogState :: "wd_dec \<Rightarrow> bytes option \<Rightarrow> WatchdogState" where
  "ReadWatchdogState dec file = (case file of None \<Rightarrow> zeroWatchdogState | Some data \<Rightarrow> dec data)"

text \<open>The touch functions decode what they read even when the read failed: no bytes.\<close>

definition wd_update :: "wd_enc \<Rightarrow> wd_dec \<Rightarrow> (WatchdogState \<Rightarrow> WatchdogState) \<Rightarrow> bytes option \<Rightarrow> bytes option" where
  "wd_update enc dec f file =
     (let s = dec (case file of None \<Rightarrow> [] | Some d \<Rightarrow> d) in
      case enc (f s) of None \<Rightarrow> file | Some b \<Rightarrow> Some b)"

definition TouchAlive :: "wd_enc \<Rightarrow> wd_dec \<Rightarrow> int \<Rightarrow> bytes option \<Rightarrow> bytes option" where
  "TouchAlive enc dec now = wd_update enc dec (\<lambda>s. s\<lparr>wd_LastAlive := now\<rparr>)"

definition TouchLastWake :: "wd_enc \<Rightarrow> wd_dec \<Rightarrow> int \<Rightarrow> bytes option \<Rightarrow> bytes option" where
  "TouchLastWake enc dec now = wd_update enc dec (\<lambda>s. s\<lparr>wd_LastWake := now\<rparr>)"

definition SetTunnelHealthy :: "wd_enc \<Rightarrow> wd_dec \<Rightarrow> bool \<Rightarrow> bytes option \<Rightarrow> bytes option" where
  "SetTunnelHealthy enc dec healthy = wd_update enc dec (\<lambda>s. s\<lparr>wd_TunnelHealthy := healthy\<rparr>)"

section \<open>Facts\<close>

text \<open>Reading back: each touch function changes its own field and keeps the others.\<close>

lemma touch_reads_back:
  assumes "\<And>s. \<exists>b. enc s = Some b \<and> dec b = s" "dec [] = zeroWatchdogState"
  shows "ReadWatchdogState dec (TouchAlive enc dec t file) = (ReadWatchdogState dec file)\<lparr>wd_LastAlive := t\<rparr>"
    and "ReadWatchdogState dec (TouchLastWake enc dec t file) = (ReadWatchdogState dec file)\<lparr>wd_LastWake := t\<rparr>"
    and "ReadWatchdogState dec (SetTunnelHealthy enc dec h file) = (ReadWatchdogState dec file)\<lparr>wd_TunnelHealthy := h\<rparr>"
    and "ReadWatchdogState dec (WriteWatchdogState enc s file) = s"
proof -
  have "ReadWatchdogState dec (wd_update enc dec f file) = f (ReadWatchdogState dec file)" for f
    using assms(1) [of "f (dec (case file of None \<Rightarrow> [] | Some d \<Rightarrow> d))"] assms(2)
    by (auto simp: ReadWatchdogState_def wd_update_def Let_def split: option.splits)
  then show "ReadWatchdogState dec (TouchAlive enc dec t file) = (ReadWatchdogState dec file)\<lparr>wd_LastAlive := t\<rparr>"
    "ReadWatchdogState dec (TouchLastWake enc dec t file) = (ReadWatchdogState dec file)\<lparr>wd_LastWake := t\<rparr>"
    "ReadWatchdogState dec (SetTunnelHealthy enc dec h file) = (ReadWatchdogState dec file)\<lparr>wd_TunnelHealthy := h\<rparr>"
    by (simp_all add: TouchAlive_def TouchLastWake_def SetTunnelHealthy_def)
  show "ReadWatchdogState dec (WriteWatchdogState enc s file) = s"
    using assms(1) [of s] by (auto simp: ReadWatchdogState_def WriteWatchdogState_def)
qed

text \<open>Traffic since the last reset.\<close>

datatype traffic = Sent time nat | Received time nat

fun traffic_step :: "traffic \<Rightarrow> TunnelTrafficMonitor \<Rightarrow> TunnelTrafficMonitor" where
  "traffic_step (Sent t n) m = RecordTunnelSent t n m"
| "traffic_step (Received t n) m = RecordTunnelRecv t n m"

definition sends :: "traffic list \<Rightarrow> time list" where
  "sends evs = List.map_filter (\<lambda>e. case e of Sent t n \<Rightarrow> if n = 0 then None else Some t | _ \<Rightarrow> None) evs"

definition receipts :: "traffic list \<Rightarrow> time list" where
  "receipts evs = List.map_filter (\<lambda>e. case e of Received t n \<Rightarrow> if n = 0 then None else Some t | _ \<Rightarrow> None) evs"

definition monitor_after :: "traffic list \<Rightarrow> TunnelTrafficMonitor" where
  "monitor_after evs = fold traffic_step evs TunnelMonitor"

lemma map_filter_snoc: "List.map_filter f (xs @ [x]) = List.map_filter f xs @ (case f x of None \<Rightarrow> [] | Some y \<Rightarrow> [y])"
  by (induction xs) (auto split: option.splits)

lemma monitor_after_fields:
  "tm_firstSentAt (monitor_after evs) = (if sends evs = [] then None else Some (hd (sends evs))) \<and>
   tm_lastSentAt (monitor_after evs) = (if sends evs = [] then None else Some (last (sends evs))) \<and>
   tm_lastGoodRecvAt (monitor_after evs) = (if receipts evs = [] then None else Some (last (receipts evs)))"
proof (induction evs rule: rev_induct)
  case Nil
  show ?case by (simp add: monitor_after_def TunnelMonitor_def sends_def receipts_def)
next
  case (snoc e evs)
  have "monitor_after (evs @ [e]) = traffic_step e (monitor_after evs)" by (simp add: monitor_after_def)
  with snoc show ?case
    by (cases e) (auto simp: sends_def receipts_def map_filter_snoc RecordTunnelSent_def RecordTunnelRecv_def)
qed

section \<open>Properties\<close>

text \<open>Property C34. When the watchdog calls the tunnel stuck: there is payload sent within the last ten
  seconds, and either something was received but not within ten seconds, or nothing ever was and the
  first payload is more than ten seconds old. In particular, traffic that resumes after an idle spell
  is reported at once: the first payload sent more than ten seconds after the last receipt makes
  \<open>IsStuck\<close> true in the same instant, although no answer is due yet.\<close>

theorem stuck_iff:
  "(IsStuck now (monitor_after evs) \<longleftrightarrow>
     sends evs \<noteq> [] \<and> now - last (sends evs) \<le> tunnelStuckTimeout \<and>
     now - (if receipts evs = [] then hd (sends evs) else last (receipts evs)) > tunnelStuckTimeout) \<and>
   (n > 0 \<and> receipts evs \<noteq> [] \<and> last (receipts evs) + tunnelStuckTimeout < now \<longrightarrow>
     IsStuck now (monitor_after (evs @ [Sent now n])))"
proof
  show iff: "IsStuck now (monitor_after evs) \<longleftrightarrow>
     sends evs \<noteq> [] \<and> now - last (sends evs) \<le> tunnelStuckTimeout \<and>
     now - (if receipts evs = [] then hd (sends evs) else last (receipts evs)) > tunnelStuckTimeout" for evs
    using monitor_after_fields [of evs] by (auto simp: IsStuck_def)
  show "n > 0 \<and> receipts evs \<noteq> [] \<and> last (receipts evs) + tunnelStuckTimeout < now \<longrightarrow>
     IsStuck now (monitor_after (evs @ [Sent now n]))"
    unfolding iff by (simp add: sends_def receipts_def map_filter_snoc tunnelStuckTimeout_def)
qed

theorem stuck_iff_witness:
  "IsStuck (minute + second) (monitor_after ([Sent 0 5, Received second 5] @ [Sent (minute + second) 7]))"
proof -
  have "receipts [Sent 0 5, Received second 5] = [second]" by (simp add: receipts_def)
  then show ?thesis using conjunct2 [OF stuck_iff [of "minute + second" "[Sent 0 5, Received second 5]" 7]]
    by (simp add: tunnelStuckTimeout_def)
qed

end
