(* ===== verification/UDP_Assoc.thy ===== *)
theory UDP_Assoc
  imports Socks_Wire Bypass_Rules Watchdog Frame_Codec
begin

text \<open>
  SOCKS5 UDP associations (\<^verbatim>\<open>udp_assoc.go\<close>) and the tunnel calls they make (\<open>PostUDPFrame\<close>,
  \<open>DrainUDPFrames\<close> of \<^verbatim>\<open>tunnel.go\<close>). A session is a record; its goroutines (the relay loop, one send
  worker and one drain loop per destination, the fallback timers) are steps that interleave freely.
  Maps are association lists, channels are lists with a capacity, the relay socket's writes are
  effects. The bypass manager and the DNS cache are shared with the rest of the program and are part
  of the state. Go's zero time is \<^term>\<open>None\<close>.
\<close>

definition socks5UDPFallbackSent :: nat where "socks5UDPFallbackSent = 3"
definition socks5UDPFallbackTimeout :: int where "socks5UDPFallbackTimeout = 3 * second"
definition tunnelCBThreshold :: nat where "tunnelCBThreshold = 5"
definition tunnelCBCooldown :: int where "tunnelCBCooldown = 5 * second"
definition tunnelWorkerQDepth :: nat where "tunnelWorkerQDepth = 64"

record dstStats =
  st_sentCount :: nat
  st_recvCount :: nat
  st_firstSentAt :: "time option"
  st_useTunnel :: bool
  st_tunnelErrStreak :: nat
  st_tunnelBlockedUntil :: "time option"

definition newDstStats :: dstStats where
  "newDstStats = \<lparr>st_sentCount = 0, st_recvCount = 0, st_firstSentAt = None, st_useTunnel = False,
     st_tunnelErrStreak = 0, st_tunnelBlockedUntil = None\<rparr>"

record udpAssocSession =
  us_bypass :: "BypassManager option"
  us_tunnelOnly :: bool
  us_altDNSRouting :: bool
  us_stats :: "(string \<times> dstStats) list"
  us_clientUDPAddr :: "UDPAddr option"
  us_blockQUIC :: bool
  us_drainActive :: "string list"
  us_drains :: "UDPAddr list"
  us_tunnelWorkers :: "(string \<times> UDPAddr \<times> bytes list) list"
  us_fallbacks :: "(string \<times> time) list"
  us_stopped :: bool
  us_dns :: dnsCache

definition newUDPAssocSession :: "BypassManager option \<Rightarrow> bool \<Rightarrow> bool \<Rightarrow> dnsCache \<Rightarrow> udpAssocSession" where
  "newUDPAssocSession bypass altDNSRouting blockQUIC dns =
     \<lparr>us_bypass = bypass, us_tunnelOnly = (bypass = None), us_altDNSRouting = altDNSRouting, us_stats = [],
      us_clientUDPAddr = None, us_blockQUIC = blockQUIC, us_drainActive = [], us_drains = [],
      us_tunnelWorkers = [], us_fallbacks = [], us_stopped = False, us_dns = dns\<rparr>"

text \<open>Writes on the relay socket: a payload straight to its destination, or a wrapped one to the client.\<close>

datatype udp_effect = SendDirect UDPAddr bytes | SendClient UDPAddr bytes

section \<open>The outbound side\<close>

definition blocked_now :: "time \<Rightarrow> string \<Rightarrow> udpAssocSession \<Rightarrow> bool" where
  "blocked_now now key s = (case map_of (us_stats s) key of
     None \<Rightarrow> False
   | Some st \<Rightarrow> (case st_tunnelBlockedUntil st of None \<Rightarrow> False | Some u \<Rightarrow> now < u))"

text \<open>\<open>goSendViaTunnel\<close>; \<^term>\<open>None\<close> when the send on the queue has to wait for the worker. A stopped
  session drops the datagram.\<close>

definition goSendViaTunnel :: "time \<Rightarrow> UDPAddr \<Rightarrow> bytes \<Rightarrow> udpAssocSession \<Rightarrow> udpAssocSession option" where
  "goSendViaTunnel now dst payload s =
     (let key = UDPAddr_String dst in
      if blocked_now now key s then Some s
      else
        let (d, q) = (case map_of (us_tunnelWorkers s) key of None \<Rightarrow> (dst, []) | Some w \<Rightarrow> w) in
        if length q < tunnelWorkerQDepth then Some (s\<lparr>us_tunnelWorkers := AList.update key (d, q @ [payload]) (us_tunnelWorkers s)\<rparr>)
        else if us_stopped s then Some s
        else None)"

text \<open>Whether a destination may be reached directly; asking may drop an expired failure. The outer
  \<^term>\<open>None\<close> is a panic.\<close>

definition is_bypass_dst ::
  "(string \<Rightarrow> string list option) \<Rightarrow> time \<Rightarrow> string \<Rightarrow> udpAssocSession \<Rightarrow> (bool \<times> udpAssocSession) option" where
  "is_bypass_dst lookup now dstStr s =
     (if isLANAddress dstStr then Some (True, s)
      else case us_bypass s of
        None \<Rightarrow> Some (False, s)
      | Some m \<Rightarrow> map_option (\<lambda>(b, m1). (b, s\<lparr>us_bypass := Some m1\<rparr>)) (ShouldBypass lookup (us_dns s) now dstStr m))"

text \<open>The counting of sends before the route is chosen.\<close>

definition count_send :: "time \<Rightarrow> string \<Rightarrow> udpAssocSession \<Rightarrow> dstStats \<times> udpAssocSession" where
  "count_send now key s =
     (let st = (case map_of (us_stats s) key of None \<Rightarrow> newDstStats | Some st \<Rightarrow> st);
          st1 = (if st_useTunnel st then st
                 else st\<lparr>st_firstSentAt := (if st_sentCount st = 0 then Some now else st_firstSentAt st),
                         st_sentCount := st_sentCount st + 1\<rparr>) in
      (st1, s\<lparr>us_stats := AList.update key st1 (us_stats s)\<rparr>))"

definition forwardOutbound ::
  "(string \<Rightarrow> string list option) \<Rightarrow> time \<Rightarrow> UDPAddr \<Rightarrow> bytes \<Rightarrow> udpAssocSession \<Rightarrow> (udpAssocSession \<times> udp_effect list) option option" where
  "forwardOutbound lookup now dst payload s =
     (if To4 (ua_IP dst) = None then Some (Some (s, []))
      else if ua_Port dst = 53 then
        (if us_altDNSRouting s \<and> \<not> us_tunnelOnly s then Some (Some (s, [SendDirect dst payload]))
         else Some (map_option (\<lambda>s1. (s1, [])) (goSendViaTunnel now dst payload s)))
      else
        let key = UDPAddr_String dst; (st, s1) = count_send now key s in
        case is_bypass_dst lookup now key s1 of
          None \<Rightarrow> None
        | Some (isBypassDst, s2) \<Rightarrow>
            if st_useTunnel st \<or> us_tunnelOnly s \<or> \<not> isBypassDst
            then Some (map_option (\<lambda>s3. (s3, [])) (goSendViaTunnel now dst payload s2))
            else Some (Some
              (if st_sentCount st = socks5UDPFallbackSent
               then s2\<lparr>us_fallbacks := us_fallbacks s2 @ [(key, now + socks5UDPFallbackTimeout)]\<rparr> else s2,
               [SendDirect dst payload])))"

section \<open>The inbound side\<close>

definition recordRecv :: "UDPAddr \<Rightarrow> udpAssocSession \<Rightarrow> udpAssocSession" where
  "recordRecv src s = (case map_of (us_stats s) (UDPAddr_String src) of
     None \<Rightarrow> s
   | Some st \<Rightarrow> s\<lparr>us_stats := AList.update (UDPAddr_String src) (st\<lparr>st_recvCount := st_recvCount st + 1\<rparr>) (us_stats s)\<rparr>)"

record udp_env =
  ue_lookup :: "string \<Rightarrow> string list option"
  ue_dnsparse :: "bytes \<Rightarrow> dns_answer list option"
  ue_lower :: "string \<Rightarrow> string"

definition learn :: "udp_env \<Rightarrow> time \<Rightarrow> UDPAddr \<Rightarrow> bytes \<Rightarrow> udpAssocSession \<Rightarrow> udpAssocSession" where
  "learn env now src data s =
     (if ua_Port src = 53 then s\<lparr>us_dns := ParseAndLearn (ue_dnsparse env) (ue_lower env) now data (us_dns s)\<rparr> else s)"

text \<open>One datagram in \<open>relayLoop\<close>; the inner \<^term>\<open>None\<close> when the loop waits for a queue.\<close>

definition relay_datagram ::
  "udp_env \<Rightarrow> time \<Rightarrow> UDPAddr \<Rightarrow> bytes \<Rightarrow> udpAssocSession \<Rightarrow> (udpAssocSession \<times> udp_effect list) option option" where
  "relay_datagram env now udpSrc data s =
     (case parseSOCKS5UDPHeader (ue_lookup env) data of
        None \<Rightarrow> None
      | Some r \<Rightarrow>
         (case (case r of Inl e \<Rightarrow> None | Inr (dst, payload, frag) \<Rightarrow> if frag = 0 then Some (dst, payload) else None) of
            Some (dst, payload) \<Rightarrow>
              if us_blockQUIC s \<and> ua_Port dst = 443 then Some (Some (s, []))
              else forwardOutbound (ue_lookup env) now dst payload (s\<lparr>us_clientUDPAddr := Some udpSrc\<rparr>)
          | None \<Rightarrow>
              let s1 = learn env now udpSrc data (recordRecv udpSrc s) in
              (case us_clientUDPAddr s1 of
                 None \<Rightarrow> Some (Some (s1, []))
               | Some c \<Rightarrow> Some (Some (s1, [SendClient c (buildSOCKS5UDPHeader udpSrc data)])))))"

definition deliverFrames ::
  "udp_env \<Rightarrow> time \<Rightarrow> UDPAddr \<Rightarrow> bytes list \<Rightarrow> udpAssocSession \<Rightarrow> udpAssocSession \<times> udp_effect list" where
  "deliverFrames env now src frames s = (case us_clientUDPAddr s of
     None \<Rightarrow> (s, [])
   | Some c \<Rightarrow>
      if us_stopped s then (s, [])
      else (fold (learn env now src) frames s, map (\<lambda>f. SendClient c (buildSOCKS5UDPHeader src f)) frames))"

definition startTunnelDrain :: "UDPAddr \<Rightarrow> udpAssocSession \<Rightarrow> udpAssocSession" where
  "startTunnelDrain dst s =
     (if UDPAddr_String dst \<in> set (us_drainActive s) then s
      else s\<lparr>us_drainActive := UDPAddr_String dst # us_drainActive s, us_drains := dst # us_drains s\<rparr>)"

text \<open>\<open>sendViaTunnel\<close>, given the result of \<open>PostUDPFrame\<close> on the picked dialer: \<^term>\<open>None\<close> for no
  dialer or an error.\<close>

definition sendViaTunnel ::
  "udp_env \<Rightarrow> time \<Rightarrow> UDPAddr \<Rightarrow> bytes list option \<Rightarrow> udpAssocSession \<Rightarrow> bool \<times> udpAssocSession \<times> udp_effect list" where
  "sendViaTunnel env now dst result s = (case result of
     None \<Rightarrow> (False, s, [])
   | Some frames \<Rightarrow> (let (s1, es) = deliverFrames env now dst frames s in (True, startTunnelDrain dst s1, es)))"

definition circuit_breaker :: "time \<Rightarrow> bool \<Rightarrow> dstStats \<Rightarrow> dstStats" where
  "circuit_breaker now ok st =
     (if ok then st\<lparr>st_tunnelErrStreak := 0\<rparr>
      else if st_tunnelErrStreak st + 1 \<ge> tunnelCBThreshold
      then st\<lparr>st_tunnelBlockedUntil := Some (now + tunnelCBCooldown), st_tunnelErrStreak := 0\<rparr>
      else st\<lparr>st_tunnelErrStreak := st_tunnelErrStreak st + 1\<rparr>)"

text \<open>One round of \<open>runTunnelWorker\<close>; the function gives the result of the tunnel for the payload it
  sends. \<^term>\<open>None\<close> when there is nothing to send.\<close>

definition runTunnelWorker ::
  "udp_env \<Rightarrow> time \<Rightarrow> string \<Rightarrow> (UDPAddr \<Rightarrow> bytes \<Rightarrow> bytes list option) \<Rightarrow> udpAssocSession \<Rightarrow>
   (udpAssocSession \<times> udp_effect list) option" where
  "runTunnelWorker env now key tunnel s = (case map_of (us_tunnelWorkers s) key of
     Some (dst, payload # q) \<Rightarrow>
       let s0 = s\<lparr>us_tunnelWorkers := AList.update key (dst, q) (us_tunnelWorkers s)\<rparr>;
           (ok, s1, es) = sendViaTunnel env now dst (tunnel dst payload) s0 in
       Some (case map_of (us_stats s1) (UDPAddr_String dst) of
           None \<Rightarrow> (s1, es)
         | Some st \<Rightarrow> (s1\<lparr>us_stats := AList.update (UDPAddr_String dst) (circuit_breaker now ok st) (us_stats s1)\<rparr>, es))
   | _ \<Rightarrow> None)"

datatype drain_result = DrainNoDialer | DrainCanceled | DrainError | DrainFrames "bytes list"

text \<open>One round of \<open>drainLoop\<close>.\<close>

definition drainLoop :: "udp_env \<Rightarrow> time \<Rightarrow> UDPAddr \<Rightarrow> drain_result \<Rightarrow> udpAssocSession \<Rightarrow> udpAssocSession \<times> udp_effect list" where
  "drainLoop env now dst r s = (case r of
     DrainNoDialer \<Rightarrow> (s, [])
   | DrainError \<Rightarrow> (s, [])
   | DrainCanceled \<Rightarrow> (s\<lparr>us_drains := removeAll dst (us_drains s)\<rparr>, [])
   | DrainFrames frames \<Rightarrow> deliverFrames env now dst frames s)"

definition checkFallback :: "string \<Rightarrow> udpAssocSession \<Rightarrow> udpAssocSession" where
  "checkFallback key s = (case map_of (us_stats s) key of
     None \<Rightarrow> s
   | Some st \<Rightarrow> if st_useTunnel st \<or> st_recvCount st > 0 then s
      else s\<lparr>us_stats := AList.update key (st\<lparr>st_useTunnel := True\<rparr>) (us_stats s)\<rparr>)"

definition watchCtrl :: "udpAssocSession \<Rightarrow> udpAssocSession" where
  "watchCtrl s = s\<lparr>us_stopped := True, us_drains := []\<rparr>"

section \<open>The tunnel calls\<close>

definition hostOnly :: "string \<Rightarrow> string" where "hostOnly addr = host_part addr"

datatype udp_plain_error = InvalidConnID

definition buildUDPRelayPlain :: "string \<Rightarrow> UDPAddr \<Rightarrow> bytes \<Rightarrow> (udp_plain_error + bytes) option" where
  "buildUDPRelayPlain connIDHex dst body = (case hex_decode connIDHex of
     None \<Rightarrow> Some (Inl InvalidConnID)
   | Some raw \<Rightarrow>
      if length raw \<noteq> 16 then Some (Inl InvalidConnID)
      else
        let (family, ipBytes) = (case To4 (ua_IP dst) of
              Some ip4 \<Rightarrow> (0x04 :: byte, ip4)
            | None \<Rightarrow> (0x06, case To16 (ua_IP dst) of None \<Rightarrow> [] | Some b \<Rightarrow> b));
            plain = new_buf (16 + 1 + length ipBytes + 2 + 4 + length body);
            p1 = copy_at plain 0 raw in
        do {
          p2 \<leftarrow> put_at p1 16 [family];
          p3 \<leftarrow> Some (copy_at p2 17 ipBytes);
          p4 \<leftarrow> put_at p3 (17 + length ipBytes) (put_be16 (word_of_int (ua_Port dst)));
          p5 \<leftarrow> put_at p4 (19 + length ipBytes) (put_be32 (word_of_nat (length body)));
          Some (Inr (copy_at p5 (23 + length ipBytes) body))
        })"

text \<open>\<open>post\<close> is \<open>doPost\<close> with the token handling of Tunnel_Auth; the monitor records the traffic. An
  error of any stage is \<^term>\<open>None\<close> inside; the outer \<^term>\<open>None\<close> is a panic.\<close>

definition PostUDPFrame ::
  "(bytes \<Rightarrow> post_failure + bytes) \<Rightarrow> time \<Rightarrow> time \<Rightarrow> string \<Rightarrow> UDPAddr \<Rightarrow> bytes \<Rightarrow> TunnelTrafficMonitor \<Rightarrow>
   (bytes list option \<times> TunnelTrafficMonitor) option" where
  "PostUDPFrame post t0 t1 connIDHex dst body mon = do {
     p \<leftarrow> buildUDPRelayPlain connIDHex dst body;
     case p of
       Inl e \<Rightarrow> Some (None, mon)
     | Inr plain \<Rightarrow>
        let mon1 = RecordTunnelSent t0 (length body) mon in
        (case post plain of
           Inl e \<Rightarrow> Some (None, mon1)
         | Inr data \<Rightarrow> do {
             r \<leftarrow> decodeDatagramBatch data;
             case r of
               Inl e \<Rightarrow> Some (None, mon1)
             | Inr frames \<Rightarrow> Some (Some frames,
                 case find (\<lambda>f. f \<noteq> []) frames of None \<Rightarrow> mon1 | Some f \<Rightarrow> RecordTunnelRecv t1 (length f) mon1)
           })
   }"

definition DrainUDPFrames ::
  "(bytes \<Rightarrow> post_failure + bytes) \<Rightarrow> string \<Rightarrow> UDPAddr \<Rightarrow> bytes list option option" where
  "DrainUDPFrames post connIDHex dst = do {
     p \<leftarrow> buildUDPRelayPlain connIDHex dst [];
     case p of
       Inl e \<Rightarrow> Some None
     | Inr plain \<Rightarrow> (case post plain of
         Inl e \<Rightarrow> Some None
       | Inr data \<Rightarrow> do {
           r \<leftarrow> decodeDatagramBatch data;
           case r of Inl e \<Rightarrow> Some None | Inr frames \<Rightarrow> Some (Some frames)
         })
   }"

section \<open>Interleaving\<close>

text \<open>What can happen in a session at a time: a datagram arrives on the relay socket, a worker or drain
  loop makes a round, a fallback timer fires, the control connection closes. The manager and the
  DNS cache also change from outside.\<close>

datatype udp_event = UDatagram UDPAddr bytes | UWorker string "UDPAddr \<Rightarrow> bytes \<Rightarrow> bytes list option"
  | UDrain UDPAddr drain_result | UFallback string | UStop | UManager bm_op | ULearn bytes

inductive assoc_step ::
  "udp_env \<Rightarrow> bypass_env \<Rightarrow> time \<Rightarrow> udp_event \<Rightarrow> udpAssocSession \<Rightarrow> udpAssocSession \<Rightarrow> udp_effect list \<Rightarrow> bool"
  for env benv now where
  step_datagram: "\<not> us_stopped s \<Longrightarrow> relay_datagram env now src data s = Some (Some (s', es)) \<Longrightarrow>
    assoc_step env benv now (UDatagram src data) s s' es"
| step_worker: "runTunnelWorker env now key tunnel s = Some (s', es) \<Longrightarrow> assoc_step env benv now (UWorker key tunnel) s s' es"
| step_drain: "dst \<in> set (us_drains s) \<Longrightarrow> \<not> us_stopped s \<Longrightarrow> drainLoop env now dst r s = (s', es) \<Longrightarrow>
    assoc_step env benv now (UDrain dst r) s s' es"
| step_fallback: "(key, due) \<in> set (us_fallbacks s) \<Longrightarrow> due \<le> now \<Longrightarrow>
    assoc_step env benv now (UFallback key) s (checkFallback key s) []"
| step_stop: "\<not> us_stopped s \<Longrightarrow> assoc_step env benv now UStop s (watchCtrl s) []"
| step_manager: "us_bypass s = Some m \<Longrightarrow>
    assoc_step env benv now (UManager x) s (s\<lparr>us_bypass := Some (bm_step benv x m)\<rparr>) []"
| step_learn: "assoc_step env benv now (ULearn msg) s
    (s\<lparr>us_dns := ParseAndLearn (ue_dnsparse env) (ue_lower env) now msg (us_dns s)\<rparr>) []"

inductive_cases assoc_step_cases [elim]: "assoc_step env benv now ev s s' es"

text \<open>Runs, with a trace of the effects, the time, and the DNS cache they were decided with.\<close>

inductive assoc_run ::
  "udp_env \<Rightarrow> bypass_env \<Rightarrow> udpAssocSession \<Rightarrow> (time \<times> dnsCache \<times> udp_effect) list \<Rightarrow> udpAssocSession \<Rightarrow> bool"
  for env benv where
  run_refl: "assoc_run env benv s [] s"
| run_step: "assoc_run env benv s tr s1 \<Longrightarrow> assoc_step env benv now ev s1 s2 es \<Longrightarrow>
    assoc_run env benv s (tr @ map (\<lambda>e. (now, us_dns s1, e)) es) s2"

section \<open>Facts about sessions\<close>

lemma goSendViaTunnel_fields:
  "goSendViaTunnel now dst p s = Some s' \<Longrightarrow> \<exists>w. s' = s\<lparr>us_tunnelWorkers := w\<rparr>"
  by (auto simp: goSendViaTunnel_def Let_def split: if_splits prod.splits option.splits intro: exI [of _ "us_tunnelWorkers s"])

lemma learn_fields: "\<exists>d. learn env now src data s = s\<lparr>us_dns := d\<rparr>"
  by (auto simp: learn_def intro: exI [of _ "us_dns s"])

lemma fold_learn_fields: "\<exists>d. fold (learn env now src) fs s = s\<lparr>us_dns := d\<rparr>"
proof (induction fs arbitrary: s)
  case Nil
  show ?case by (rule exI [of _ "us_dns s"]) simp
next
  case (Cons f fs)
  obtain d where d: "learn env now src f s = s\<lparr>us_dns := d\<rparr>" using learn_fields by blast
  obtain d' where "fold (learn env now src) fs (s\<lparr>us_dns := d\<rparr>) = s\<lparr>us_dns := d\<rparr>\<lparr>us_dns := d'\<rparr>" using Cons by blast
  then show ?case using d by auto
qed

lemma deliverFrames_fields:
  "deliverFrames env now src fs s = (s', es) \<Longrightarrow> (\<exists>d. s' = s\<lparr>us_dns := d\<rparr>) \<and> (\<forall>e \<in> set es. \<exists>c b. e = SendClient c b)"
proof -
  obtain d where eq: "fold (learn env now src) fs s = s\<lparr>us_dns := d\<rparr>" using fold_learn_fields by blast
  show "deliverFrames env now src fs s = (s', es) \<Longrightarrow> ?thesis"
    by (auto simp: deliverFrames_def eq split: option.splits if_splits intro: exI [of _ "us_dns s"])
qed

lemma recordRecv_fields: "\<exists>t. recordRecv src s = s\<lparr>us_stats := t\<rparr>"
  by (auto simp: recordRecv_def split: option.splits intro: exI [of _ "us_stats s"])

text \<open>A direct send in \<open>forwardOutbound\<close> has a reason.\<close>

definition direct_reason :: "bypass_env \<Rightarrow> bytes \<Rightarrow> bool \<Rightarrow> time \<Rightarrow> dnsCache \<Rightarrow> UDPAddr \<Rightarrow> bool" where
  "direct_reason benv k alt now dns dst \<longleftrightarrow> (\<exists>p. To4 (ua_IP dst) = Some p \<and>
     (alt \<and> ua_Port dst = 53 \<or> isLANAddress (UDPAddr_String dst) \<or> bypass_reason benv k dns now (v4InV6Prefix @ p)))"

definition assoc_inv :: "bypass_env \<Rightarrow> bytes \<Rightarrow> bool \<Rightarrow> bool \<Rightarrow> udpAssocSession \<Rightarrow> bool" where
  "assoc_inv benv k alt tunnelOnly s \<longleftrightarrow> us_altDNSRouting s = alt \<and> us_tunnelOnly s = tunnelOnly \<and>
     (case us_bypass s of None \<Rightarrow> tunnelOnly | Some m \<Rightarrow> bm_inv benv k m)"

lemma assoc_inv_cong:
  "us_altDNSRouting s' = us_altDNSRouting s \<Longrightarrow> us_tunnelOnly s' = us_tunnelOnly s \<Longrightarrow> us_bypass s' = us_bypass s \<Longrightarrow>
   assoc_inv benv k alt t s' = assoc_inv benv k alt t s"
  by (simp add: assoc_inv_def)

lemma resolve_endpoint:
  assumes "To4 (ua_IP dst) = Some p" "0 \<le> ua_Port dst"
  shows "resolve_ip lookup (host_part (UDPAddr_String dst)) = Some (v4InV6Prefix @ p)"
proof -
  obtain x y z w where p: "p = [x, y, z, w]" using four_bytes To4_length [OF assms(1)] by blast
  then show ?thesis
    using assms UDPAddr_String_v4 [of dst x y z w] by (simp add: resolve_ip_def ParseIP_ipv4_string)
qed

lemma is_bypass_dst_reason:
  assumes "is_bypass_dst lookup now (UDPAddr_String dst) s = Some (b, s')" "assoc_inv benv k alt t s"
    and "To4 (ua_IP dst) = Some p" "0 \<le> ua_Port dst"
  shows "(\<exists>m. s' = s\<lparr>us_bypass := m\<rparr>) \<and> assoc_inv benv k alt t s' \<and>
    (b \<longrightarrow> isLANAddress (UDPAddr_String dst) \<or> bypass_reason benv k (us_dns s) now (v4InV6Prefix @ p))"
proof (cases "isLANAddress (UDPAddr_String dst)")
  case True
  then show ?thesis using assms(1,2) by (auto simp: is_bypass_dst_def intro: exI [of _ "us_bypass s"])
next
  case lan: False
  show ?thesis
  proof (cases "us_bypass s")
    case None
    then show ?thesis using assms(1,2) lan by (auto simp: is_bypass_dst_def intro: exI [of _ "us_bypass s"])
  next
    case (Some m)
    then obtain m' where sb: "ShouldBypass lookup (us_dns s) now (UDPAddr_String dst) m = Some (b, m')" "s' = s\<lparr>us_bypass := Some m'\<rparr>"
      using assms(1) lan by (auto simp: is_bypass_dst_def)
    have inv: "bm_inv benv k m" using assms(2) Some by (simp add: assoc_inv_def)
    from ShouldBypass_reason [OF inv, of lookup "us_dns s" now "UDPAddr_String dst"] sb(1) resolve_endpoint [OF assms(3,4)]
    have "b \<longrightarrow> bypass_reason benv k (us_dns s) now (v4InV6Prefix @ p)" by auto
    moreover have "bm_inv benv k m'" using ShouldBypass_inv [OF inv sb(1)] .
    ultimately show ?thesis using assms(2) sb(2) Some by (auto simp: assoc_inv_def)
  qed
qed

lemma forwardOutbound_reason:
  assumes "forwardOutbound lookup now dst payload s = Some (Some (s', es))" "assoc_inv benv k alt t s" "0 \<le> ua_Port dst"
  shows "assoc_inv benv k alt t s' \<and> us_drainActive s' = us_drainActive s \<and> us_drains s' = us_drains s \<and>
    us_clientUDPAddr s' = us_clientUDPAddr s \<and>
    (\<forall>e \<in> set es. \<exists>b. e = SendDirect dst b \<and> \<not> t \<and> direct_reason benv k alt now (us_dns s) dst)"
proof (cases "To4 (ua_IP dst)")
  case None
  then show ?thesis using assms(1,2) by (simp add: forwardOutbound_def)
next
  case (Some p)
  have go: "assoc_inv benv k alt t s2 \<and> us_drainActive s2 = us_drainActive s1 \<and> us_drains s2 = us_drains s1 \<and>
      us_clientUDPAddr s2 = us_clientUDPAddr s1"
    if "goSendViaTunnel now dst payload s1 = Some s2" "assoc_inv benv k alt t s1" for s1 s2
    using goSendViaTunnel_fields [OF that(1)] that(2) assoc_inv_cong [of s2 s1] by auto
  have flags: "us_altDNSRouting s = alt" "us_tunnelOnly s = t" using assms(2) by (simp_all add: assoc_inv_def)
  show ?thesis
  proof (cases "ua_Port dst = 53")
    case True
    then show ?thesis using assms(1,2) Some go flags
      by (auto simp: forwardOutbound_def direct_reason_def split: if_splits)
  next
    case False
    obtain st s1 where cs: "count_send now (UDPAddr_String dst) s = (st, s1)" by (cases "count_send now (UDPAddr_String dst) s")
    then obtain x where s1: "s1 = s\<lparr>us_stats := x\<rparr>" by (auto simp: count_send_def Let_def)
    then have inv1: "assoc_inv benv k alt t s1" using assms(2) assoc_inv_cong [of s1 s] by simp
    obtain b s2 where bd: "is_bypass_dst lookup now (UDPAddr_String dst) s1 = Some (b, s2)"
      using assms(1) Some False cs by (auto simp: forwardOutbound_def Let_def split: option.splits)
    note r = is_bypass_dst_reason [OF bd inv1 Some assms(3)]
    have fb: "assoc_inv benv k alt t (s2\<lparr>us_fallbacks := f\<rparr>)" for f using r assoc_inv_cong [of "s2\<lparr>us_fallbacks := f\<rparr>" s2] by simp
    show ?thesis
    proof (cases "st_useTunnel st \<or> us_tunnelOnly s \<or> \<not> b")
      case True
      then obtain s3 where "goSendViaTunnel now dst payload s2 = Some s3" "s' = s3" "es = []"
        using assms(1) Some False cs bd by (auto simp: forwardOutbound_def Let_def)
      then show ?thesis using go [of s2 s3] r s1 by auto
    next
      case direct: False
      then have "es = [SendDirect dst payload]" "\<exists>f. s' = s2\<lparr>us_fallbacks := f\<rparr>"
        using assms(1) Some False cs bd
        by (auto simp: forwardOutbound_def Let_def split: if_splits intro: exI [of _ "us_fallbacks s2"])
      then show ?thesis using direct r fb s1 Some flags by (auto simp: direct_reason_def)
    qed
  qed
qed

text \<open>Drain loops: one per destination, each registered.\<close>

definition drains_inv :: "udpAssocSession \<Rightarrow> bool" where
  "drains_inv s \<longleftrightarrow> distinct (map UDPAddr_String (us_drains s)) \<and> UDPAddr_String ` set (us_drains s) \<subseteq> set (us_drainActive s)"

definition drain_dead :: "string \<Rightarrow> udpAssocSession \<Rightarrow> bool" where
  "drain_dead key s \<longleftrightarrow> key \<in> set (us_drainActive s) \<and> key \<notin> UDPAddr_String ` set (us_drains s)"

lemma drains_cong:
  "us_drainActive s' = us_drainActive s \<Longrightarrow> us_drains s' = us_drains s \<Longrightarrow>
   drains_inv s' = drains_inv s \<and> drain_dead key s' = drain_dead key s"
  by (simp add: drains_inv_def drain_dead_def)

lemma startTunnelDrain_inv:
  "drains_inv s \<Longrightarrow> drains_inv (startTunnelDrain dst s)"
  "drain_dead key s \<Longrightarrow> drain_dead key (startTunnelDrain dst s)"
  by (auto simp: drains_inv_def drain_dead_def startTunnelDrain_def)

lemma bind_port:
  assumes "Option.bind A (\<lambda>a. case a of Inl e \<Rightarrow> Some (Inl e) | Inr (x, off) \<Rightarrow> if c off then Some (Inl d) else
     Option.bind (B off) (\<lambda>pb. Option.bind (get_be16 pb) (\<lambda>port. Option.bind (C off) (\<lambda>payload.
       Some (Inr (\<lparr>ua_IP = x, ua_Port = int (unat port)\<rparr>, payload, f)))))) = Some (Inr (dst, p, g))"
  shows "0 \<le> ua_Port dst"
  using assms by (cases A) (auto simp: bind_eq_Some_conv split: sum.splits prod.splits if_splits)

lemma parse_port: "parseSOCKS5UDPHeader lookup data = Some (Inr (dst, p, f)) \<Longrightarrow> 0 \<le> ua_Port dst"
  unfolding parseSOCKS5UDPHeader_def
  by (cases "length data < 4", simp, simp only: if_False idx_Some [of 2 data] idx_Some [of 3 data] not_less bind.bind_lunit)
    (erule bind_port)

text \<open>What a step may do: keep the invariants, and send directly only with a reason.\<close>

definition step_ok :: "bypass_env \<Rightarrow> bytes \<Rightarrow> bool \<Rightarrow> bool \<Rightarrow> time \<Rightarrow> udpAssocSession \<Rightarrow> udpAssocSession \<Rightarrow> udp_effect list \<Rightarrow> bool" where
  "step_ok benv k alt t now s s' es \<longleftrightarrow>
     (assoc_inv benv k alt t s \<longrightarrow> assoc_inv benv k alt t s' \<and>
        (\<forall>dst b. SendDirect dst b \<in> set es \<longrightarrow> \<not> t \<and> direct_reason benv k alt now (us_dns s) dst)) \<and>
     (drains_inv s \<longrightarrow> drains_inv s') \<and> (\<forall>key. drain_dead key s \<longrightarrow> drain_dead key s')"

lemma step_ok_quiet:
  assumes "us_altDNSRouting s' = us_altDNSRouting s" "us_tunnelOnly s' = us_tunnelOnly s" "us_bypass s' = us_bypass s"
    and "us_drainActive s' = us_drainActive s" "us_drains s' = us_drains s" "\<forall>dst b. SendDirect dst b \<notin> set es"
  shows "step_ok benv k alt t now s s' es"
  unfolding step_ok_def using assms assoc_inv_cong [of s' s] drains_cong [of s' s] by simp

lemma relay_datagram_ok:
  assumes "relay_datagram env now src data s = Some (Some (s', es))"
    and inv: "assoc_inv benv k alt t s"
  shows "step_ok benv k alt t now s s' es"
proof -
  obtain r where r: "parseSOCKS5UDPHeader (ue_lookup env) data = Some r"
    using assms(1) by (auto simp: relay_datagram_def split: option.splits)
  show ?thesis
  proof (cases "\<exists>dst p. r = Inr (dst, p, 0)")
    case True
    then obtain dst p where dp: "r = Inr (dst, p, 0)" by blast
    let ?s = "s\<lparr>us_clientUDPAddr := Some src\<rparr>"
    have inv1: "assoc_inv benv k alt t ?s" using inv assoc_inv_cong [of ?s s] by simp
    show ?thesis
    proof (cases "us_blockQUIC s \<and> ua_Port dst = 443")
      case True
      then show ?thesis using assms(1) r dp by (simp add: relay_datagram_def step_ok_def)
    next
      case False
      then have "forwardOutbound (ue_lookup env) now dst p ?s = Some (Some (s', es))"
        using assms(1) r dp by (auto simp: relay_datagram_def split: if_splits)
      from forwardOutbound_reason [OF this inv1] parse_port [of "ue_lookup env" data dst p 0] r dp
      have "assoc_inv benv k alt t s'" "us_drainActive s' = us_drainActive s" "us_drains s' = us_drains s"
        "\<forall>e \<in> set es. \<exists>b. e = SendDirect dst b \<and> \<not> t \<and> direct_reason benv k alt now (us_dns s) dst" by auto
      then show ?thesis using drains_cong [of s' s] by (fastforce simp: step_ok_def)
    qed
  next
    case False
    obtain a where a: "recordRecv src s = s\<lparr>us_stats := a\<rparr>" using recordRecv_fields by blast
    obtain d where d: "learn env now src data (s\<lparr>us_stats := a\<rparr>) = s\<lparr>us_stats := a\<rparr>\<lparr>us_dns := d\<rparr>" using learn_fields by blast
    have "(case r of Inl e \<Rightarrow> None | Inr (dst, payload, frag) \<Rightarrow> if frag = 0 then Some (dst, payload) else None) = None"
      using False by (auto split: sum.splits)
    then have "s' = s\<lparr>us_stats := a\<rparr>\<lparr>us_dns := d\<rparr>" "\<forall>dst b. SendDirect dst b \<notin> set es"
      using assms(1) r by (auto simp: relay_datagram_def Let_def a d split: option.splits)
    then show ?thesis by (intro step_ok_quiet) simp_all
  qed
qed

lemma stats_self [simp]: "\<exists>x. s = s\<lparr>us_stats := x\<rparr>"
  by (rule exI [of _ "us_stats s"]) simp

lemma runTunnelWorker_ok:
  assumes "runTunnelWorker env now key tunnel s = Some (s', es)"
  shows "step_ok benv k alt t now s s' es"
proof -
  obtain dst payload q where w: "map_of (us_tunnelWorkers s) key = Some (dst, payload # q)"
    using assms by (auto simp: runTunnelWorker_def split: option.splits list.splits)
  define s0 where "s0 = s\<lparr>us_tunnelWorkers := AList.update key (dst, q) (us_tunnelWorkers s)\<rparr>"
  obtain ok s1 where sv: "sendViaTunnel env now dst (tunnel dst payload) s0 = (ok, s1, es)" and s': "\<exists>x. s' = s1\<lparr>us_stats := x\<rparr>"
    using assms w by (auto simp: runTunnelWorker_def Let_def s0_def [symmetric] split: option.splits prod.splits)
  have quiet: "step_ok benv k alt t now s (s0\<lparr>us_dns := d, us_stats := x\<rparr>) []" for d x
    by (rule step_ok_quiet) (simp_all add: s0_def)
  show ?thesis
  proof (cases "tunnel dst payload")
    case None
    then have "s1 = s0" "es = []" using sv by (auto simp: sendViaTunnel_def)
    then show ?thesis using s' by (auto simp: s0_def intro!: step_ok_quiet)
  next
    case (Some fs)
    then obtain d where d: "s1 = startTunnelDrain dst (s0\<lparr>us_dns := d\<rparr>)" "\<forall>e \<in> set es. \<exists>c b. e = SendClient c b"
      using sv deliverFrames_fields [of env now dst fs s0] by (auto simp: sendViaTunnel_def split: prod.splits)
    obtain x where x: "s' = s1\<lparr>us_stats := x\<rparr>" using s' by blast
    have "assoc_inv benv k alt t s' = assoc_inv benv k alt t s"
      by (rule assoc_inv_cong) (simp_all add: x d(1) startTunnelDrain_def s0_def)
    moreover have "drains_inv s' = drains_inv s1 \<and> drain_dead c s' = drain_dead c s1" for c
      by (rule drains_cong) (simp_all add: x)
    moreover have "drains_inv (s0\<lparr>us_dns := d\<rparr>) = drains_inv s \<and> drain_dead c (s0\<lparr>us_dns := d\<rparr>) = drain_dead c s" for c
      by (rule drains_cong) (simp_all add: s0_def)
    ultimately show ?thesis using startTunnelDrain_inv(1) [of "s0\<lparr>us_dns := d\<rparr>"] startTunnelDrain_inv(2) [of _ "s0\<lparr>us_dns := d\<rparr>"] d(1)
      unfolding step_ok_def using d(2) by auto
  qed
qed

lemma drainLoop_ok:
  assumes "drainLoop env now dst r s = (s', es)"
  shows "step_ok benv k alt t now s s' es"
proof (cases r)
  case DrainCanceled
  then have s': "s' = s\<lparr>us_drains := removeAll dst (us_drains s)\<rparr>" "es = []" using assms by (auto simp: drainLoop_def)
  have "assoc_inv benv k alt t s' = assoc_inv benv k alt t s" by (rule assoc_inv_cong) (simp_all add: s')
  moreover have "distinct (map UDPAddr_String xs) \<Longrightarrow> distinct (map UDPAddr_String (removeAll dst xs))" for xs
    by (simp add: removeAll_filter_not_eq distinct_map_filter)
  ultimately show ?thesis using s' by (auto simp: step_ok_def drains_inv_def drain_dead_def)
next
  case (DrainFrames fs)
  then show ?thesis using assms deliverFrames_fields [of env now dst fs s s' es]
    by (auto simp: drainLoop_def intro!: step_ok_quiet)
qed (use assms in \<open>auto simp: drainLoop_def intro!: step_ok_quiet\<close>)

lemma assoc_step_ok:
  assumes "assoc_step env benv now ev s s' es" "assoc_inv benv k alt t s" "countries_agree benv"
  shows "step_ok benv k alt t now s s' es"
  using assms(1)
proof cases
  case (step_datagram src data)
  then show ?thesis using relay_datagram_ok assms(2) by blast
next
  case (step_fallback key due)
  then show ?thesis by (auto simp: checkFallback_def split: option.splits intro!: step_ok_quiet)
next
  case step_stop
  have "assoc_inv benv k alt t (watchCtrl s) = assoc_inv benv k alt t s" by (rule assoc_inv_cong) (simp_all add: watchCtrl_def)
  then show ?thesis using step_stop by (auto simp: step_ok_def drains_inv_def drain_dead_def watchCtrl_def)
next
  case (step_manager m x)
  then have "assoc_inv benv k alt t s'" using assms(2,3) bm_step_inv [of benv k m x] by (auto simp: assoc_inv_def)
  then show ?thesis using step_manager drains_cong [of s' s] by (auto simp: step_ok_def)
qed (auto intro: runTunnelWorker_ok drainLoop_ok step_ok_quiet)

lemma assoc_run_ok:
  assumes "assoc_run env benv s tr s'" "assoc_inv benv k alt t s" "countries_agree benv"
  shows "assoc_inv benv k alt t s' \<and> (drains_inv s \<longrightarrow> drains_inv s') \<and> (\<forall>key. drain_dead key s \<longrightarrow> drain_dead key s') \<and>
    (\<forall>now dns dst b. (now, dns, SendDirect dst b) \<in> set tr \<longrightarrow> \<not> t \<and> direct_reason benv k alt now dns dst)"
  using assms(1,2)
proof (induction rule: assoc_run.induct)
  case (run_step s tr s1 now ev s2 es)
  then have inv: "assoc_inv benv k alt t s1" by blast
  have direct: "\<not> t \<and> direct_reason benv k alt now' dns dst"
    if "(now', dns, SendDirect dst b) \<in> set (tr @ map (\<lambda>e. (now, us_dns s1, e)) es)" for now' dns dst b
    using that run_step.IH [OF run_step.prems] assoc_step_ok [OF run_step.hyps(2) inv assms(3)] inv
    unfolding step_ok_def set_append set_map by blast
  show ?case using run_step.IH [OF run_step.prems] assoc_step_ok [OF run_step.hyps(2) inv assms(3)] inv direct
    unfolding step_ok_def by blast
qed simp

section \<open>The request and the exit's answer\<close>

text \<open>The documented format of a relay request, read by the exit: connection id, family, address,
  port, length and body; and the exit's answer, a batch of datagrams.\<close>

definition exit_service :: "(bytes \<Rightarrow> bytes \<Rightarrow> u16 \<Rightarrow> bytes \<Rightarrow> bytes list) \<Rightarrow> bytes \<Rightarrow> bytes" where
  "exit_service svc plain =
     (let n = (if plain ! 16 = 0x04 then 4 else 16);
          fs = svc (take 16 plain) (take n (drop 17 plain)) (word_of_nat (be_val (take 2 (drop (17 + n) plain))))
                 (take (be_val (take 4 (drop (19 + n) plain))) (drop (23 + n) plain)) in
      put_be32 (word_of_nat (length fs)) @ batch_body fs)"

lemma buildUDPRelayPlain_v4:
  assumes "length raw = 16" "To4 (ua_IP dst) = Some ip4"
  shows "buildUDPRelayPlain (hex_encode raw) dst body =
    Some (Inr (raw @ [0x04] @ ip4 @ put_be16 (word_of_int (ua_Port dst)) @ put_be32 (word_of_nat (length body)) @ body))"
  using assms To4_length [OF assms(2)] by (simp add: buildUDPRelayPlain_def Let_def codec_simps)

lemma exit_service_v4:
  assumes "length raw = 16" "length ip4 = 4" "length body < 4294967296"
  shows "exit_service svc (raw @ [0x04] @ ip4 @ put_be16 port @ put_be32 (word_of_nat (length body)) @ body) =
    (let fs = svc raw ip4 port body in put_be32 (word_of_nat (length fs)) @ batch_body fs)"
proof -
  have "be_val (put_be16 port) = unat port" "be_val (put_be32 (word_of_nat (length body))) = length body"
    using unsigned_less [of port, where ?'a = nat] assms(3) by (simp_all add: put_be16_def put_be32_def)
  moreover have "(raw @ [0x04] @ x) ! 16 = 0x04" for x using assms(1) by (simp add: nth_append)
  ultimately show ?thesis using assms by (simp add: exit_service_def Let_def)
qed

lemma PostUDPFrame_exchange:
  assumes "length raw = 16" "To4 (ua_IP dst) = Some ip4"
    and "post (raw @ [0x04] @ ip4 @ put_be16 (word_of_int (ua_Port dst)) @ put_be32 (word_of_nat (length body)) @ body) =
      Inr (put_be32 (word_of_nat (length fs)) @ batch_body fs)"
    and "length fs < 4294967296" "\<forall>f \<in> set fs. length f < 4294967296"
  shows "\<exists>mon'. PostUDPFrame post t0 t1 (hex_encode raw) dst body mon = Some (Some fs, mon')"
  using decode_batch [OF assms(4,5), of "[]"]
  by (simp add: PostUDPFrame_def buildUDPRelayPlain_v4 [OF assms(1,2)] assms(3) Let_def del: append_assoc append.simps)

section \<open>A datagram through the tunnel\<close>

lemma blocked_count_send: "blocked_now now key (snd (count_send now key s)) = blocked_now now key s"
  by (auto simp: blocked_now_def count_send_def Let_def update_conv newDstStats_def split: option.splits)

lemma goSend_fresh:
  assumes "\<not> blocked_now now (UDPAddr_String dst) s" "map_of (us_tunnelWorkers s) (UDPAddr_String dst) = None"
  shows "goSendViaTunnel now dst p s =
    Some (s\<lparr>us_tunnelWorkers := AList.update (UDPAddr_String dst) (dst, [p]) (us_tunnelWorkers s)\<rparr>)"
  using assms by (simp add: goSendViaTunnel_def Let_def tunnelWorkerQDepth_def)

lemma datagram_queued:
  assumes "us_tunnelOnly s" "us_bypass s = None" "\<not> (us_blockQUIC s \<and> port = 443)"
    and dst: "dst = \<lparr>ua_IP = [x, y, z, w], ua_Port = int (unat port)\<rparr>"
    and "\<not> blocked_now now (UDPAddr_String dst) s" "map_of (us_tunnelWorkers s) (UDPAddr_String dst) = None"
  shows "\<exists>s1. relay_datagram env now c ([0, 0, 0, atypIPv4, x, y, z, w] @ put_be16 port @ payload) s = Some (Some (s1, [])) \<and>
    us_clientUDPAddr s1 = Some c \<and> us_stopped s1 = us_stopped s \<and> map_of (us_tunnelWorkers s1) (UDPAddr_String dst) = Some (dst, [payload])"
proof -
  let ?s = "s\<lparr>us_clientUDPAddr := Some c\<rparr>"
  let ?key = "UDPAddr_String dst"
  have t4: "To4 (ua_IP dst) \<noteq> None" by (simp add: dst)
  have "uint port = 443 \<longrightarrow> \<not> us_blockQUIC s" using assms(3) by (auto simp: word_uint_eq_iff)
  then have rd: "relay_datagram env now c ([0, 0, 0, atypIPv4, x, y, z, w] @ put_be16 port @ payload) s =
      forwardOutbound (ue_lookup env) now dst payload ?s"
    by (auto simp: relay_datagram_def parse_v4 dst simp del: append.simps)
  obtain st s2 where cs: "count_send now ?key ?s = (st, s2)" by (cases "count_send now ?key ?s")
  then obtain a where s2: "s2 = ?s\<lparr>us_stats := a\<rparr>" by (auto simp: count_send_def Let_def)
  have nb: "\<not> blocked_now now ?key s2" "\<not> blocked_now now ?key ?s"
    using assms(5) blocked_count_send [of now ?key ?s] cs by (simp_all add: blocked_now_def)
  have bd: "\<exists>b. is_bypass_dst (ue_lookup env) now ?key s2 = Some (b, s2)" using assms(2) s2 by (auto simp: is_bypass_dst_def)
  show ?thesis
  proof (cases "ua_Port dst = 53")
    case True
    then show ?thesis unfolding rd using goSend_fresh [of now dst ?s payload] nb(2) assms(1,6) t4
      by (simp add: forwardOutbound_def update_conv)
  next
    case False
    then show ?thesis unfolding rd using goSend_fresh [of now dst s2 payload] nb(1) assms(1,6) bd cs s2 t4
      by (auto simp: forwardOutbound_def update_conv Let_def)
  qed
qed

lemma worker_delivers:
  assumes "map_of (us_tunnelWorkers s) key = Some (dst, payload # q)" "us_clientUDPAddr s = Some c" "\<not> us_stopped s"
    and "tunnel dst payload = Some fs"
  shows "\<exists>s1. runTunnelWorker env now key tunnel s = Some (s1, map (\<lambda>f. SendClient c (buildSOCKS5UDPHeader dst f)) fs)"
  using assms by (simp add: runTunnelWorker_def Let_def sendViaTunnel_def deliverFrames_def case_prod_unfold split: option.splits)

lemma wrapped_parses:
  assumes "dst = \<lparr>ua_IP = [x, y, z, w], ua_Port = int (unat (port :: u16))\<rparr>"
  shows "parseSOCKS5UDPHeader lookup (buildSOCKS5UDPHeader dst f) = Some (Inr (dst, f, 0))"
proof -
  have "buildSOCKS5UDPHeader dst f = [0, 0, 0, atypIPv4, x, y, z, w] @ put_be16 port @ f"
    using buildSOCKS5UDPHeader_v4 [of dst x y z w f] by (simp add: assms)
  then show ?thesis using parse_v4 [of lookup 0 0 0 x y z w port f] assms by simp
qed

section \<open>Properties\<close>

text \<open>Property C14. Only what may leave the country leaves directly. In every interleaving of datagrams,
  workers, timers, changes of the bypass manager and learned names, every datagram the session sends
  straight to its destination goes to an IPv4 address and is either a DNS query under alternative DNS
  routing, or to a LAN address, or to an address for which the signed bypass list or the home
  top-level domain gives a reason. A session without a bypass manager sends nothing directly.\<close>

theorem direct_datagrams_have_reason:
  assumes "NewBypassManager exitURLs pubkeyHex file disk = Some m0" "pubkeyHex \<noteq> []" "countries_agree benv"
    and "bypass = None \<or> bypass = Some (fold (bm_step benv) ops m0)"
    and "assoc_run env benv (newUDPAssocSession bypass alt quic dns0) tr s"
    and "(now, dns, SendDirect dst payload) \<in> set tr"
  shows "bypass \<noteq> None \<and> (\<exists>k. hex_decode pubkeyHex = Some k \<and> direct_reason benv k alt now dns dst)"
proof -
  obtain k where k: "hex_decode pubkeyHex = Some k" "bm_inv benv k m0" using NewBypassManager_inv [OF assms(1,2), of benv] by blast
  have "bm_inv benv k (fold (bm_step benv) ops m0)" using k(2) bm_run_inv assms(3) by blast
  then have "assoc_inv benv k alt (bypass = None) (newUDPAssocSession bypass alt quic dns0)"
    using assms(4) by (auto simp: assoc_inv_def newUDPAssocSession_def)
  then have "bypass \<noteq> None \<and> direct_reason benv k alt now dns dst"
    using assoc_run_ok [OF assms(5) _ assms(3)] assms(6) by meson
  with k(1) show ?thesis by simp
qed

definition sample_udp_env :: udp_env where
  "sample_udp_env = \<lparr>ue_lookup = (\<lambda>h. None), ue_dnsparse = (\<lambda>m. None), ue_lower = id\<rparr>"

definition sample_client :: UDPAddr where "sample_client = \<lparr>ua_IP = [127, 0, 0, 1], ua_Port = 4\<rparr>"

definition sample_manager :: BypassManager where
  "sample_manager = the (NewBypassManager [] (replicate 64 CHR ''0'') [] None)"

lemma sample_manager_new: "NewBypassManager [] (replicate 64 CHR ''0'') [] None = Some sample_manager"
  unfolding sample_manager_def by code_simp

lemma sample_agree: "countries_agree sample_bypass_env"
  by (simp add: countries_agree_def sample_bypass_env_def)

theorem direct_datagrams_have_reason_witness:
  "\<exists>k. hex_decode (replicate 64 CHR ''0'') = Some k \<and>
    direct_reason sample_bypass_env k False 1 GlobalDNSCache \<lparr>ua_IP = [192, 168, 0, 1], ua_Port = 1\<rparr>"
proof -
  let ?s = "newUDPAssocSession (Some sample_manager) False False GlobalDNSCache"
  let ?dst = "\<lparr>ua_IP = [192, 168, 0, 1], ua_Port = 1\<rparr>"
  have "map_option (map_option snd) (relay_datagram sample_udp_env 1 sample_client ([0, 0, 0, 1, 192, 168, 0, 1, 0, 1, 7]) ?s) =
      Some (Some [SendDirect ?dst [7]])" by code_simp
  then obtain s1 where "relay_datagram sample_udp_env 1 sample_client ([0, 0, 0, 1, 192, 168, 0, 1, 0, 1, 7]) ?s =
      Some (Some (s1, [SendDirect ?dst [7]]))" by auto
  moreover have "\<not> us_stopped ?s" by (simp add: newUDPAssocSession_def)
  ultimately have "assoc_step sample_udp_env sample_bypass_env 1 (UDatagram sample_client [0, 0, 0, 1, 192, 168, 0, 1, 0, 1, 7])
      ?s s1 [SendDirect ?dst [7]]" by (intro step_datagram)
  from run_step [OF run_refl this]
  have run: "assoc_run sample_udp_env sample_bypass_env ?s [(1, GlobalDNSCache, SendDirect ?dst [7])] s1"
    by (simp add: newUDPAssocSession_def)
  have "Some sample_manager = None \<or> Some sample_manager = Some (fold (bm_step sample_bypass_env) [] sample_manager)" by simp
  then show ?thesis
    using direct_datagrams_have_reason [OF sample_manager_new _ sample_agree _ run, of "[]" 1 GlobalDNSCache ?dst "[7]"] by simp
qed

text \<open>Property C39. A drain loop that was cancelled is never started again. Once the drain loop of a
  destination ended because its transport was closed, the destination stays registered as drained, so
  no later send, over whatever dialer, starts another: in every further run of the session the
  destination has no drain loop, and datagrams the server sends on its own are not collected.\<close>

theorem cancelled_drain_never_restarts:
  assumes "NewBypassManager exitURLs pubkeyHex file disk = Some m0" "pubkeyHex \<noteq> []" "countries_agree benv"
    and "bypass = None \<or> bypass = Some (fold (bm_step benv) ops m0)"
    and "assoc_run env benv (newUDPAssocSession bypass alt quic dns0) tr s"
    and "assoc_step env benv now (UDrain dst DrainCanceled) s s1 es"
    and "assoc_run env benv s1 tr' s2"
  shows "\<forall>d \<in> set (us_drains s2). UDPAddr_String d \<noteq> UDPAddr_String dst"
proof -
  obtain k where "bm_inv benv k m0" using NewBypassManager_inv [OF assms(1,2), of benv] by blast
  then have "bm_inv benv k (fold (bm_step benv) ops m0)" using bm_run_inv assms(3) by blast
  then have "assoc_inv benv k alt (bypass = None) (newUDPAssocSession bypass alt quic dns0)"
    using assms(4) by (auto simp: assoc_inv_def newUDPAssocSession_def)
  moreover have "drains_inv (newUDPAssocSession bypass alt quic dns0)" by (simp add: drains_inv_def newUDPAssocSession_def)
  ultimately have inv: "assoc_inv benv k alt (bypass = None) s" "drains_inv s"
    using assoc_run_ok [OF assms(5) _ assms(3)] by blast+
  have s1: "dst \<in> set (us_drains s)" "s1 = s\<lparr>us_drains := removeAll dst (us_drains s)\<rparr>"
    using assms(6) by (auto simp: drainLoop_def)
  have "d = dst" if "d \<in> set (us_drains s)" "UDPAddr_String d = UDPAddr_String dst" for d
    using that s1(1) inv(2) inj_onD [of UDPAddr_String "set (us_drains s)"] by (auto simp: drains_inv_def distinct_map)
  then have "drain_dead (UDPAddr_String dst) s1" using s1 inv(2) by (auto simp: drain_dead_def drains_inv_def)
  moreover have "assoc_inv benv k alt (bypass = None) s1" using inv(1) s1(2) assoc_inv_cong [of s1 s] by simp
  ultimately have "drain_dead (UDPAddr_String dst) s2" using assoc_run_ok [OF assms(7) _ assms(3)] by blast
  then show ?thesis unfolding drain_dead_def by (metis imageI)
qed

theorem cancelled_drain_never_restarts_witness:
  "\<exists>s s1. us_drains s = [\<lparr>ua_IP = [9, 9, 9, 9], ua_Port = 1\<rparr>] \<and>
    assoc_step sample_udp_env sample_bypass_env 3 (UDrain \<lparr>ua_IP = [9, 9, 9, 9], ua_Port = 1\<rparr> DrainCanceled) s s1 [] \<and>
    (\<forall>tr' s2. assoc_run sample_udp_env sample_bypass_env s1 tr' s2 \<longrightarrow>
      (\<forall>d \<in> set (us_drains s2). UDPAddr_String d \<noteq> UDPAddr_String \<lparr>ua_IP = [9, 9, 9, 9], ua_Port = 1\<rparr>))"
proof -
  let ?s = "newUDPAssocSession None False False GlobalDNSCache"
  let ?dst = "\<lparr>ua_IP = [9, 9, 9, 9], ua_Port = 1\<rparr>"
  let ?d = "[0, 0, 0, 1, 9, 9, 9, 9, 0, 1, 7] :: bytes"
  let ?sa = "fst (the (the (relay_datagram sample_udp_env 1 sample_client ?d ?s)))"
  let ?sb = "fst (the (runTunnelWorker sample_udp_env 2 ''9.9.9.9:1'' (\<lambda>d p. Some []) ?sa))"
  have a: "relay_datagram sample_udp_env 1 sample_client ?d ?s = Some (Some (?sa, []))" "us_stopped ?s = False" by code_simp+
  have b: "runTunnelWorker sample_udp_env 2 ''9.9.9.9:1'' (\<lambda>d p. Some []) ?sa = Some (?sb, [])"
    "us_drains ?sb = [?dst]" "us_stopped ?sb = False" by code_simp+
  have run: "assoc_run sample_udp_env sample_bypass_env ?s
      (([] @ map (\<lambda>e. (1, us_dns ?s, e)) []) @ map (\<lambda>e. (2, us_dns ?sa, e)) []) ?sb"
    by (rule run_step [OF run_step [OF run_refl step_datagram [OF _ a(1)]] step_worker [OF b(1)]]) (simp add: a(2))
  have cancel: "assoc_step sample_udp_env sample_bypass_env 3 (UDrain ?dst DrainCanceled) ?sb (?sb\<lparr>us_drains := removeAll ?dst (us_drains ?sb)\<rparr>) []"
    by (rule step_drain) (simp_all add: b(2,3) drainLoop_def)
  show ?thesis
    using b(2) cancel cancelled_drain_never_restarts [OF sample_manager_new _ sample_agree _ run cancel] by fastforce
qed

text \<open>Property C40. Any sender can take over the session. The relay loop tells the client from servers by
  the shape of the datagram alone. A datagram from any source whose third byte is 0 and whose fourth
  is 1 is read as the client's: its source becomes the address that receives all further answers, and
  nothing of it reaches the client. The other way round, a fragment sent by the client itself is
  taken for a server's answer and sent back to the client.\<close>

theorem relay_loop_confuses_senders:
  assumes "relay_datagram env now src ([r1, r2, 0, atypIPv4, x, y, z, w] @ put_be16 port @ payload) s = Some (Some (s', es))"
    and "\<not> (us_blockQUIC s \<and> port = 443)" "assoc_inv benv k alt t s"
    and "fr \<noteq> 0" "us_clientUDPAddr s = Some client"
  shows "us_clientUDPAddr s' = Some src \<and> (\<forall>c b. SendClient c b \<notin> set es) \<and>
    (let frag = [r1, r2, fr, atypIPv4, x, y, z, w] @ put_be16 port @ payload in
     \<exists>s2. relay_datagram env now client frag s = Some (Some (s2, [SendClient client (buildSOCKS5UDPHeader client frag)])))"
proof (intro conjI)
  let ?s = "s\<lparr>us_clientUDPAddr := Some src\<rparr>"
  let ?dst = "\<lparr>ua_IP = [x, y, z, w], ua_Port = int (unat port)\<rparr>"
  have "uint port = 443 \<longrightarrow> \<not> us_blockQUIC s" using assms(2) by (auto simp: word_uint_eq_iff)
  then have "forwardOutbound (ue_lookup env) now ?dst payload ?s = Some (Some (s', es))"
    using assms(1) by (auto simp: relay_datagram_def parse_v4 simp del: append.simps split: if_splits)
  moreover have "assoc_inv benv k alt t ?s" using assms(3) assoc_inv_cong [of ?s s] by simp
  ultimately show "us_clientUDPAddr s' = Some src" "\<forall>c b. SendClient c b \<notin> set es"
    using forwardOutbound_reason [of "ue_lookup env" now ?dst payload ?s s' es benv k alt t] by auto
  show "let frag = [r1, r2, fr, atypIPv4, x, y, z, w] @ put_be16 port @ payload in
     \<exists>s2. relay_datagram env now client frag s = Some (Some (s2, [SendClient client (buildSOCKS5UDPHeader client frag)]))"
  proof -
    define frag where "frag = [r1, r2, fr, atypIPv4, x, y, z, w] @ put_be16 port @ payload"
    have p: "parseSOCKS5UDPHeader (ue_lookup env) frag = Some (Inr (?dst, payload, fr))" unfolding frag_def by (rule parse_v4)
    obtain a where a: "recordRecv client s = s\<lparr>us_stats := a\<rparr>" using recordRecv_fields by blast
    obtain d where d: "learn env now client frag (s\<lparr>us_stats := a\<rparr>) = s\<lparr>us_stats := a\<rparr>\<lparr>us_dns := d\<rparr>" using learn_fields by blast
    have "\<exists>s2. relay_datagram env now client frag s = Some (Some (s2, [SendClient client (buildSOCKS5UDPHeader client frag)]))"
      using assms(4,5) by (simp add: relay_datagram_def p a d Let_def)
    then show ?thesis unfolding frag_def Let_def .
  qed
qed

theorem relay_loop_confuses_senders_witness:
  "\<exists>s' es. relay_datagram sample_udp_env 1 \<lparr>ua_IP = [6, 6, 6, 6], ua_Port = 6\<rparr> ([1, 2, 0, atypIPv4, 9, 9, 9, 9] @ put_be16 1 @ [])
      ((newUDPAssocSession None False False GlobalDNSCache)\<lparr>us_clientUDPAddr := Some sample_client\<rparr>) = Some (Some (s', es)) \<and>
    us_clientUDPAddr s' = Some \<lparr>ua_IP = [6, 6, 6, 6], ua_Port = 6\<rparr>"
proof -
  let ?s = "(newUDPAssocSession None False False GlobalDNSCache)\<lparr>us_clientUDPAddr := Some sample_client\<rparr>"
  let ?src = "\<lparr>ua_IP = [6, 6, 6, 6], ua_Port = 6\<rparr>"
  let ?d = "[1, 2, 0, atypIPv4, 9, 9, 9, 9] @ put_be16 1 @ []"
  have "case relay_datagram sample_udp_env 1 ?src ?d ?s of Some (Some r) \<Rightarrow> True | _ \<Rightarrow> False" by code_simp
  then obtain s' es where r: "relay_datagram sample_udp_env 1 ?src ?d ?s = Some (Some (s', es))"
    by (auto split: option.splits)
  have "assoc_inv sample_bypass_env [] False True ?s" by (simp add: assoc_inv_def newUDPAssocSession_def)
  then show ?thesis
    using relay_loop_confuses_senders [OF r, of sample_bypass_env "[]" False True 1 sample_client] r
    by (auto simp: newUDPAssocSession_def)
qed

text \<open>Property C7. A datagram through the tunnel and back. For a session without direct routes, a
  control that accepts the session's token and an exit that follows the documented format: a client
  datagram for an IPv4 destination is queued, one round of its worker posts it, the exit sees exactly
  the connection id, address, port and payload of the client, and every datagram of the exit's answer
  reaches the client in order, in a header that parses to the destination and that datagram.\<close>

theorem udp_datagram_round_trip:
  assumes "\<forall>t. length (blake t) = KeySize" "\<forall>key. aead (sealk key) (openk key)"
    and "\<forall>b. length (pe_nonce penv b) = NonceSize" "length nonce = NonceSize" "valid (td_token td)"
    and "pe_send penv = control blake sealk openk valid (exit_service svc) (replicate minPadding 0) nonce"
    and tunnel: "tunnel = (\<lambda>d p. case PostUDPFrame (\<lambda>plain. fst (doPost blake sealk openk penv plain True False td)) t0 t1
        (hex_encode raw) d p mon of None \<Rightarrow> None | Some (r, m) \<Rightarrow> r)"
    and dst: "dst = \<lparr>ua_IP = [x, y, z, w], ua_Port = int (unat port)\<rparr>" and "length raw = 16" "length payload < 4294967296"
    and "us_tunnelOnly s" "us_bypass s = None" "\<not> us_stopped s" "\<not> (us_blockQUIC s \<and> port = 443)"
    and "\<not> blocked_now now (UDPAddr_String dst) s" "map_of (us_tunnelWorkers s) (UDPAddr_String dst) = None"
    and fs: "fs = svc raw [x, y, z, w] port payload" "length (batch_body fs) < 4000000000" "length fs < 4294967296"
  shows "\<exists>s1 s2. relay_datagram env now client ([0, 0, 0, atypIPv4, x, y, z, w] @ put_be16 port @ payload) s = Some (Some (s1, [])) \<and>
    runTunnelWorker env now' (UDPAddr_String dst) tunnel s1 = Some (s2, map (\<lambda>f. SendClient client (buildSOCKS5UDPHeader dst f)) fs) \<and>
    (\<forall>f. parseSOCKS5UDPHeader lookup (buildSOCKS5UDPHeader dst f) = Some (Inr (dst, f, 0)))"
proof -
  define plain where "plain = raw @ [0x04] @ [x, y, z, w] @ put_be16 port @ put_be32 (word_of_nat (length payload)) @ payload"
  define answer where "answer = put_be32 (word_of_nat (length fs)) @ batch_body fs"
  have ex: "exit_service svc plain = answer"
    using exit_service_v4 [OF assms(9) _ assms(10), of "[x, y, z, w]" svc port] by (simp add: plain_def answer_def fs(1) Let_def del: append.simps)
  have post: "fst (doPost blake sealk openk penv plain True False td) = Inr answer"
    using doPost_valid [OF assms(1-4,6), of plain td True False] assms(5) fs(2) ex by (auto simp: minPadding_def answer_def)
  have "length f \<le> length (batch_body fs)" if "f \<in> set fs" for f
    using that by (induction fs) (auto simp: batch_body_def)
  then have "\<forall>f \<in> set fs. length f < 4294967296" using fs(2) by fastforce
  then obtain mon' where "PostUDPFrame (\<lambda>plain. fst (doPost blake sealk openk penv plain True False td)) t0 t1 (hex_encode raw) dst payload mon =
      Some (Some fs, mon')"
    using PostUDPFrame_exchange [OF assms(9), of dst "[x, y, z, w]" "\<lambda>plain. fst (doPost blake sealk openk penv plain True False td)" payload fs t0 t1 mon]
      post fs(3) by (auto simp: dst plain_def answer_def simp del: append.simps)
  then have tun: "tunnel dst payload = Some fs" by (simp add: tunnel)
  obtain s1 where s1: "relay_datagram env now client ([0, 0, 0, atypIPv4, x, y, z, w] @ put_be16 port @ payload) s = Some (Some (s1, []))"
    "us_clientUDPAddr s1 = Some client" "us_stopped s1 = us_stopped s" "map_of (us_tunnelWorkers s1) (UDPAddr_String dst) = Some (dst, [payload])"
    using datagram_queued [OF assms(11,12,14) dst assms(15,16)] by blast
  then have "\<not> us_stopped s1" using assms(13) by simp
  from worker_delivers [where tunnel = tunnel, OF s1(4,2) this tun] show ?thesis
    using s1(1) wrapped_parses [OF dst] by blast
qed

theorem udp_datagram_round_trip_witness:
  "\<exists>tunnel s1 s2. relay_datagram sample_udp_env 1 sample_client ([0, 0, 0, atypIPv4, 9, 9, 9, 9] @ put_be16 1 @ [7])
      (newUDPAssocSession None False False GlobalDNSCache) = Some (Some (s1, [])) \<and>
    runTunnelWorker sample_udp_env 2 (UDPAddr_String \<lparr>ua_IP = [9, 9, 9, 9], ua_Port = 1\<rparr>) tunnel s1 =
      Some (s2, [SendClient sample_client (buildSOCKS5UDPHeader \<lparr>ua_IP = [9, 9, 9, 9], ua_Port = 1\<rparr> [7, 7])])"
proof -
  define svc :: "bytes \<Rightarrow> bytes \<Rightarrow> u16 \<Rightarrow> bytes \<Rightarrow> bytes list" where "svc = (\<lambda>c a p b. [b @ b])"
  define penv where "penv = \<lparr>pe_send = control (\<lambda>t. replicate 32 0) toy_sealk toy_openk (\<lambda>t. True) (exit_service svc) (replicate minPadding 0) (replicate 12 0),
    pe_refresh = (\<lambda>t. ReauthFailed), pe_nonce = (\<lambda>b. replicate 12 0)\<rparr>"
  define td where "td = \<lparr>td_token = ''t'', td_udpRelay = None, td_onUDPFailed = False\<rparr>"
  let ?dst = "\<lparr>ua_IP = [9, 9, 9, 9], ua_Port = int (unat (1 :: u16))\<rparr>"
  let ?s = "newUDPAssocSession None False False GlobalDNSCache"
  have "us_tunnelOnly ?s" "us_bypass ?s = None" "\<not> us_stopped ?s" "\<not> (us_blockQUIC ?s \<and> (1 :: u16) = 443)"
    "\<not> blocked_now 1 (UDPAddr_String ?dst) ?s" "map_of (us_tunnelWorkers ?s) (UDPAddr_String ?dst) = None"
    by (simp_all add: newUDPAssocSession_def blocked_now_def)
  then show ?thesis
    using udp_datagram_round_trip [of "\<lambda>t. replicate 32 0" toy_sealk toy_openk penv "replicate 12 0" "\<lambda>t. True" td svc _ 0 0 "replicate 16 0"
      TunnelMonitor ?dst 9 9 9 9 1 "[7]" ?s 1 "[[7, 7]]" sample_udp_env sample_client 2 "\<lambda>h. None", OF _ _ _ _ _ _ refl]
    by (auto simp: penv_def svc_def KeySize_def NonceSize_def toy_aead batch_body_def)
qed

end
