(* ===== verification/Socks_Server.thy ===== *)
theory Socks_Server
  imports UDP_Assoc Dial_Window
begin

text \<open>
  The SOCKS5 server of \<^verbatim>\<open>socks5.go\<close>: routing of CONNECT requests between the direct path and the
  tunnel, UDP ASSOCIATE, and the handler that ties them to the protocol of Socks_Wire. The outcomes of
  dialing are parameters. A blocked \<open>acquire\<close> is a result of its own: the rest of the handler runs
  when it is repeated with room. Copying bytes between the two connections is not modelled. A panic is
  the outer \<^term>\<open>None\<close>.
\<close>

definition socks5PerIPLimit :: nat where "socks5PerIPLimit = 500"
definition blockBitTorrent :: bool where "blockBitTorrent = True"

record SOCKS5Server =
  ss_addr :: string
  ss_pool :: "DialerPool option"
  ss_bypass :: "BypassManager option"
  ss_limiter :: "connLimiter option"
  ss_DisableUDP :: bool
  ss_BlockQUIC :: bool
  ss_AltDNSRouting :: bool
  ss_dialFn :: bool

definition NewSOCKS5ServerWithPool :: "string \<Rightarrow> DialerPool \<Rightarrow> BypassManager option \<Rightarrow> SOCKS5Server" where
  "NewSOCKS5ServerWithPool addr pool bypass =
     \<lparr>ss_addr = addr, ss_pool = Some pool, ss_bypass = bypass, ss_limiter = Some (newConnLimiter socks5PerIPLimit),
      ss_DisableUDP = False, ss_BlockQUIC = False, ss_AltDNSRouting = False, ss_dialFn = False\<rparr>"

definition NewSOCKS5ServerWithBypass :: "string \<Rightarrow> nat \<Rightarrow> BypassManager option \<Rightarrow> SOCKS5Server" where
  "NewSOCKS5ServerWithBypass addr dialer bypass =
     \<lparr>ss_addr = addr, ss_pool = Some (NewDialerPool [dialer]), ss_bypass = bypass, ss_limiter = Some (newConnLimiter socks5PerIPLimit),
      ss_DisableUDP = False, ss_BlockQUIC = False, ss_AltDNSRouting = False, ss_dialFn = False\<rparr>"

definition NewSOCKS5Server :: "string \<Rightarrow> nat \<Rightarrow> SOCKS5Server" where
  "NewSOCKS5Server addr dialer =
     \<lparr>ss_addr = addr, ss_pool = Some (NewDialerPool [dialer]), ss_bypass = None, ss_limiter = Some (newConnLimiter socks5PerIPLimit),
      ss_DisableUDP = False, ss_BlockQUIC = False, ss_AltDNSRouting = False, ss_dialFn = False\<rparr>"

definition NewSOCKS5ServerWithDialFunc :: SOCKS5Server where
  "NewSOCKS5ServerWithDialFunc =
     \<lparr>ss_addr = [], ss_pool = None, ss_bypass = None, ss_limiter = Some (newConnLimiter socks5PerIPLimit),
      ss_DisableUDP = False, ss_BlockQUIC = False, ss_AltDNSRouting = False, ss_dialFn = True\<rparr>"

section \<open>CONNECT\<close>

text \<open>What the handler gets from outside: name lookup, the DNS cache, the time of the routing decision
  and of the end of the dial, and whether each way of dialing succeeds. A direct dial is given its
  timeout.\<close>

record connect_env =
  ce_lookup :: "string \<Rightarrow> string list option"
  ce_dns :: dnsCache
  ce_now :: time
  ce_dialed :: time
  ce_direct :: "string \<Rightarrow> int \<Rightarrow> bool"
  ce_dialFn :: "string \<Rightarrow> bool"
  ce_weight :: "nat \<Rightarrow> rat"
  ce_random :: rat
  ce_dial :: "nat \<Rightarrow> string \<Rightarrow> bool"

datatype connect_end = Refused | RelayDirect | RelayTunnel nat | RelayExternal

datatype direct_phase = DirectDone connect_end | NeedTunnel bool

text \<open>The handler up to the limiter.\<close>

definition connect_direct :: "connect_env \<Rightarrow> string \<Rightarrow> SOCKS5Server \<Rightarrow> (direct_phase \<times> SOCKS5Server) option" where
  "connect_direct env target s =
     (if blockBitTorrent \<and> isBitTorrentPort target then Some (DirectDone Refused, s)
      else if ss_dialFn s then Some (NeedTunnel False, s)
      else case ss_bypass s of
        None \<Rightarrow> Some (NeedTunnel False, s)
      | Some m \<Rightarrow> do {
          (should, m1) \<leftarrow> ShouldBypass (ce_lookup env) (ce_dns env) (ce_now env) target m;
          let s1 = s\<lparr>ss_bypass := Some m1\<rparr>;
          let lan = isLANAddress target;
          if should \<or> lan then
            (if ce_direct env target (if lan then second else 8 * second) then Some (DirectDone RelayDirect, s1)
             else if lan then Some (DirectDone Refused, s1)
             else Some (NeedTunnel True, s1))
          else Some (NeedTunnel False, s1)
        })"

text \<open>The handler after the slot was acquired.\<close>

definition record_failed :: "connect_env \<Rightarrow> bool \<Rightarrow> string \<Rightarrow> SOCKS5Server \<Rightarrow> SOCKS5Server" where
  "record_failed env bypassFailed target s = (case ss_bypass s of
     None \<Rightarrow> s
   | Some m \<Rightarrow> if bypassFailed then s\<lparr>ss_bypass := Some (RecordBypassFailure (ce_dialed env) target m)\<rparr> else s)"

definition connect_tunnel :: "connect_env \<Rightarrow> bool \<Rightarrow> string \<Rightarrow> SOCKS5Server \<Rightarrow> (connect_end \<times> SOCKS5Server) option" where
  "connect_tunnel env bypassFailed target s =
     (if ss_dialFn s then
        Some (if ce_dialFn env target then RelayExternal else Refused, record_failed env bypassFailed target s)
      else case ss_pool s of
        None \<Rightarrow> None
      | Some p \<Rightarrow> (case Pick (ce_weight env) (ce_random env) p of
          None \<Rightarrow> Some (Refused, s)
        | Some d \<Rightarrow> Some (if ce_dial env d target then RelayTunnel d else Refused, record_failed env bypassFailed target s)))"

text \<open>\<open>handleConnect\<close> until it relays: how it ended, whether it holds a slot of the limiter, and the
  server.\<close>

datatype connect_result = ConnBlocked SOCKS5Server | ConnEnd connect_end bool SOCKS5Server

definition handleConnect :: "connect_env \<Rightarrow> string \<Rightarrow> string \<Rightarrow> SOCKS5Server \<Rightarrow> connect_result option" where
  "handleConnect env remote target s = do {
     (ph, s1) \<leftarrow> connect_direct env target s;
     case ph of
       DirectDone e \<Rightarrow> Some (ConnEnd e False s1)
     | NeedTunnel bf \<Rightarrow>
        (case ss_limiter s1 of
           None \<Rightarrow> map_option (\<lambda>(e, s2). ConnEnd e False s2) (connect_tunnel env bf target s1)
         | Some l \<Rightarrow>
            let a = remoteHost remote; (ok, l1) = acquire a l; s2 = s1\<lparr>ss_limiter := Some l1\<rparr> in
            if \<not> ok then Some (ConnBlocked s2)
            else do {
              (e, s3) \<leftarrow> connect_tunnel env bf target s2;
              if e \<noteq> Refused then Some (ConnEnd e True s3)
              else (case release a l1 of
                  None \<Rightarrow> Some (ConnBlocked s3)
                | Some l2 \<Rightarrow> Some (ConnEnd e False (s3\<lparr>ss_limiter := Some l2\<rparr>)))
            })
   }"

text \<open>The reply to the client; the slot is given back when the relay ends.\<close>

definition connect_reply :: "connect_end \<Rightarrow> bytes" where
  "connect_reply e = socks5Reply (if e = Refused then repGenFail else repSuccess)"

definition connect_done :: "string \<Rightarrow> SOCKS5Server \<Rightarrow> SOCKS5Server option" where
  "connect_done remote s = (case ss_limiter s of
     None \<Rightarrow> Some s
   | Some l \<Rightarrow> map_option (\<lambda>l1. s\<lparr>ss_limiter := Some l1\<rparr>) (release (remoteHost remote) l))"

record firstByteReader =
  fb_start :: time
  fb_ttb :: int
  fb_done :: bool

definition fb_Read :: "time \<Rightarrow> nat \<Rightarrow> firstByteReader \<Rightarrow> firstByteReader" where
  "fb_Read now n f = (if n > 0 \<and> \<not> fb_done f then f\<lparr>fb_done := True, fb_ttb := now - fb_start f\<rparr> else f)"

section \<open>UDP ASSOCIATE\<close>

definition ip_unspecified :: "ip \<Rightarrow> bool" where
  "ip_unspecified a \<longleftrightarrow> IsUnspecified a \<or> a = replicate 4 0"

definition assoc_reply_ip :: "ip \<Rightarrow> ip" where
  "assoc_reply_ip a = (if a = [] \<or> ip_unspecified a then v4InV6Prefix @ [127, 0, 0, 1] else a)"

text \<open>The reply, the session that then runs, and the traffic monitor; \<open>bound\<close> is the address the relay
  socket was bound to, \<^term>\<open>None\<close> when binding failed.\<close>

definition handleUDPAssoc ::
  "(nat \<Rightarrow> rat) \<Rightarrow> rat \<Rightarrow> UDPAddr option \<Rightarrow> dnsCache \<Rightarrow> SOCKS5Server \<Rightarrow> TunnelTrafficMonitor \<Rightarrow>
   bytes \<times> udpAssocSession option \<times> TunnelTrafficMonitor" where
  "handleUDPAssoc weight rnd bound dns s mon = (case (if ss_DisableUDP s then None else ss_pool s) of
     None \<Rightarrow> (socks5Reply repCmdNotSupp, None, mon)
   | Some p \<Rightarrow>
      (case Pick weight rnd p of
         None \<Rightarrow> (socks5Reply repGenFail, None, tm_Reset mon)
       | Some d \<Rightarrow>
          (case bound of
             None \<Rightarrow> (socks5Reply repGenFail, None, tm_Reset mon)
           | Some a \<Rightarrow> (sendSOCKS5UDPReply (assoc_reply_ip (ua_IP a)) (word_of_int (ua_Port a)),
               Some (newUDPAssocSession (ss_bypass s) (ss_AltDNSRouting s) (ss_BlockQUIC s) dns), tm_Reset mon))))"

section \<open>The handler\<close>

datatype handle_result = HandleClosed bytes | HandleWaits bytes SOCKS5Server | HandleRelays bytes connect_end bool SOCKS5Server bytes
  | HandleAssoc bytes "udpAssocSession option" TunnelTrafficMonitor

text \<open>\<open>handle\<close> on what the client sends; a relay starts with the input not yet read.\<close>

definition handle ::
  "connect_env \<Rightarrow> UDPAddr option \<Rightarrow> string \<Rightarrow> bytes \<Rightarrow> SOCKS5Server \<Rightarrow> TunnelTrafficMonitor \<Rightarrow> handle_result option" where
  "handle env bound remote inp s mon = (case socks_handle inp of
     (w, CmdNone, r) \<Rightarrow> Some (HandleClosed w)
   | (w, CmdConnect target, r) \<Rightarrow> (case handleConnect env remote target s of
        None \<Rightarrow> None
      | Some (ConnBlocked s1) \<Rightarrow> Some (HandleWaits w s1)
      | Some (ConnEnd e slot s1) \<Rightarrow> Some (HandleRelays (w @ connect_reply e) e slot s1 r))
   | (w, CmdUDPAssoc target, r) \<Rightarrow>
      (case handleUDPAssoc (ce_weight env) (ce_random env) bound (ce_dns env) s mon of
         (w2, sess, mon1) \<Rightarrow> Some (HandleAssoc (w @ w2) sess mon1)))"

section \<open>Facts\<close>

lemma isBitTorrentPort_ipv4:
  "isBitTorrentPort (ipv4_string a b c d @ CHR '':'' # utoa n) \<longleftrightarrow> n \<le> 65535 \<and> n \<in> set bitTorrentPorts"
proof -
  have "SplitHostPort (ipv4_string a b c d @ CHR '':'' # utoa n) = Some (ipv4_string a b c d, utoa n)"
    using SplitHostPort_plain ipv4_string_plain utoa_plain by blast
  moreover have "list_all is_digit (utoa n)" using utoa_digits by (auto simp: list_all_iff)
  ultimately show ?thesis by (simp add: isBitTorrentPort_def ParseUint16_def)
qed

lemma record_failed_fields [simp]:
  "ss_limiter (record_failed env bf t s) = ss_limiter s" "ss_dialFn (record_failed env bf t s) = ss_dialFn s"
  "ss_pool (record_failed env bf t s) = ss_pool s"
  by (simp_all add: record_failed_def split: option.splits)

lemma connect_tunnel_end:
  "connect_tunnel env bf target s = Some (e, s') \<Longrightarrow>
   ss_limiter s' = ss_limiter s \<and> (if ss_dialFn s then e \<in> {Refused, RelayExternal} else e = Refused \<or> (\<exists>d. e = RelayTunnel d))"
  by (auto simp: connect_tunnel_def split: if_splits option.splits)

lemma connect_tunnel_total: "ss_dialFn s \<or> ss_pool s \<noteq> None \<Longrightarrow> \<exists>e s'. connect_tunnel env bf target s = Some (e, s')"
  by (auto simp: connect_tunnel_def split: option.splits)

text \<open>The direct phase: it returns, and what it decides has a reason.\<close>

definition direct_phase_ok :: "bypass_env \<Rightarrow> bytes \<Rightarrow> connect_env \<Rightarrow> string \<Rightarrow> SOCKS5Server \<Rightarrow> direct_phase \<Rightarrow> bool" where
  "direct_phase_ok benv k env target s ph \<longleftrightarrow> (case ph of
     DirectDone e \<Rightarrow>
       (e = Refused \<and> (isBitTorrentPort target \<or> isLANAddress target)) \<or>
       (e = RelayDirect \<and> \<not> isBitTorrentPort target \<and> \<not> ss_dialFn s \<and>
         (isLANAddress target \<or> (\<exists>a. resolve_ip (ce_lookup env) (host_part target) = Some a \<and> bypass_reason benv k (ce_dns env) (ce_now env) a)))
   | NeedTunnel bf \<Rightarrow> \<not> isBitTorrentPort target \<and> (ss_dialFn s \<or> ss_bypass s = None \<or> \<not> isLANAddress target))"

lemma connect_direct_ok:
  assumes "\<forall>m. ss_bypass s = Some m \<longrightarrow> bm_inv benv k m"
  shows "\<exists>ph b. connect_direct env target s = Some (ph, s\<lparr>ss_bypass := b\<rparr>) \<and> direct_phase_ok benv k env target s ph"
proof (cases "isBitTorrentPort target \<or> ss_dialFn s \<or> ss_bypass s = None")
  case True
  have "s = s\<lparr>ss_bypass := ss_bypass s\<rparr>" by simp
  then have "connect_direct env target s = Some (if isBitTorrentPort target then DirectDone Refused else NeedTunnel False, s\<lparr>ss_bypass := ss_bypass s\<rparr>)"
    using True by (auto simp: connect_direct_def blockBitTorrent_def split: option.splits)
  moreover have "direct_phase_ok benv k env target s (if isBitTorrentPort target then DirectDone Refused else NeedTunnel False)"
    using True by (auto simp: direct_phase_ok_def)
  ultimately show ?thesis by blast
next
  case False
  then obtain m where m: "ss_bypass s = Some m" by auto
  then have "bm_inv benv k m" using assms by blast
  from ShouldBypass_reason [OF this, of "ce_lookup env" "ce_dns env" "ce_now env" target]
  obtain b m1 where sb: "ShouldBypass (ce_lookup env) (ce_dns env) (ce_now env) target m = Some (b, m1)"
    and reason: "b \<longrightarrow> (\<exists>a. resolve_ip (ce_lookup env) (host_part target) = Some a \<and> bypass_reason benv k (ce_dns env) (ce_now env) a)"
    by blast
  define lan where "lan = isLANAddress target"
  define dir where "dir = ce_direct env target (if lan then second else 8 * second)"
  define ph where "ph = (if b \<or> lan then if dir then DirectDone RelayDirect else if lan then DirectDone Refused else NeedTunnel True else NeedTunnel False)"
  have "connect_direct env target s = Some (ph, s\<lparr>ss_bypass := Some m1\<rparr>)"
    using False m sb by (simp add: connect_direct_def Let_def ph_def lan_def dir_def)
  moreover have "direct_phase_ok benv k env target s ph"
    using False reason by (auto simp: direct_phase_ok_def ph_def lan_def)
  ultimately show ?thesis by blast
qed

lemma acquire_release:
  assumes "acquire a l = (True, l1)"
  shows "(\<forall>b. sem_count b l1 = sem_count b l + (if b = a then 1 else 0)) \<and>
    (\<exists>l2. release a l1 = Some l2 \<and> (\<forall>b. sem_count b l2 = sem_count b l))"
proof -
  have l1: "l1 = l\<lparr>cl_sems := AList.update a (sem_count a l + 1) (cl_sems l)\<rparr>"
    using assms by (auto simp: acquire_def Let_def split: if_splits)
  then obtain l2 where r: "release a l1 = Some l2" by (simp add: release_def update_conv)
  have "sem_count b l2 = sem_count b l" for b using release_sem [OF r] l1 by simp
  then show ?thesis using r l1 by simp
qed

text \<open>How a CONNECT may end.\<close>

definition connect_ok :: "bypass_env \<Rightarrow> bytes \<Rightarrow> connect_env \<Rightarrow> string \<Rightarrow> string \<Rightarrow> SOCKS5Server \<Rightarrow> connect_end \<Rightarrow> bool \<Rightarrow> SOCKS5Server \<Rightarrow> bool" where
  "connect_ok benv k env remote target s e slot s' \<longleftrightarrow>
     (isBitTorrentPort target \<longrightarrow> e = Refused) \<and>
     (ss_dialFn s \<longrightarrow> e = Refused \<or> e = RelayExternal) \<and>
     (\<not> ss_dialFn s \<and> ss_bypass s \<noteq> None \<and> isLANAddress target \<longrightarrow> e = Refused \<or> e = RelayDirect) \<and>
     (e = RelayDirect \<longrightarrow> isLANAddress target \<or>
       (\<exists>a. resolve_ip (ce_lookup env) (host_part target) = Some a \<and> bypass_reason benv k (ce_dns env) (ce_now env) a)) \<and>
     (\<forall>l. ss_limiter s = Some l \<longrightarrow> slot = (e \<noteq> Refused \<and> e \<noteq> RelayDirect) \<and>
       (\<exists>l'. ss_limiter s' = Some l' \<and>
         (\<forall>a. sem_count a l' = sem_count a l + (if slot \<and> a = remoteHost remote then 1 else 0))))"

lemma handleConnect_ok:
  assumes inv: "\<forall>m. ss_bypass s = Some m \<longrightarrow> bm_inv benv k m" and pool: "ss_dialFn s \<or> ss_pool s \<noteq> None"
  shows "\<exists>r. handleConnect env remote target s = Some r \<and> (case r of
      ConnBlocked s' \<Rightarrow> \<exists>l. ss_limiter s = Some l \<and> cl_perIP l \<le> sem_count (remoteHost remote) l
    | ConnEnd e slot s' \<Rightarrow> connect_ok benv k env remote target s e slot s')"
proof -
  obtain ph b where d: "connect_direct env target s = Some (ph, s\<lparr>ss_bypass := b\<rparr>)" "direct_phase_ok benv k env target s ph"
    using connect_direct_ok [OF inv] by blast
  show ?thesis
  proof (cases ph)
    case (DirectDone e)
    then show ?thesis using d by (auto simp: handleConnect_def direct_phase_ok_def connect_ok_def)
  next
    case (NeedTunnel bf)
    let ?a = "remoteHost remote"
    have end_ok: "connect_ok benv k env remote target s e slot s'"
      if "if ss_dialFn s then e \<in> {Refused, RelayExternal} else e = Refused \<or> (\<exists>d. e = RelayTunnel d)"
        "\<forall>l. ss_limiter s = Some l \<longrightarrow> slot = (e \<noteq> Refused) \<and> (\<exists>l'. ss_limiter s' = Some l' \<and>
          (\<forall>c. sem_count c l' = sem_count c l + (if slot \<and> c = ?a then 1 else 0)))" for e slot s'
    proof -
      have "e \<noteq> RelayDirect" using that(1) by (auto split: if_splits)
      then have "\<forall>l. ss_limiter s = Some l \<longrightarrow> slot = (e \<noteq> Refused \<and> e \<noteq> RelayDirect) \<and> (\<exists>l'. ss_limiter s' = Some l' \<and>
          (\<forall>c. sem_count c l' = sem_count c l + (if slot \<and> c = ?a then 1 else 0)))" using that(2) by blast
      moreover have "isBitTorrentPort target \<longrightarrow> e = Refused" "ss_dialFn s \<longrightarrow> e = Refused \<or> e = RelayExternal"
        "\<not> ss_dialFn s \<and> ss_bypass s \<noteq> None \<and> isLANAddress target \<longrightarrow> e = Refused \<or> e = RelayDirect"
        using that(1) d(2) NeedTunnel by (auto simp: direct_phase_ok_def)
      ultimately show ?thesis using \<open>e \<noteq> RelayDirect\<close> unfolding connect_ok_def by blast
    qed
    show ?thesis
    proof (cases "ss_limiter s")
      case None
      obtain e s2 where t: "connect_tunnel env bf target (s\<lparr>ss_bypass := b\<rparr>) = Some (e, s2)"
        using connect_tunnel_total [of "s\<lparr>ss_bypass := b\<rparr>" env bf target] pool by auto
      then have "connect_ok benv k env remote target s e False s2" using connect_tunnel_end [OF t] None by (intro end_ok) (auto split: if_splits)
      then show ?thesis using d(1) NeedTunnel None t by (simp add: handleConnect_def)
    next
      case (Some l)
      obtain ok l1 where a: "acquire ?a l = (ok, l1)" by (cases "acquire ?a l")
      let ?s2 = "s\<lparr>ss_bypass := b, ss_limiter := Some l1\<rparr>"
      show ?thesis
      proof (cases ok)
        case False
        then have "cl_perIP l \<le> sem_count ?a l" using a by (auto simp: acquire_def Let_def split: if_splits)
        then show ?thesis using d(1) NeedTunnel Some a False by (auto simp: handleConnect_def Let_def)
      next
        case True
        obtain e s3 where t: "connect_tunnel env bf target ?s2 = Some (e, s3)" using connect_tunnel_total [of ?s2 env bf target] pool by auto
        obtain l2 where r: "release ?a l1 = Some l2" "\<forall>c. sem_count c l2 = sem_count c l"
          "\<forall>c. sem_count c l1 = sem_count c l + (if c = ?a then 1 else 0)"
          using acquire_release [of ?a l l1] a True by auto
        have "connect_ok benv k env remote target s e True s3" if "e \<noteq> Refused"
          using connect_tunnel_end [OF t] that Some r(3) by (intro end_ok) auto
        moreover have "connect_ok benv k env remote target s Refused False (s3\<lparr>ss_limiter := Some l2\<rparr>)"
          using Some r(2) by (intro end_ok) auto
        ultimately show ?thesis using d(1) NeedTunnel Some a True t r(1) by (auto simp: handleConnect_def Let_def)
      qed
    qed
  qed
qed

section \<open>Properties\<close>

text \<open>Property C11. Routing of CONNECT requests. A server with a pool or an external dial function never
  panics on a request and waits only when the client's address is at its limit. BitTorrent ports are
  always refused; with an external dial function nothing goes directly; a LAN target is never sent
  through the tunnel when a bypass manager is present; a direct connection is made only to a LAN
  target or with a reason from the signed list; and a slot of the limiter is held exactly by
  connections relayed through the tunnel.\<close>

theorem connect_routes_safely:
  assumes "NewBypassManager exitURLs pubkeyHex file disk = Some m0" "pubkeyHex \<noteq> []" "countries_agree benv"
    and "ss_bypass s = None \<or> ss_bypass s = Some (fold (bm_step benv) ops m0)" "ss_dialFn s \<or> ss_pool s \<noteq> None"
  shows "\<exists>k r. hex_decode pubkeyHex = Some k \<and> handleConnect env remote target s = Some r \<and> (case r of
      ConnBlocked s' \<Rightarrow> \<exists>l. ss_limiter s = Some l \<and> cl_perIP l \<le> sem_count (remoteHost remote) l
    | ConnEnd e slot s' \<Rightarrow> connect_ok benv k env remote target s e slot s')"
proof -
  obtain k where k: "hex_decode pubkeyHex = Some k" "bm_inv benv k m0" using NewBypassManager_inv [OF assms(1,2), of benv] by blast
  have "bm_inv benv k (fold (bm_step benv) ops m0)" using bm_run_inv k(2) assms(3) by blast
  then have "\<forall>m. ss_bypass s = Some m \<longrightarrow> bm_inv benv k m" using assms(4) by auto
  from handleConnect_ok [OF this assms(5)] show ?thesis using k(1) by blast
qed

definition sample_connect_env :: connect_env where
  "sample_connect_env = \<lparr>ce_lookup = (\<lambda>h. None), ce_dns = GlobalDNSCache, ce_now = 0, ce_dialed = 1, ce_direct = (\<lambda>t d. True),
     ce_dialFn = (\<lambda>t. True), ce_weight = (\<lambda>d. 1), ce_random = 0, ce_dial = (\<lambda>d t. True)\<rparr>"

definition sample_server :: SOCKS5Server where
  "sample_server = NewSOCKS5ServerWithPool [] (NewDialerPool [3]) (Some sample_manager)"

theorem connect_routes_safely_witness:
  "\<exists>k r. hex_decode (replicate 64 CHR ''0'') = Some k \<and> handleConnect sample_connect_env ''127.0.0.1:5'' ''9.9.9.9:80'' sample_server = Some r \<and>
    (case r of
      ConnBlocked s' \<Rightarrow> \<exists>l. ss_limiter sample_server = Some l \<and> cl_perIP l \<le> sem_count (remoteHost ''127.0.0.1:5'') l
    | ConnEnd e slot s' \<Rightarrow> connect_ok sample_bypass_env k sample_connect_env ''127.0.0.1:5'' ''9.9.9.9:80'' sample_server e slot s')"
proof -
  have hex: "replicate 64 CHR ''0'' \<noteq> []" by simp
  have bp: "ss_bypass sample_server = None \<or> ss_bypass sample_server = Some (fold (bm_step sample_bypass_env) [] sample_manager)"
    and pool: "ss_dialFn sample_server \<or> ss_pool sample_server \<noteq> None"
    by (simp_all add: sample_server_def NewSOCKS5ServerWithPool_def)
  show ?thesis by (rule connect_routes_safely [OF sample_manager_new hex sample_agree bp pool])
qed

text \<open>A failed direct connection is remembered. When a direct dial to an IPv4 target failed
  and the request went on to the tunnel, then for thirty minutes every request for that address, on
  any port, skips the direct path, whether or not the tunnel could connect; afterwards the decision
  is that of the manager without the record.\<close>

lemma failed_direct_is_remembered:
  assumes "target = ipv4_string a b c d @ CHR '':'' # utoa port" "target' = ipv4_string a b c d @ CHR '':'' # utoa port'"
    and "ss_bypass s = Some m" "\<not> ss_dialFn s" "bm_enabled m" "connect_tunnel env True target s = Some (e, s')"
    and "ss_pool s = Some p" "Pick (ce_weight env) (ce_random env) p \<noteq> None"
    and "\<not> isBitTorrentPort target'" "\<not> isLANAddress target'"
  shows "(ce_now env' < ce_dialed env + 30 * minute \<longrightarrow> connect_direct env' target' s' = Some (NeedTunnel False, s')) \<and>
    (ce_dialed env + 30 * minute \<le> ce_now env' \<longrightarrow>
      map_option fst (connect_direct env' target' s') =
      map_option fst (connect_direct env' target' (s\<lparr>ss_bypass := Some (m\<lparr>bm_failedIPs := AList.delete (ipv4_string a b c d) (bm_failedIPs m)\<rparr>)\<rparr>)))"
proof -
  let ?h = "ipv4_string a b c d"
  have s': "s' = s\<lparr>ss_bypass := Some (RecordBypassFailure (ce_dialed env) target m)\<rparr>"
    using assms(3,4,6-8) by (auto simp: connect_tunnel_def record_failed_def)
  have h: "host_part target = ?h" "host_part target' = ?h" unfolding assms(1,2) by (rule host_part_ipv4)+
  note w = failed_window [OF h(1) ParseIP_ipv4_string IP_String_mapped refl, where now = "ce_now env'" and t = "ce_dialed env"
    and addr' = target' and lookup = "ce_lookup env'" and dns = "ce_dns env'" and m = m]
  show ?thesis
    using w h(2) assms(3-5,9,10) s' by (auto simp: connect_direct_def blockBitTorrent_def Let_def bind_eq_Some_conv split: option.splits)
qed

end
