(* ===== verification/Router_State.thy ===== *)
theory Router_State
  imports Complex_Main Tunnel_Frames Host_Addr "HOL-Library.AList"
begin

text \<open>
  The state of the router of \<^verbatim>\<open>router.go\<close>: its nodes, marks, UDP peers, flap penalties and probes. The
  selection of paths is in \<open>Router_Paths\<close>. Scores are exact rationals where the code has \<^verbatim>\<open>float64\<close>; the rounding of the blend of two
  round-trip times is the parameter \<open>blend\<close>. \<^verbatim>\<open>sort.Slice\<close> leaves the order of ties open and
  \<^verbatim>\<open>rand.Shuffle\<close> is random: both are parameters. UDP connections are numbered handles. Results of
  probes are parameters; a probe updates only its own node, so the order of the goroutines does not
  matter. Maps are association lists. A panic is \<^term>\<open>None\<close>.
\<close>

datatype controlTransport = transportTCP | transportUDP

record routerNode =
  rn_ID :: string
  rn_Addr :: string
  rn_OperatorID :: string
  rn_CountryCode :: string
  rn_RTT :: int
  rn_TrafficRTT :: int
  rn_Loss :: rat
  rn_LastSeen :: time
  rn_IsAlive :: bool
  rn_transport :: controlTransport

record RouterPathNode =
  pn_ID :: string
  pn_Addr :: string

record RouterPath =
  rp_Relays :: "RouterPathNode list"
  rp_ControlAddr :: string
  rp_Score :: rat
  rp_UDPRelay :: "nat option"

record Router =
  ro_relays :: "routerNode list"
  ro_controls :: "routerNode list"
  ro_paths :: "RouterPath list"
  ro_pathIdx :: nat
  ro_myCountry :: string
  ro_dataDead :: "(string \<times> time) list"
  ro_udpDataFailed :: "(string \<times> time) list"
  ro_selfNodeID :: string
  ro_udpPeers :: "(string \<times> nat) list"
  ro_closed :: "nat list"
  ro_flaps :: "(string \<times> time list) list"

text \<open>\<^verbatim>\<open>Duration.Milliseconds\<close> truncates towards zero.\<close>

definition Milliseconds :: "int \<Rightarrow> int" where
  "Milliseconds d = (if d < 0 then - (- d div millisecond) else d div millisecond)"

definition flapWindow :: int where "flapWindow = 5 * minute"
definition flapPenaltyPerEviction :: int where "flapPenaltyPerEviction = 200 * millisecond"
definition flapPenaltyCap :: int where "flapPenaltyCap = 2 * second"
definition udpOnlyPenalty :: int where "udpOnlyPenalty = 30 * second"

definition IsDirect :: "RouterPath \<Rightarrow> bool" where "IsDirect p \<longleftrightarrow> rp_Relays p = []"

definition NewRouter :: Router where
  "NewRouter = \<lparr>ro_relays = [], ro_controls = [], ro_paths = [], ro_pathIdx = 0, ro_myCountry = [], ro_dataDead = [],
     ro_udpDataFailed = [], ro_selfNodeID = [], ro_udpPeers = [], ro_closed = [], ro_flaps = []\<rparr>"

section \<open>Addresses and nodes\<close>

definition normaliseAddr :: "string \<Rightarrow> string" where
  "normaliseAddr addr0 =
     (let a1 = TrimPrefix (TrimPrefix addr0 ''https://'') ''http://'';
          addr = (case first_index CHR ''/'' a1 of None \<Rightarrow> a1 | Some i \<Rightarrow> take i a1) in
      if SplitHostPort addr = None then addr @ '':443'' else addr)"

definition new_node :: "time \<Rightarrow> string \<Rightarrow> string \<Rightarrow> string \<Rightarrow> string \<Rightarrow> routerNode" where
  "new_node now i addr op cc = \<lparr>rn_ID = i, rn_Addr = normaliseAddr addr, rn_OperatorID = op, rn_CountryCode = cc,
     rn_RTT = 0, rn_TrafficRTT = 0, rn_Loss = 0, rn_LastSeen = now, rn_IsAlive = True, rn_transport = transportTCP\<rparr>"

definition SetSelfNodeID :: "string \<Rightarrow> Router \<Rightarrow> Router" where "SetSelfNodeID i r = r\<lparr>ro_selfNodeID := i\<rparr>"
definition SetMyCountry :: "string \<Rightarrow> Router \<Rightarrow> Router" where "SetMyCountry cc r = r\<lparr>ro_myCountry := cc\<rparr>"

definition SetControls :: "time \<Rightarrow> string list \<Rightarrow> Router \<Rightarrow> Router" where
  "SetControls now addrs r = r\<lparr>ro_controls := map (\<lambda>a. new_node now a a a []) addrs\<rparr>"

definition SetControl :: "time \<Rightarrow> string \<Rightarrow> Router \<Rightarrow> Router" where "SetControl now addr r = SetControls now [addr] r"

definition SetControlsWithRegions :: "time \<Rightarrow> string list \<Rightarrow> (string \<times> string) list \<Rightarrow> Router \<Rightarrow> Router" where
  "SetControlsWithRegions now addrs regions r =
     r\<lparr>ro_controls := map (\<lambda>a. new_node now a a a (case map_of regions a of None \<Rightarrow> [] | Some cc \<Rightarrow> cc)) addrs\<rparr>"

text \<open>A relay entry: its node id, address and country.\<close>

type_synonym relay_entry = "string \<times> string \<times> string"

definition UpdateRelays :: "time \<Rightarrow> relay_entry list \<Rightarrow> Router \<Rightarrow> Router" where
  "UpdateRelays now entries r = r\<lparr>ro_relays := map (\<lambda>(i, a, cc). new_node now i a (host_part a) cc) entries\<rparr>"

fun merge_entries :: "time \<Rightarrow> string \<Rightarrow> string list \<Rightarrow> relay_entry list \<Rightarrow> routerNode list" where
  "merge_entries now self known [] = []"
| "merge_entries now self known ((i, a, cc) # es) =
     (if i \<in> set known then merge_entries now self known es
      else if self \<noteq> [] \<and> i = self then merge_entries now self known es
      else new_node now i a (host_part a) cc # merge_entries now self (i # known) es)"

definition MergeDHTRelays :: "time \<Rightarrow> relay_entry list \<Rightarrow> Router \<Rightarrow> Router" where
  "MergeDHTRelays now entries r =
     r\<lparr>ro_relays := ro_relays r @ merge_entries now (ro_selfNodeID r) (map rn_ID (ro_relays r)) entries\<rparr>"

text \<open>Updating the first node that matches.\<close>

fun update_first :: "('a \<Rightarrow> bool) \<Rightarrow> ('a \<Rightarrow> 'a) \<Rightarrow> 'a list \<Rightarrow> 'a list" where
  "update_first P f [] = []"
| "update_first P f (x # xs) = (if P x then f x # xs else x # update_first P f xs)"

definition MarkControlDataDead :: "string \<Rightarrow> time \<Rightarrow> Router \<Rightarrow> Router" where
  "MarkControlDataDead addr till r = r\<lparr>ro_dataDead := AList.update addr till (ro_dataDead r)\<rparr>"

definition MarkControlAlive :: "time \<Rightarrow> string \<Rightarrow> Router \<Rightarrow> Router" where
  "MarkControlAlive now addr r = r\<lparr>ro_controls := update_first (\<lambda>n. rn_Addr n = normaliseAddr addr)
     (\<lambda>n. n\<lparr>rn_IsAlive := True, rn_LastSeen := now\<rparr>) (ro_controls r)\<rparr>"

definition MarkRelayAlive :: "time \<Rightarrow> string \<Rightarrow> Router \<Rightarrow> Router" where
  "MarkRelayAlive now i r = r\<lparr>ro_relays := update_first (\<lambda>n. rn_ID n = i \<or> rn_Addr n = i)
     (\<lambda>n. n\<lparr>rn_IsAlive := True, rn_LastSeen := now\<rparr>) (ro_relays r)\<rparr>"

definition MarkUDPDataFailed :: "time \<Rightarrow> string \<Rightarrow> Router \<Rightarrow> Router" where
  "MarkUDPDataFailed now addr r = r\<lparr>ro_controls := update_first (\<lambda>n. rn_Addr n = addr \<and> rn_transport n = transportUDP)
      (\<lambda>n. n\<lparr>rn_transport := transportTCP\<rparr>) (ro_controls r),
     ro_udpDataFailed := AList.update addr (now + 5 * minute) (ro_udpDataFailed r)\<rparr>"

definition UpdateControlRTT :: "string \<Rightarrow> int \<Rightarrow> Router \<Rightarrow> Router" where
  "UpdateControlRTT addr rtt r = r\<lparr>ro_controls := update_first (\<lambda>n. rn_Addr n = addr) (\<lambda>n. n\<lparr>rn_RTT := rtt\<rparr>) (ro_controls r)\<rparr>"

definition UpdateTrafficRTT :: "string \<Rightarrow> int \<Rightarrow> Router \<Rightarrow> Router" where
  "UpdateTrafficRTT addr rtt r =
     (let norm = normaliseAddr addr in
      if \<exists>n \<in> set (ro_controls r). rn_Addr n = norm
      then r\<lparr>ro_controls := update_first (\<lambda>n. rn_Addr n = norm) (\<lambda>n. n\<lparr>rn_TrafficRTT := rtt\<rparr>) (ro_controls r)\<rparr>
      else r\<lparr>ro_relays := update_first (\<lambda>n. rn_Addr n = norm) (\<lambda>n. n\<lparr>rn_TrafficRTT := rtt\<rparr>) (ro_relays r)\<rparr>)"

section \<open>UDP peers\<close>

definition RegisterUDPPeer :: "string \<Rightarrow> nat \<Rightarrow> Router \<Rightarrow> Router" where
  "RegisterUDPPeer key conn r =
     r\<lparr>ro_closed := (case map_of (ro_udpPeers r) key of None \<Rightarrow> ro_closed r | Some old \<Rightarrow> old # ro_closed r),
       ro_udpPeers := AList.update key conn (ro_udpPeers r)\<rparr>"

definition RemoveUDPPeer :: "string \<Rightarrow> Router \<Rightarrow> Router" where
  "RemoveUDPPeer key r = (case map_of (ro_udpPeers r) key of
     None \<Rightarrow> r
   | Some c \<Rightarrow> r\<lparr>ro_closed := c # ro_closed r, ro_udpPeers := AList.delete key (ro_udpPeers r)\<rparr>)"

definition CloseAllUDPPeers :: "Router \<Rightarrow> Router" where
  "CloseAllUDPPeers r = r\<lparr>ro_closed := map snd (ro_udpPeers r) @ ro_closed r, ro_udpPeers := []\<rparr>"

definition udpPeer :: "string \<Rightarrow> string \<Rightarrow> Router \<Rightarrow> nat option" where
  "udpPeer i addr r = (case map_of (ro_udpPeers r) i of Some c \<Rightarrow> Some c | None \<Rightarrow> map_of (ro_udpPeers r) addr)"

definition HasUDPPeer :: "(nat \<Rightarrow> bool) \<Rightarrow> string \<Rightarrow> Router \<Rightarrow> bool" where
  "HasUDPPeer failed i r = (case map_of (ro_udpPeers r) i of None \<Rightarrow> False | Some c \<Rightarrow> \<not> failed c)"

section \<open>Probes\<close>

text \<open>The outcome of one probe goroutine: the results of the TCP and the UDP probe. The UDP probe is
  skipped while the control is marked.\<close>

definition probe_node :: "time \<Rightarrow> (string \<times> time) list \<Rightarrow> int option \<times> int option \<Rightarrow> routerNode \<Rightarrow> routerNode" where
  "probe_node now udpFailed res n = (case fst res of
     Some rtt \<Rightarrow> n\<lparr>rn_RTT := rtt, rn_IsAlive := True, rn_LastSeen := now, rn_transport := transportTCP\<rparr>
   | None \<Rightarrow>
      if (case map_of udpFailed (rn_Addr n) of None \<Rightarrow> False | Some u \<Rightarrow> now < u)
      then n\<lparr>rn_IsAlive := False, rn_transport := transportTCP\<rparr>
      else (case snd res of
          Some rtt \<Rightarrow> n\<lparr>rn_RTT := rtt, rn_IsAlive := True, rn_LastSeen := now, rn_transport := transportUDP\<rparr>
        | None \<Rightarrow> n\<lparr>rn_IsAlive := False, rn_transport := transportTCP\<rparr>))"

definition ProbeDataPlane :: "time \<Rightarrow> (nat \<Rightarrow> int option \<times> int option) \<Rightarrow> Router \<Rightarrow> Router" where
  "ProbeDataPlane now res r =
     r\<lparr>ro_controls := map (\<lambda>(i, n). probe_node now (ro_udpDataFailed r) (res i) n) (enumerate 0 (ro_controls r))\<rparr>"

text \<open>The deprecated probe by TCP connect, for relays and controls.\<close>

definition measure_node :: "time \<Rightarrow> int option \<Rightarrow> routerNode \<Rightarrow> routerNode" where
  "measure_node now res n = (case res of
     None \<Rightarrow> n\<lparr>rn_IsAlive := False\<rparr>
   | Some rtt \<Rightarrow> n\<lparr>rn_RTT := rtt, rn_IsAlive := True, rn_LastSeen := now\<rparr>)"

definition MeasureRTTs :: "time \<Rightarrow> (nat \<Rightarrow> int option) \<Rightarrow> (nat \<Rightarrow> int option) \<Rightarrow> Router \<Rightarrow> Router" where
  "MeasureRTTs now rel con r =
     r\<lparr>ro_relays := map (\<lambda>(i, n). measure_node now (rel i) n) (enumerate 0 (ro_relays r)),
       ro_controls := map (\<lambda>(i, n). measure_node now (con i) n) (enumerate 0 (ro_controls r))\<rparr>"

text \<open>The verdict of a ping: decoded body (\<^term>\<open>None\<close> when the request or the decoding failed) with the
  reported round trip in nanoseconds, and the elapsed time.\<close>

definition probeControlPing :: "(bool \<times> int) option \<Rightarrow> int \<Rightarrow> int option" where
  "probeControlPing body elapsed = (case body of
     None \<Rightarrow> None
   | Some (ok, rtt) \<Rightarrow> if \<not> ok then None else if rtt > 0 then Some (elapsed + rtt) else Some elapsed)"

definition ProbeControlE2E :: "(bool \<times> int) option \<Rightarrow> int \<Rightarrow> int option" where
  "ProbeControlE2E body elapsed = (case body of
     None \<Rightarrow> None
   | Some (ok, rtt) \<Rightarrow> if \<not> ok then None else if rtt > 0 then Some (elapsed + rtt) else Some elapsed)"

section \<open>Flaps\<close>

definition RecordControlFlap :: "time \<Rightarrow> string \<Rightarrow> Router \<Rightarrow> Router" where
  "RecordControlFlap now addr r =
     (let prev = (case map_of (ro_flaps r) addr of None \<Rightarrow> [] | Some ts \<Rightarrow> ts);
          kept = filter (\<lambda>t. \<not> t < now - flapWindow) prev in
      r\<lparr>ro_flaps := AList.update addr (kept @ [now]) (ro_flaps r)\<rparr>)"

text \<open>The penalty in milliseconds.\<close>

definition flapPenaltyOf :: "time \<Rightarrow> string \<Rightarrow> Router \<Rightarrow> rat" where
  "flapPenaltyOf now addr r =
     (let count = length (filter (\<lambda>t. \<not> t < now - flapWindow) (case map_of (ro_flaps r) addr of None \<Rightarrow> [] | Some ts \<Rightarrow> ts));
          penalty = of_nat count * of_int (Milliseconds flapPenaltyPerEviction);
          cap = of_int (Milliseconds flapPenaltyCap) in
      if penalty > cap then cap else penalty)"

definition ControlRTT :: "time \<Rightarrow> string \<Rightarrow> Router \<Rightarrow> int" where
  "ControlRTT now addr r =
     (let (rtt, isUDP) = (case find (\<lambda>n. rn_Addr n = addr) (ro_controls r) of
            None \<Rightarrow> (0, False)
          | Some n \<Rightarrow> (rn_RTT n, rn_transport n = transportUDP)) in
      rtt + \<lfloor>flapPenaltyOf now addr r\<rfloor> * millisecond + (if isUDP then udpOnlyPenalty else 0))"

section \<open>Queries\<close>

definition AllControlAddrs :: "Router \<Rightarrow> string list" where "AllControlAddrs r = map rn_Addr (ro_controls r)"

definition ControlTransport :: "string \<Rightarrow> Router \<Rightarrow> controlTransport" where
  "ControlTransport addr r = (case find (\<lambda>n. rn_Addr n = addr) (ro_controls r) of
     None \<Rightarrow> transportTCP | Some n \<Rightarrow> rn_transport n)"

definition ControlTransportName :: "string \<Rightarrow> Router \<Rightarrow> string" where
  "ControlTransportName addr r = (if ControlTransport addr r = transportUDP then ''udp'' else ''tcp'')"

text \<open>\<open>NewControlDialer\<close>: the kind of dialer; \<open>dialed\<close> tells whether the UDP socket could be opened.\<close>

definition NewControlDialer :: "(string \<Rightarrow> bool) \<Rightarrow> string \<Rightarrow> Router \<Rightarrow> controlTransport option" where
  "NewControlDialer dialed addr r =
     (if ControlTransport addr r = transportUDP then (if dialed addr then Some transportUDP else None) else Some transportTCP)"

definition alive :: "time \<Rightarrow> Router \<Rightarrow> routerNode \<Rightarrow> bool" where
  "alive now r n \<longleftrightarrow> rn_IsAlive n \<and> \<not> now - rn_LastSeen n \<ge> 30 * second \<and>
     (case map_of (ro_dataDead r) (rn_Addr n) of None \<Rightarrow> True | Some ex \<Rightarrow> \<not> now < ex)"

definition UnreachableControls :: "time \<Rightarrow> Router \<Rightarrow> string list" where
  "UnreachableControls now r = map rn_Addr (filter (\<lambda>n. \<not> alive now r n) (ro_controls r))"

end
