(* ===== verification/Router_Paths.thy ===== *)
theory Router_Paths
  imports Router_State "HOL-Library.Multiset" "HOL-Library.Product_Lexorder"
begin

text \<open>
  Selection of paths in \<^verbatim>\<open>router.go\<close>: scores, \<open>BuildPaths\<close>, and the operations on the chosen paths.
  \<open>srt\<close> is \<^verbatim>\<open>sort.Slice\<close> on a key, \<open>shuf\<close> is \<^verbatim>\<open>rand.Shuffle\<close> and \<open>blend\<close> the
  rounded blend of two round-trip times; \<^verbatim>\<open>sort.SliceStable\<close> is the stable \<open>sort_key\<close> of the library.
\<close>

type_synonym node_sort = "(routerNode \<Rightarrow> rat) \<Rightarrow> routerNode list \<Rightarrow> routerNode list"
type_synonym path_shuffle = "RouterPath list \<Rightarrow> RouterPath list"

definition nodeScore :: "(int \<Rightarrow> int \<Rightarrow> int) \<Rightarrow> time \<Rightarrow> Router \<Rightarrow> routerNode \<Rightarrow> rat" where
  "nodeScore blend now r n =
     (let rtt = (if rn_TrafficRTT n > 0 \<and> rn_RTT n > 0 then blend (rn_RTT n) (rn_TrafficRTT n)
                 else if rn_TrafficRTT n > 0 then rn_TrafficRTT n else rn_RTT n) in
      of_int (Milliseconds rtt) + rn_Loss n * 100 + flapPenaltyOf now (rn_Addr n) r)"

definition instabilityPenalty :: "time \<Rightarrow> routerNode \<Rightarrow> rat" where
  "instabilityPenalty now n =
     (let since = now - rn_LastSeen n in if since > 15 * second then 100 else if since > 5 * second then 20 else 0)"

definition node_cost :: "time \<Rightarrow> routerNode option \<Rightarrow> rat" where
  "node_cost now m = (case m of
     None \<Rightarrow> 0
   | Some n \<Rightarrow> of_int (Milliseconds (rn_RTT n)) + rn_Loss n * 100 + instabilityPenalty now n)"

text \<open>\<open>scorePath\<close> sets the UDP connection of the first hop and returns the score.\<close>

definition scorePath :: "time \<Rightarrow> Router \<Rightarrow> routerNode list \<Rightarrow> routerNode list \<Rightarrow> RouterPath \<Rightarrow> RouterPath" where
  "scorePath now r controls live p =
     (let s = node_cost now (find (\<lambda>c. rn_Addr c = rp_ControlAddr p) controls)
            + sum_list (map (\<lambda>h. node_cost now (find (\<lambda>n. rn_ID n = pn_ID h) live) + 10) (rp_Relays p));
          uc = (case rp_Relays p of [] \<Rightarrow> None | h # hs \<Rightarrow> udpPeer (pn_ID h) (pn_Addr h) r) in
      p\<lparr>rp_Score := (if uc = None then s else s - 30), rp_UDPRelay := uc\<rparr>)"

section \<open>Candidates\<close>

text \<open>The controls paths may end in: the alive ones, split by country; then the filter by transport; then the
  supplement to three. \<open>country_split\<close> returns \<^verbatim>\<open>aliveControls\<close> and \<^verbatim>\<open>outOfCountry\<close> after the first filter.\<close>

definition country_split :: "time \<Rightarrow> Router \<Rightarrow> routerNode list \<times> routerNode list" where
  "country_split now r =
     (let aliveControls = filter (alive now r) (ro_controls r) in
      if ro_myCountry r = [] then (aliveControls, [])
      else
        let inCountry = filter (\<lambda>c. rn_CountryCode c = ro_myCountry r) aliveControls;
            outOfCountry = filter (\<lambda>c. rn_CountryCode c \<noteq> ro_myCountry r) aliveControls in
        if inCountry \<noteq> [] then (inCountry, outOfCountry) else (aliveControls, []))"

definition tcp_only :: "routerNode list \<Rightarrow> routerNode list" where
  "tcp_only cs = filter (\<lambda>c. rn_transport c = transportTCP) cs"

definition prefer_tcp :: "routerNode list \<Rightarrow> routerNode list" where
  "prefer_tcp cs = (if tcp_only cs \<noteq> [] then tcp_only cs else cs)"

definition eligible_controls :: "node_sort \<Rightarrow> (int \<Rightarrow> int \<Rightarrow> int) \<Rightarrow> time \<Rightarrow> Router \<Rightarrow> routerNode list" where
  "eligible_controls srt blend now r =
     (let (inC, out) = country_split now r;
          aliveControls = prefer_tcp inC;
          outOfCountry = tcp_only out in
      if aliveControls = [] then []
      else if length aliveControls < 3 \<and> outOfCountry \<noteq> []
      then aliveControls @ take (3 - length aliveControls) (srt (nodeScore blend now r) outOfCountry)
      else aliveControls)"

definition live_relays :: "node_sort \<Rightarrow> (int \<Rightarrow> int \<Rightarrow> int) \<Rightarrow> time \<Rightarrow> Router \<Rightarrow> routerNode list" where
  "live_relays srt blend now r =
     (let same = filter (\<lambda>n. alive now r n \<and> (ro_myCountry r = [] \<or> rn_CountryCode n = ro_myCountry r)) (ro_relays r);
          live = (if ro_myCountry r \<noteq> [] \<and> same = [] then filter (alive now r) (ro_relays r) else same) in
      take 20 (srt (nodeScore blend now r) live))"

definition hop :: "routerNode \<Rightarrow> RouterPathNode" where "hop n = \<lparr>pn_ID = rn_ID n, pn_Addr = rn_Addr n\<rparr>"

definition clash :: "routerNode \<Rightarrow> routerNode \<Rightarrow> bool" where
  "clash a b \<longleftrightarrow> rn_ID a = rn_ID b \<or> rn_OperatorID a = rn_OperatorID b"

text \<open>The relay sequences of the nested loops, in their order.\<close>

definition relay_chains :: "routerNode list \<Rightarrow> routerNode list list" where
  "relay_chains live =
     concat (map (\<lambda>r1. [r1] #
       concat (map (\<lambda>r2. if clash r2 r1 then [] else [r1, r2] #
         concat (map (\<lambda>r3. if clash r3 r1 \<or> clash r3 r2 then [] else [[r1, r2, r3]]) live)) live)) live)"

definition candidate_paths :: "routerNode list \<Rightarrow> routerNode list \<Rightarrow> RouterPath list" where
  "candidate_paths controls live =
     concat (map (\<lambda>c. map (\<lambda>ch. \<lparr>rp_Relays = map hop ch, rp_ControlAddr = rn_Addr c, rp_Score = 0, rp_UDPRelay = None\<rparr>)
       ([] # relay_chains live)) controls)"

text \<open>The order of the stable sort: relay paths first, then by score.\<close>

definition path_rank :: "RouterPath \<Rightarrow> bool \<times> rat" where "path_rank p = (IsDirect p, rp_Score p)"

definition scored_candidates :: "node_sort \<Rightarrow> (int \<Rightarrow> int \<Rightarrow> int) \<Rightarrow> time \<Rightarrow> Router \<Rightarrow> RouterPath list" where
  "scored_candidates srt blend now r =
     (let controls = eligible_controls srt blend now r; live = live_relays srt blend now r in
      map (scorePath now r controls live) (candidate_paths controls live))"

definition BuildPaths :: "node_sort \<Rightarrow> path_shuffle \<Rightarrow> (int \<Rightarrow> int \<Rightarrow> int) \<Rightarrow> time \<Rightarrow> Router \<Rightarrow> Router" where
  "BuildPaths srt shuf blend now r =
     (if eligible_controls srt blend now r = [] then r\<lparr>ro_paths := []\<rparr>
      else r\<lparr>ro_paths := shuf (take 5 (sort_key path_rank (scored_candidates srt blend now r))), ro_pathIdx := 0\<rparr>)"

section \<open>Using the paths\<close>

definition Primary :: "Router \<Rightarrow> RouterPath option option" where
  "Primary r = (if ro_paths r = [] then Some None else map_option Some (idx (ro_paths r) (ro_pathIdx r)))"

definition Advance :: "Router \<Rightarrow> bool \<times> Router" where
  "Advance r = (if ro_pathIdx r + 1 < length (ro_paths r) then (True, r\<lparr>ro_pathIdx := ro_pathIdx r + 1\<rparr>)
     else (False, r\<lparr>ro_pathIdx := 0\<rparr>))"

definition router_Reset :: "Router \<Rightarrow> Router" where "router_Reset r = r\<lparr>ro_pathIdx := 0\<rparr>"

text \<open>\<open>PickRandom\<close> with the number \<open>k\<close> drawn by \<^verbatim>\<open>rand.Intn\<close>.\<close>

definition PickRandom :: "nat \<Rightarrow> Router \<Rightarrow> RouterPath option option" where
  "PickRandom k r = (if ro_paths r = [] then Some None else map_option Some (idx (ro_paths r) k))"

definition best_score_of :: "string \<Rightarrow> RouterPath list \<Rightarrow> rat option" where
  "best_score_of addr ps = foldl (\<lambda>best p. if rp_ControlAddr p = addr \<and> (case best of None \<Rightarrow> True | Some b \<Rightarrow> rp_Score p < b)
     then Some (rp_Score p) else best) None ps"

definition PrimaryIsBetter :: "string \<Rightarrow> rat \<Rightarrow> Router \<Rightarrow> (bool \<times> RouterPath option) option" where
  "PrimaryIsBetter currentAddr factor r =
     (if ro_paths r = [] then Some (False, None)
      else do {
        p \<leftarrow> idx (ro_paths r) (ro_pathIdx r);
        let norm = normaliseAddr currentAddr;
        if rp_ControlAddr p = norm then Some (False, None)
        else (case best_score_of norm (ro_paths r) of
            None \<Rightarrow> Some (True, Some p)
          | Some b \<Rightarrow> Some (rp_Score p * factor \<le> b, Some p))
      })"

definition router_Paths :: "Router \<Rightarrow> RouterPath list" where "router_Paths r = ro_paths r"

fun unique_addrs :: "string list \<Rightarrow> RouterPath list \<Rightarrow> string list" where
  "unique_addrs seen [] = []"
| "unique_addrs seen (p # ps) =
     (if rp_ControlAddr p \<in> set seen then unique_addrs seen ps
      else rp_ControlAddr p # unique_addrs (rp_ControlAddr p # seen) ps)"

definition QualifyingControlAddrs :: "Router \<Rightarrow> string list" where "QualifyingControlAddrs r = unique_addrs [] (ro_paths r)"


section \<open>Contracts of the library functions\<close>

definition slice_sort :: "node_sort \<Rightarrow> bool" where
  "slice_sort srt \<longleftrightarrow> (\<forall>f xs. mset (srt f xs) = mset xs \<and> sorted (map f (srt f xs)))"

definition shuffles :: "path_shuffle \<Rightarrow> bool" where "shuffles shuf \<longleftrightarrow> (\<forall>xs. mset (shuf xs) = mset xs)"

section \<open>What \<open>BuildPaths\<close> promises\<close>

text \<open>A control a path may end in: alive; over UDP only when it is in the client's country and every
  control reachable over TCP is abroad; abroad, while a control of the client's country is alive, only
  when fewer than three of those are reachable over TCP, and then over TCP.\<close>

definition control_sound :: "time \<Rightarrow> Router \<Rightarrow> routerNode \<Rightarrow> bool" where
  "control_sound now r c \<longleftrightarrow> c \<in> set (ro_controls r) \<and> alive now r c \<and>
     (rn_transport c = transportUDP \<longrightarrow> (\<forall>d \<in> set (ro_controls r). alive now r d \<and> rn_transport d = transportTCP \<longrightarrow>
        ro_myCountry r \<noteq> [] \<and> rn_CountryCode c = ro_myCountry r \<and> rn_CountryCode d \<noteq> ro_myCountry r)) \<and>
     (ro_myCountry r \<noteq> [] \<and> rn_CountryCode c \<noteq> ro_myCountry r \<and>
        (\<exists>d \<in> set (ro_controls r). alive now r d \<and> rn_CountryCode d = ro_myCountry r) \<longrightarrow>
      rn_transport c = transportTCP \<and>
      length (filter (\<lambda>d. alive now r d \<and> rn_CountryCode d = ro_myCountry r \<and> rn_transport d = transportTCP) (ro_controls r)) < 3)"

text \<open>A relay a path may use: alive, and of the client's country unless no such relay is alive.\<close>

definition relay_sound :: "time \<Rightarrow> Router \<Rightarrow> routerNode \<Rightarrow> bool" where
  "relay_sound now r n \<longleftrightarrow> n \<in> set (ro_relays r) \<and> alive now r n \<and>
     (ro_myCountry r = [] \<or> rn_CountryCode n = ro_myCountry r \<or>
      (\<forall>m \<in> set (ro_relays r). alive now r m \<longrightarrow> rn_CountryCode m \<noteq> ro_myCountry r))"

definition chain_ok :: "routerNode list \<Rightarrow> bool" where
  "chain_ok ch \<longleftrightarrow> length ch \<le> 3 \<and> distinct (map rn_ID ch) \<and> distinct (map rn_OperatorID ch)"

definition path_sound :: "time \<Rightarrow> Router \<Rightarrow> RouterPath \<Rightarrow> bool" where
  "path_sound now r p \<longleftrightarrow> (\<exists>c. control_sound now r c \<and> rp_ControlAddr p = rn_Addr c) \<and>
     (\<exists>ch. rp_Relays p = map hop ch \<and> chain_ok ch \<and> (\<forall>n \<in> set ch. relay_sound now r n))"

lemma slice_sort_set: "slice_sort srt \<Longrightarrow> set (srt f xs) = set xs"
  by (rule mset_eq_setD) (simp add: slice_sort_def)

lemma transportUDP_iff: "t = transportUDP \<longleftrightarrow> t \<noteq> transportTCP"
  by (cases t) auto

lemma prefer_tcp_empty [simp]: "prefer_tcp cs = [] \<longleftrightarrow> cs = []"
  by (auto simp: prefer_tcp_def tcp_only_def)

lemma prefer_tcp_set: "c \<in> set (prefer_tcp cs) \<Longrightarrow>
    c \<in> set cs \<and> (rn_transport c = transportTCP \<or> (\<forall>d \<in> set cs. rn_transport d \<noteq> transportTCP))"
  by (auto simp: prefer_tcp_def tcp_only_def filter_empty_conv split: if_splits)

lemma prefer_tcp_length: "length (tcp_only cs) \<le> length (prefer_tcp cs)"
  by (simp add: prefer_tcp_def)

lemma country_split_cases:
  obtains (all) "country_split now r = (filter (alive now r) (ro_controls r), [])"
      and "ro_myCountry r = [] \<or> (\<forall>d \<in> set (ro_controls r). alive now r d \<longrightarrow> rn_CountryCode d \<noteq> ro_myCountry r)"
  | (split) "country_split now r = (filter (\<lambda>c. rn_CountryCode c = ro_myCountry r) (filter (alive now r) (ro_controls r)),
        filter (\<lambda>c. rn_CountryCode c \<noteq> ro_myCountry r) (filter (alive now r) (ro_controls r)))"
      and "ro_myCountry r \<noteq> []" and "filter (\<lambda>c. rn_CountryCode c = ro_myCountry r) (filter (alive now r) (ro_controls r)) \<noteq> []"
proof (cases "ro_myCountry r = [] \<or> filter (\<lambda>c. rn_CountryCode c = ro_myCountry r) (filter (alive now r) (ro_controls r)) = []")
  case True
  show ?thesis by (rule all) (use True in \<open>auto simp: country_split_def Let_def filter_empty_conv\<close>)
next
  case False
  show ?thesis by (rule split) (use False in \<open>simp_all add: country_split_def Let_def\<close>)
qed

lemma eligible_cases:
  assumes "slice_sort srt" and "country_split now r = (inC, out)" and "c \<in> set (eligible_controls srt blend now r)"
  shows "c \<in> set (prefer_tcp inC) \<or> (c \<in> set (tcp_only out) \<and> length (prefer_tcp inC) < 3)"
  using assms(2,3) slice_sort_set [OF assms(1)]
  by (auto simp: eligible_controls_def Let_def split: if_splits dest!: in_set_takeD)

lemma eligible_sound:
  assumes srt: "slice_sort srt" and c: "c \<in> set (eligible_controls srt blend now r)"
  shows "control_sound now r c"
proof (cases rule: country_split_cases [of now r])
  case all
  show ?thesis
    using prefer_tcp_set eligible_cases [OF srt all(1) c] all(2)
    by (fastforce simp: control_sound_def tcp_only_def transportUDP_iff)
next
  case split
  let ?inC = "filter (\<lambda>c. rn_CountryCode c = ro_myCountry r) (filter (alive now r) (ro_controls r))"
  have tcp: "filter (\<lambda>d. alive now r d \<and> rn_CountryCode d = ro_myCountry r \<and> rn_transport d = transportTCP) (ro_controls r)
      = tcp_only ?inC"
    by (simp add: tcp_only_def conj_commute conj_left_commute)
  from eligible_cases [OF srt split(1) c] show ?thesis
  proof
    assume "c \<in> set (prefer_tcp ?inC)"
    from prefer_tcp_set [OF this] show ?thesis
      using split(2) by (auto simp: control_sound_def transportUDP_iff)
  next
    assume "c \<in> set (tcp_only (filter (\<lambda>c. rn_CountryCode c \<noteq> ro_myCountry r) (filter (alive now r) (ro_controls r)))) \<and>
      length (prefer_tcp ?inC) < 3"
    then show ?thesis
      using prefer_tcp_length [of ?inC] unfolding control_sound_def tcp by (simp add: tcp_only_def transportUDP_iff)
  qed
qed

lemma eligible_empty:
  "eligible_controls srt blend now r = [] \<longleftrightarrow> (\<forall>c \<in> set (ro_controls r). \<not> alive now r c)"
proof -
  have "eligible_controls srt blend now r = [] \<longleftrightarrow> fst (country_split now r) = []"
    by (simp add: eligible_controls_def Let_def split_beta)
  then show ?thesis
    by (cases rule: country_split_cases [of now r]) (auto simp: filter_empty_conv)
qed

lemma live_sound: "slice_sort srt \<Longrightarrow> n \<in> set (live_relays srt blend now r) \<Longrightarrow> relay_sound now r n"
  by (auto simp: live_relays_def relay_sound_def Let_def slice_sort_set filter_empty_conv split: if_splits dest!: in_set_takeD)

lemma relay_chains_sound: "ch \<in> set (relay_chains live) \<Longrightarrow> ch \<noteq> [] \<and> set ch \<subseteq> set live \<and> chain_ok ch"
  by (auto simp: relay_chains_def chain_ok_def clash_def split: if_splits)

lemma scorePath_keeps [simp]:
  "rp_Relays (scorePath now r cs live p) = rp_Relays p" "rp_ControlAddr (scorePath now r cs live p) = rp_ControlAddr p"
  by (simp_all add: scorePath_def Let_def)

lemma candidates_sound:
  assumes "slice_sort srt" and "p \<in> set (scored_candidates srt blend now r)"
  shows "path_sound now r p"
proof -
  obtain c ch where c: "c \<in> set (eligible_controls srt blend now r)" and ad: "rp_ControlAddr p = rn_Addr c"
      and rel: "rp_Relays p = map hop ch" and ch: "ch = [] \<or> ch \<in> set (relay_chains (live_relays srt blend now r))"
    using assms(2) by (auto simp: scored_candidates_def candidate_paths_def Let_def)
  have "chain_ok ch \<and> set ch \<subseteq> set (live_relays srt blend now r)"
    using ch relay_chains_sound by (auto simp: chain_ok_def)
  then show ?thesis
    using eligible_sound [OF assms(1) c] live_sound [OF assms(1)] ad rel unfolding path_sound_def by blast
qed

lemma take_sort_key_best:
  assumes "p \<in> set (take n (sort_key f xs))" and "q \<in> set (drop n (sort_key f xs))"
  shows "f p \<le> f q"
proof -
  have "sorted (map f (take n (sort_key f xs)) @ map f (drop n (sort_key f xs)))"
    by (simp flip: map_append)
  then show ?thesis using assms by (auto simp: sorted_append)
qed

lemma candidates_empty:
  "scored_candidates srt blend now r = [] \<longleftrightarrow> eligible_controls srt blend now r = []"
  by (cases "eligible_controls srt blend now r") (auto simp: scored_candidates_def candidate_paths_def Let_def)

text \<open>The chosen paths are a selection of the candidates, in some order.\<close>

lemma BuildPaths_mset:
  assumes "shuffles shuf"
  shows "mset (ro_paths (BuildPaths srt shuf blend now r)) = mset (take 5 (sort_key path_rank (scored_candidates srt blend now r)))"
  using assms candidates_empty [of srt blend now r] by (auto simp: BuildPaths_def shuffles_def)

text \<open>Property C10. \<open>BuildPaths\<close>, with \<^verbatim>\<open>sort.Slice\<close> returning a sorted permutation and \<^verbatim>\<open>rand.Shuffle\<close> a
  permutation: it leaves no path exactly when no control is alive; it keeps at most five paths; each path
  ends in an alive control that obeys the country and the transport policy, through at most three alive
  relays of different ids and operators that obey the country policy; and the chosen paths are the best
  of all the scored candidates, relay paths before direct ones and then by score.\<close>

theorem BuildPaths_selects:
  assumes "slice_sort srt" and "shuffles shuf"
  shows "(ro_paths (BuildPaths srt shuf blend now r) = [] \<longleftrightarrow> (\<forall>c \<in> set (ro_controls r). \<not> alive now r c)) \<and>
    length (ro_paths (BuildPaths srt shuf blend now r)) \<le> 5 \<and>
    (\<forall>p \<in> set (ro_paths (BuildPaths srt shuf blend now r)). path_sound now r p) \<and>
    (\<exists>rest. mset (ro_paths (BuildPaths srt shuf blend now r)) + mset rest = mset (scored_candidates srt blend now r) \<and>
       (\<forall>p \<in> set (ro_paths (BuildPaths srt shuf blend now r)). \<forall>q \<in> set rest. path_rank p \<le> path_rank q))"
proof -
  let ?ps = "ro_paths (BuildPaths srt shuf blend now r)" and ?s = "sort_key path_rank (scored_candidates srt blend now r)"
  have m: "mset ?ps = mset (take 5 ?s)" by (rule BuildPaths_mset [OF assms(2)])
  have st: "set ?ps = set (take 5 ?s)" using m by (rule mset_eq_setD)
  have len: "length ?ps = length (take 5 ?s)" using m by (rule mset_eq_length)
  have "?ps = [] \<longleftrightarrow> scored_candidates srt blend now r = []"
    using len by (cases "scored_candidates srt blend now r") (auto simp flip: length_0_conv)
  moreover have "path_sound now r p" if "p \<in> set ?ps" for p
    using candidates_sound [OF assms(1)] that st by (auto dest: in_set_takeD)
  moreover have "mset ?ps + mset (drop 5 ?s) = mset (scored_candidates srt blend now r)"
    unfolding m by (metis append_take_drop_id mset_append mset_sort)
  moreover have "path_rank p \<le> path_rank q" if "p \<in> set ?ps" and "q \<in> set (drop 5 ?s)" for p q
    using that(1) unfolding st by (rule take_sort_key_best) (rule that(2))
  ultimately show ?thesis using len eligible_empty candidates_empty by (simp, blast)
qed


definition sample_router :: Router where
  "sample_router = UpdateRelays 0 [(''n1'', ''a:1'', ''X''), (''n2'', ''b:1'', ''Y'')]
     (SetControlsWithRegions 0 [''c:1'', ''d:1''] [(''c:1'', ''X''), (''d:1'', ''Y'')] (SetMyCountry ''X'' NewRouter))"

lemma sort_key_slice_sort: "slice_sort (\<lambda>f. sort_key f)"
  by (simp add: slice_sort_def)

lemma rev_shuffles: "shuffles rev"
  by (simp add: shuffles_def)

lemma sample_paths:
  "map (\<lambda>p. (map pn_ID (rp_Relays p), rp_ControlAddr p))
     (ro_paths (BuildPaths (\<lambda>f. sort_key f) rev (\<lambda>a b. b) 1 sample_router))
   = [([], ''d:1''), ([], ''c:1''), ([''n1''], ''d:1''), ([''n1''], ''c:1'')]"
  by code_simp

theorem BuildPaths_selects_witness:
  "slice_sort (\<lambda>f. sort_key f) \<and> shuffles rev \<and>
   map (\<lambda>p. (map pn_ID (rp_Relays p), rp_ControlAddr p))
     (ro_paths (BuildPaths (\<lambda>f. sort_key f) rev (\<lambda>a b. b) 1 sample_router))
   = [([], ''d:1''), ([], ''c:1''), ([''n1''], ''d:1''), ([''n1''], ''c:1'')] \<and>
   list_all (path_sound 1 sample_router) (ro_paths (BuildPaths (\<lambda>f. sort_key f) rev (\<lambda>a b. b) 1 sample_router))"
  using BuildPaths_selects [OF sort_key_slice_sort rev_shuffles, of "\<lambda>a b. b" 1 sample_router]
    sort_key_slice_sort rev_shuffles sample_paths
  unfolding list_all_iff by blast

section \<open>The router over time\<close>

text \<open>The calls that change a router, apart from those that set its list of controls. The UDP connection that
  is registered is a new one.\<close>

inductive router_op :: "node_sort \<Rightarrow> path_shuffle \<Rightarrow> (int \<Rightarrow> int \<Rightarrow> int) \<Rightarrow> Router \<Rightarrow> Router \<Rightarrow> bool"
  for srt shuf blend where
  ro_op_self: "router_op srt shuf blend r (SetSelfNodeID i r)"
| ro_op_country: "router_op srt shuf blend r (SetMyCountry cc r)"
| ro_op_relays: "router_op srt shuf blend r (UpdateRelays now es r)"
| ro_op_merge: "router_op srt shuf blend r (MergeDHTRelays now es r)"
| ro_op_dead: "router_op srt shuf blend r (MarkControlDataDead addr till r)"
| ro_op_alive: "router_op srt shuf blend r (MarkControlAlive now addr r)"
| ro_op_relay_alive: "router_op srt shuf blend r (MarkRelayAlive now i r)"
| ro_op_udp_failed: "router_op srt shuf blend r (MarkUDPDataFailed now addr r)"
| ro_op_rtt: "router_op srt shuf blend r (UpdateControlRTT addr rtt r)"
| ro_op_traffic: "router_op srt shuf blend r (UpdateTrafficRTT addr rtt r)"
| ro_op_register: "conn \<notin> set (map snd (ro_udpPeers r)) \<union> set (ro_closed r) \<Longrightarrow>
    router_op srt shuf blend r (RegisterUDPPeer key conn r)"
| ro_op_remove: "router_op srt shuf blend r (RemoveUDPPeer key r)"
| ro_op_close: "router_op srt shuf blend r (CloseAllUDPPeers r)"
| ro_op_probe: "router_op srt shuf blend r (ProbeDataPlane now res r)"
| ro_op_measure: "router_op srt shuf blend r (MeasureRTTs now rel con r)"
| ro_op_flap: "router_op srt shuf blend r (RecordControlFlap now addr r)"
| ro_op_build: "router_op srt shuf blend r (BuildPaths srt shuf blend now r)"
| ro_op_advance: "router_op srt shuf blend r (snd (Advance r))"
| ro_op_reset: "router_op srt shuf blend r (router_Reset r)"

inductive router_step :: "node_sort \<Rightarrow> path_shuffle \<Rightarrow> (int \<Rightarrow> int \<Rightarrow> int) \<Rightarrow> Router \<Rightarrow> Router \<Rightarrow> bool"
  for srt shuf blend where
  rs_op: "router_op srt shuf blend r r' \<Longrightarrow> router_step srt shuf blend r r'"
| rs_controls: "router_step srt shuf blend r (SetControls now addrs r)"
| rs_control: "router_step srt shuf blend r (SetControl now addr r)"
| rs_regions: "router_step srt shuf blend r (SetControlsWithRegions now addrs regions r)"

text \<open>The path index is in range, at most five paths are kept, and no registered UDP connection is closed.\<close>

definition index_ok :: "Router \<Rightarrow> bool" where
  "index_ok r \<longleftrightarrow> (ro_paths r = [] \<or> ro_pathIdx r < length (ro_paths r)) \<and> length (ro_paths r) \<le> 5"

definition peers_open :: "Router \<Rightarrow> bool" where
  "peers_open r \<longleftrightarrow> (\<forall>k c. map_of (ro_udpPeers r) k = Some c \<longrightarrow> c \<notin> set (ro_closed r)) \<and>
     (\<forall>k l c. map_of (ro_udpPeers r) k = Some c \<and> map_of (ro_udpPeers r) l = Some c \<longrightarrow> k = l)"

lemmas router_ops = SetSelfNodeID_def SetMyCountry_def SetControls_def SetControl_def SetControlsWithRegions_def
  UpdateRelays_def MergeDHTRelays_def MarkControlDataDead_def MarkControlAlive_def MarkRelayAlive_def MarkUDPDataFailed_def
  UpdateControlRTT_def UpdateTrafficRTT_def ProbeDataPlane_def MeasureRTTs_def RecordControlFlap_def router_Reset_def
  Advance_def Let_def

lemma BuildPaths_index:
  assumes "shuffles shuf"
  shows "index_ok (BuildPaths srt shuf blend now r)"
proof -
  have "length (ro_paths (BuildPaths srt shuf blend now r)) \<le> 5"
    using mset_eq_length [OF BuildPaths_mset [OF assms, of srt blend now r]] by simp
  then show ?thesis by (auto simp: index_ok_def BuildPaths_def)
qed

lemma RegisterUDPPeer_open:
  assumes "peers_open r" and "conn \<notin> set (map snd (ro_udpPeers r)) \<union> set (ro_closed r)"
  shows "peers_open (RegisterUDPPeer key conn r)"
proof -
  have "map_of (ro_udpPeers r) k \<noteq> Some conn" for k
    using assms(2) by (force dest: map_of_SomeD)
  then show ?thesis
    using assms by (auto simp: peers_open_def RegisterUDPPeer_def update_conv' split: option.splits)
qed

lemma RemoveUDPPeer_open: "peers_open r \<Longrightarrow> peers_open (RemoveUDPPeer key r)"
  by (auto simp: peers_open_def RemoveUDPPeer_def delete_conv' split: option.splits)

lemma router_op_index: "router_op srt shuf blend r r' \<Longrightarrow> shuffles shuf \<Longrightarrow> index_ok r \<Longrightarrow> index_ok r'"
  by (induction rule: router_op.induct)
    (auto simp: BuildPaths_index, auto simp: index_ok_def router_ops RegisterUDPPeer_def RemoveUDPPeer_def
      CloseAllUDPPeers_def split: option.splits)

lemma router_op_peers: "router_op srt shuf blend r r' \<Longrightarrow> peers_open r \<Longrightarrow> peers_open r'"
  by (induction rule: router_op.induct)
    (auto simp: RegisterUDPPeer_open RemoveUDPPeer_open, auto simp: peers_open_def router_ops CloseAllUDPPeers_def BuildPaths_def)

lemma router_step_index: "router_step srt shuf blend r r' \<Longrightarrow> shuffles shuf \<Longrightarrow> index_ok r \<Longrightarrow> index_ok r'"
  by (induction rule: router_step.induct) (auto simp: router_op_index, auto simp: index_ok_def router_ops)

lemma router_step_peers: "router_step srt shuf blend r r' \<Longrightarrow> peers_open r \<Longrightarrow> peers_open r'"
  by (induction rule: router_step.induct) (auto simp: router_op_peers, auto simp: peers_open_def router_ops)

text \<open>These calls keep the addresses of the controls, and the paths too unless they are built anew.\<close>

lemma map_update_first: "(\<And>x. g (f x) = g x) \<Longrightarrow> map g (update_first P f xs) = map g xs"
  by (induction xs) auto

lemma map_enumerate_same: "(\<And>i x. g (f i x) = g x) \<Longrightarrow> map (\<lambda>p. g (case p of (i, x) \<Rightarrow> f i x)) (enumerate n xs) = map g xs"
  by (induction xs arbitrary: n) (auto simp: comp_def)

lemma probe_node_addr [simp]: "rn_Addr (probe_node now u res n) = rn_Addr n"
  by (simp add: probe_node_def split: option.splits)

lemma measure_node_addr [simp]: "rn_Addr (measure_node now res n) = rn_Addr n"
  by (simp add: measure_node_def split: option.splits)

lemma router_op_addrs: "router_op srt shuf blend r r' \<Longrightarrow> AllControlAddrs r' = AllControlAddrs r"
  by (induction rule: router_op.induct)
    (auto simp: AllControlAddrs_def router_ops RegisterUDPPeer_def RemoveUDPPeer_def CloseAllUDPPeers_def BuildPaths_def
      map_update_first map_enumerate_same comp_def split: option.splits)

lemma router_op_paths:
  "router_op srt shuf blend r r' \<Longrightarrow> ro_paths r' = ro_paths r \<or> (\<exists>now. r' = BuildPaths srt shuf blend now r)"
  by (induction rule: router_op.induct)
    (auto simp: router_ops RegisterUDPPeer_def RemoveUDPPeer_def CloseAllUDPPeers_def split: option.splits)

lemma BuildPaths_controls:
  assumes "slice_sort srt" and "shuffles shuf" and "p \<in> set (ro_paths (BuildPaths srt shuf blend now r))"
  shows "rp_ControlAddr p \<in> set (AllControlAddrs r)"
proof -
  have "p \<in> set (scored_candidates srt blend now r)"
    using assms(3) mset_eq_setD [OF BuildPaths_mset [OF assms(2), of srt blend now r]] by (auto dest: in_set_takeD)
  from candidates_sound [OF assms(1) this] show ?thesis
    by (auto simp: path_sound_def control_sound_def AllControlAddrs_def)
qed

lemma unique_addrs_sound: "distinct (unique_addrs seen ps) \<and> set (unique_addrs seen ps) = rp_ControlAddr ` set ps - set seen"
  by (induction seen ps rule: unique_addrs.induct) auto

lemma Advance_keeps [simp]: "ro_paths (snd (Advance r)) = ro_paths r"
  by (simp add: Advance_def)

lemma Advance_pathIdx:
  "ro_pathIdx (snd (Advance r)) = (if Suc (ro_pathIdx r) < length (ro_paths r) then Suc (ro_pathIdx r) else 0)"
  by (simp add: Advance_def)

lemma Advance_iterates:
  assumes "ro_paths r \<noteq> []"
  shows "ro_paths (((snd \<circ> Advance) ^^ k) (router_Reset r)) = ro_paths r \<and>
    ro_pathIdx (((snd \<circ> Advance) ^^ k) (router_Reset r)) = k mod length (ro_paths r)"
proof (induction k)
  case 0
  show ?case by (simp add: router_Reset_def)
next
  case (Suc k)
  have "k mod length (ro_paths r) < length (ro_paths r)" using assms by simp
  then have "\<not> Suc (k mod length (ro_paths r)) < length (ro_paths r) \<longleftrightarrow> Suc (k mod length (ro_paths r)) = length (ro_paths r)"
    by linarith
  then show ?case using Suc.IH by (simp add: Advance_pathIdx mod_Suc)
qed

text \<open>What every reachable router satisfies.\<close>

lemma router_run_inv:
  assumes "(router_step srt shuf blend)\<^sup>*\<^sup>* NewRouter r" and "shuffles shuf"
  shows "index_ok r \<and> peers_open r"
  using assms(1)
proof (induction rule: rtranclp_induct)
  case base
  show ?case by (simp add: index_ok_def peers_open_def NewRouter_def)
next
  case (step r r')
  then show ?case using router_step_index [OF _ assms(2)] router_step_peers by blast
qed


lemma sample_run:
  "(router_step (\<lambda>f. sort_key f) rev (\<lambda>a b. b))\<^sup>*\<^sup>* NewRouter
     (BuildPaths (\<lambda>f. sort_key f) rev (\<lambda>a b. b) 1 (RegisterUDPPeer ''n1'' 7 sample_router))"
proof -
  let ?S = "router_step (\<lambda>f. sort_key f) rev (\<lambda>a b. b)"
  have "?S\<^sup>*\<^sup>* NewRouter sample_router"
    unfolding sample_router_def
    by (meson rtranclp.rtrancl_refl rtranclp.rtrancl_into_rtrancl rs_op ro_op_country rs_regions ro_op_relays)
  moreover have "?S sample_router (RegisterUDPPeer ''n1'' 7 sample_router)"
    by (rule rs_op, rule ro_op_register) (simp add: sample_router_def UpdateRelays_def SetControlsWithRegions_def SetMyCountry_def NewRouter_def)
  ultimately show ?thesis using rs_op [OF ro_op_build] by (meson rtranclp.rtrancl_into_rtrancl)
qed


end
