(* ===== verification/Discovery.thy ===== *)
theory Discovery
  imports Complex_Main Tunnel_Auth "HOL-Library.Sublist"
begin

text \<open>
  The discoverer of \<^verbatim>\<open>discovery.go\<close>: it learns the control nodes from manifests signed by the arbiter,
  which it fetches from the known controls, gets injected from gossip, or reads from its cache file.
  JSON coding, \<^verbatim>\<open>ed25519.Verify\<close>, the platform's encryption of files and whether the file system
  accepts a write are a record of parameters; \<open>http\<close> answers the i-th request of a round, and
  \<open>shuf\<close> is \<^verbatim>\<open>rand.Shuffle\<close>. The content of the cache file is part of the state, and so are the
  calls made to the callbacks, newest first. A \<^verbatim>\<open>nil\<close> map of regions is \<^term>\<open>None\<close>; other maps are
  association lists. An index out of range is the outer \<^term>\<open>None\<close>.
\<close>

record manifestNode =
  mn_Addr :: string
  mn_Fingerprint :: string
  mn_RTTms :: rat
  mn_Load :: rat
  mn_DataPlaneOK :: "bool option"

record Notification =
  no_ID :: string
  no_Message :: string
  no_CreatedAt :: int

record signedManifest =
  sm_Type :: string
  sm_TS :: int
  sm_Nodes :: "manifestNode list"
  sm_Sig :: string
  sm_Regions :: "(string \<times> string) list option"
  sm_Notifications :: "Notification list"
  sm_NodeSNIs :: "(string \<times> string list) list"
  sm_Excluded :: "string list"
  sm_NodeAltUDPPorts :: "(string \<times> int list) list"

record disc_env =
  de_unmarshal :: "bytes \<Rightarrow> signedManifest option"
  de_ts :: "bytes \<Rightarrow> int"
  de_marshal :: "string \<Rightarrow> int \<Rightarrow> manifestNode list \<Rightarrow> bytes"
  de_verify :: "bytes \<Rightarrow> bytes \<Rightarrow> bytes \<Rightarrow> bool"
  de_encrypt :: "bytes \<Rightarrow> bytes option"
  de_decrypt :: "bytes \<Rightarrow> bytes option"
  de_writable :: bool

text \<open>The calls of the callbacks \<^verbatim>\<open>onChange\<close>, \<^verbatim>\<open>onNotifications\<close> and \<^verbatim>\<open>onFetch\<close>.\<close>

datatype disc_event = OnChange "string list" | OnNotifications "Notification list" | OnFetch bytes int

record Discoverer =
  di_pubkey :: "bytes option"
  di_cacheFile :: string
  di_serverURLs :: "string list"
  di_controls :: "string list"
  di_regions :: "(string \<times> string) list option"
  di_nodeSNIs :: "(string \<times> string list) list"
  di_nodeAltUDPPorts :: "(string \<times> int list) list"
  di_notifications :: "Notification list"
  di_onChange :: bool
  di_onFetch :: bool
  di_onNotifications :: bool
  di_manifestSource :: nat
  di_done :: bool
  di_disk :: "bytes option"
  di_events :: "disc_event list"

definition zeroDiscoverer :: Discoverer where
  "zeroDiscoverer = \<lparr>di_pubkey = None, di_cacheFile = [], di_serverURLs = [], di_controls = [], di_regions = None,
     di_nodeSNIs = [], di_nodeAltUDPPorts = [], di_notifications = [], di_onChange = False, di_onFetch = False,
     di_onNotifications = False, di_manifestSource = 0, di_done = False, di_disk = None, di_events = []\<rparr>"

definition NewDiscoverer :: "string \<Rightarrow> string \<Rightarrow> string \<Rightarrow> bool \<Rightarrow> bytes option \<Rightarrow> Discoverer option" where
  "NewDiscoverer serverURL pubkeyHex cacheFile onChange disk =
     (let d = zeroDiscoverer\<lparr>di_serverURLs := [trim_slashes serverURL], di_cacheFile := cacheFile,
                di_onChange := onChange, di_disk := disk\<rparr> in
      if pubkeyHex \<noteq> [] then
        (case hex_decode pubkeyHex of
           None \<Rightarrow> None
         | Some b \<Rightarrow> if length b \<noteq> 32 then None else Some (d\<lparr>di_pubkey := Some b\<rparr>))
      else Some d)"

section \<open>Manifests\<close>

datatype disc_error = DParse | DType | DSignature | DNoControls

definition sig_ok :: "disc_env \<Rightarrow> bytes \<Rightarrow> signedManifest \<Rightarrow> bool" where
  "sig_ok env k m = (case base64_decode (sm_Sig m) of
     None \<Rightarrow> False
   | Some sig \<Rightarrow> de_verify env k (de_marshal env (sm_Type m) (sm_TS m) (sm_Nodes m)) sig)"

definition manifest_controls :: "signedManifest \<Rightarrow> string list" where
  "manifest_controls m = filter (\<lambda>a. a \<noteq> [] \<and> a \<notin> set (sm_Excluded m)) (map mn_Addr (sm_Nodes m))"

text \<open>The result of \<open>verify\<close> is the manifest; the code returns \<open>manifest_controls\<close> and the advisory fields.\<close>

definition disc_verify :: "disc_env \<Rightarrow> Discoverer \<Rightarrow> bytes \<Rightarrow> disc_error + signedManifest" where
  "disc_verify env d data = (case de_unmarshal env data of
     None \<Rightarrow> Inl DParse
   | Some m \<Rightarrow>
      if sm_Type m \<noteq> ''manifest'' then Inl DType
      else if (case di_pubkey d of None \<Rightarrow> False | Some k \<Rightarrow> \<not> sig_ok env k m) then Inl DSignature
      else if manifest_controls m = [] then Inl DNoControls
      else Inr m)"

fun stringSliceEqual :: "string list \<Rightarrow> string list \<Rightarrow> bool" where
  "stringSliceEqual [] [] = True"
| "stringSliceEqual (a # as) (b # bs) = (a = b \<and> stringSliceEqual as bs)"
| "stringSliceEqual _ _ = False"

definition control_url :: "string \<Rightarrow> string" where
  "control_url a = (if prefix ''http'' a then a else ''https://'' @ a)"

definition setControls :: "signedManifest \<Rightarrow> Discoverer \<Rightarrow> Discoverer" where
  "setControls m d =
     (let addrs = manifest_controls m;
          changed = (\<not> stringSliceEqual (di_controls d) addrs);
          urls = map control_url addrs;
          ev1 = (if changed \<and> di_onChange d then [OnChange addrs] else []);
          ev2 = (if sm_Notifications m \<noteq> [] \<and> di_onNotifications d then [OnNotifications (sm_Notifications m)] else []) in
      d\<lparr>di_controls := addrs, di_regions := sm_Regions m, di_notifications := sm_Notifications m,
        di_nodeSNIs := sm_NodeSNIs m, di_nodeAltUDPPorts := sm_NodeAltUDPPorts m,
        di_serverURLs := (if urls \<noteq> [] then urls else di_serverURLs d), di_events := ev2 @ ev1 @ di_events d\<rparr>)"

definition disc_persist :: "disc_env \<Rightarrow> bytes \<Rightarrow> Discoverer \<Rightarrow> Discoverer" where
  "disc_persist env data d = (case de_encrypt env data of
     None \<Rightarrow> d
   | Some enc \<Rightarrow> if de_writable env then d\<lparr>di_disk := Some enc\<rparr> else d)"

definition InjectRaw :: "disc_env \<Rightarrow> bytes \<Rightarrow> Discoverer \<Rightarrow> disc_error option \<times> Discoverer" where
  "InjectRaw env data d = (case disc_verify env d data of
     Inl e \<Rightarrow> (Some e, d)
   | Inr m \<Rightarrow>
      let d1 = setControls m d in
      (None, if di_cacheFile d \<noteq> [] then disc_persist env data d1 else d1))"

section \<open>Cache\<close>

datatype load_error = LNoCacheFile | LRead | LInvalid disc_error

definition cache_plain :: "disc_env \<Rightarrow> bytes \<Rightarrow> bytes" where
  "cache_plain env enc = (case de_decrypt env enc of None \<Rightarrow> enc | Some p \<Rightarrow> p)"

definition disc_LoadCached :: "disc_env \<Rightarrow> Discoverer \<Rightarrow> load_error option \<times> Discoverer" where
  "disc_LoadCached env d =
     (if di_cacheFile d = [] then (Some LNoCacheFile, d)
      else case di_disk d of
        None \<Rightarrow> (Some LRead, d)
      | Some enc \<Rightarrow>
         (case disc_verify env d (cache_plain env enc) of
            Inl e \<Rightarrow> (Some (LInvalid e), d)
          | Inr m \<Rightarrow> (None, (setControls m d)\<lparr>di_manifestSource := 1\<rparr>)))"

text \<open>The file's content is the argument; the key is dropped when it does not decode to 32 bytes.\<close>

definition ReadManifestCacheControlsAndRegions ::
  "disc_env \<Rightarrow> bytes option \<Rightarrow> string \<Rightarrow> (string list \<times> (string \<times> string) list option) option" where
  "ReadManifestCacheControlsAndRegions env file pubkeyHex = (case file of
     None \<Rightarrow> None
   | Some enc \<Rightarrow>
      let key = (if pubkeyHex = [] then None else
                 case hex_decode pubkeyHex of None \<Rightarrow> None | Some b \<Rightarrow> if length b = 32 then Some b else None) in
      (case disc_verify env (zeroDiscoverer\<lparr>di_pubkey := key\<rparr>) (cache_plain env enc) of
         Inl e \<Rightarrow> None
       | Inr m \<Rightarrow> Some (manifest_controls m, sm_Regions m)))"

definition ReadManifestCacheControls :: "disc_env \<Rightarrow> bytes option \<Rightarrow> string \<Rightarrow> string list option" where
  "ReadManifestCacheControls env file pubkeyHex = map_option fst (ReadManifestCacheControlsAndRegions env file pubkeyHex)"

section \<open>Fetching\<close>

type_synonym disc_http = "nat \<Rightarrow> string \<Rightarrow> http_result"

definition fetch_one :: "disc_http \<Rightarrow> nat \<Rightarrow> string \<Rightarrow> bytes option" where
  "fetch_one http i srvURL = (case http i (srvURL @ ''/p/v1/manifest'') of
     HttpErr \<Rightarrow> None
   | HttpResp st body \<Rightarrow>
      if st \<noteq> 200 then None else let data = take (4 * 2 ^ 20) body in if data = [] then None else Some data)"

fun fetch_from :: "disc_http \<Rightarrow> nat \<Rightarrow> string list \<Rightarrow> bytes option" where
  "fetch_from http i [] = None"
| "fetch_from http i (u # us) = (case fetch_one http i u of
     None \<Rightarrow> fetch_from http (Suc i) us
   | Some data \<Rightarrow> Some data)"

definition disc_fetch :: "disc_http \<Rightarrow> (string list \<Rightarrow> string list) \<Rightarrow> Discoverer \<Rightarrow> bytes option" where
  "disc_fetch http shuf d = fetch_from http 0 (shuf (di_serverURLs d))"

definition fetchAndApply :: "disc_env \<Rightarrow> disc_http \<Rightarrow> (string list \<Rightarrow> string list) \<Rightarrow> Discoverer \<Rightarrow> Discoverer" where
  "fetchAndApply env http shuf d = (case disc_fetch http shuf d of
     None \<Rightarrow> d
   | Some data \<Rightarrow>
      (case disc_verify env d data of
         Inl e \<Rightarrow> d
       | Inr m \<Rightarrow>
          let d1 = (setControls m d)\<lparr>di_manifestSource := 2\<rparr>;
              d2 = (if di_cacheFile d \<noteq> [] then disc_persist env data d1 else d1) in
          if di_onFetch d then d2\<lparr>di_events := OnFetch data (de_ts env data) # di_events d2\<rparr> else d2))"

text \<open>The number of controls in a fetched manifest, for diagnosis.\<close>

definition ProbeManifest :: "disc_env \<Rightarrow> disc_http \<Rightarrow> (string list \<Rightarrow> string list) \<Rightarrow> Discoverer \<Rightarrow> nat option" where
  "ProbeManifest env http shuf d = (case disc_fetch http shuf d of
     None \<Rightarrow> None
   | Some data \<Rightarrow> (case disc_verify env d data of Inl e \<Rightarrow> None | Inr m \<Rightarrow> Some (length (manifest_controls m))))"

section \<open>Accessors\<close>

definition disc_Stop :: "Discoverer \<Rightarrow> Discoverer" where "disc_Stop d = (if di_done d then d else d\<lparr>di_done := True\<rparr>)"
definition Controls :: "Discoverer \<Rightarrow> string list" where "Controls d = di_controls d"
definition Regions :: "Discoverer \<Rightarrow> (string \<times> string) list option" where "Regions d = di_regions d"
definition Notifications :: "Discoverer \<Rightarrow> Notification list" where "Notifications d = di_notifications d"
definition SetFetchCallback :: "bool \<Rightarrow> Discoverer \<Rightarrow> Discoverer" where "SetFetchCallback b d = d\<lparr>di_onFetch := b\<rparr>"
definition SetNotificationCallback :: "bool \<Rightarrow> Discoverer \<Rightarrow> Discoverer" where
  "SetNotificationCallback b d = d\<lparr>di_onNotifications := b\<rparr>"

text \<open>\<open>SNIFor\<close> with \<open>rnd n\<close> the number below \<open>n\<close> drawn by \<^verbatim>\<open>rand.Intn\<close>.\<close>

definition SNIFor :: "(nat \<Rightarrow> nat) \<Rightarrow> string \<Rightarrow> Discoverer \<Rightarrow> string option" where
  "SNIFor rnd addr d =
     (let snis = (case map_of (di_nodeSNIs d) addr of None \<Rightarrow> [] | Some l \<Rightarrow> l) in
      if snis = [] then Some [] else idx snis (rnd (length snis)))"

definition AltUDPPorts :: "string \<Rightarrow> Discoverer \<Rightarrow> int list" where
  "AltUDPPorts a d = (case map_of (di_nodeAltUDPPorts d) a of None \<Rightarrow> [] | Some p \<Rightarrow> p)"

definition ManifestStatus :: "Discoverer \<Rightarrow> string" where
  "ManifestStatus d = (if di_manifestSource d = 1 then ''cached'' else if di_manifestSource d = 2 then ''fresh'' else ''none'')"

text \<open>What happens to a discoverer: rounds of the loop of \<open>Start\<close> with arbitrary answers, manifests injected
  from gossip, loading of the cache, replacement of the cache file by others, and the setters.\<close>

datatype disc_op = DFetch disc_http "string list \<Rightarrow> string list" | DInject bytes | DLoad | DDisk "bytes option"
  | DFetchCallback bool | DNotificationCallback bool | DStop

fun disc_step :: "disc_env \<Rightarrow> disc_op \<Rightarrow> Discoverer \<Rightarrow> Discoverer" where
  "disc_step env (DFetch http shuf) d = fetchAndApply env http shuf d"
| "disc_step env (DInject data) d = snd (InjectRaw env data d)"
| "disc_step env DLoad d = snd (disc_LoadCached env d)"
| "disc_step env (DDisk f) d = d\<lparr>di_disk := f\<rparr>"
| "disc_step env (DFetchCallback b) d = SetFetchCallback b d"
| "disc_step env (DNotificationCallback b) d = SetNotificationCallback b d"
| "disc_step env DStop d = disc_Stop d"


section \<open>Controls come from signed manifests\<close>

definition signed_manifest :: "disc_env \<Rightarrow> bytes \<Rightarrow> signedManifest \<Rightarrow> bool" where
  "signed_manifest env k m \<longleftrightarrow> sm_Type m = ''manifest'' \<and> sig_ok env k m \<and> manifest_controls m \<noteq> []"

definition signed_controls :: "disc_env \<Rightarrow> bytes \<Rightarrow> string list \<Rightarrow> bool" where
  "signed_controls env k as \<longleftrightarrow> (\<exists>m. signed_manifest env k m \<and> as = manifest_controls m)"

text \<open>The list a listener of \<^verbatim>\<open>onChange\<close> knows.\<close>

fun last_change :: "disc_event list \<Rightarrow> string list" where
  "last_change [] = []"
| "last_change (OnChange as # es) = as"
| "last_change (_ # es) = last_change es"

definition event_ok :: "disc_env \<Rightarrow> bytes \<Rightarrow> disc_event \<Rightarrow> bool" where
  "event_ok env k e \<longleftrightarrow> (case e of
     OnChange as \<Rightarrow> signed_controls env k as
   | OnNotifications ns \<Rightarrow> ns \<noteq> []
   | OnFetch data ts \<Rightarrow> (\<exists>m. de_unmarshal env data = Some m \<and> signed_manifest env k m))"

definition disc_inv :: "disc_env \<Rightarrow> bytes \<Rightarrow> string \<Rightarrow> Discoverer \<Rightarrow> bool" where
  "disc_inv env k url d \<longleftrightarrow> di_pubkey d = Some k \<and>
     (di_controls d = [] \<and> di_serverURLs d = [url] \<and> ManifestStatus d = ''none'' \<or>
      signed_controls env k (di_controls d) \<and> di_serverURLs d = map control_url (di_controls d)) \<and>
     list_all (event_ok env k) (di_events d) \<and> (di_onChange d \<longrightarrow> last_change (di_events d) = di_controls d)"

lemma stringSliceEqual_eq [simp]: "stringSliceEqual as bs \<longleftrightarrow> as = bs"
  by (induction as bs rule: stringSliceEqual.induct) auto

lemma disc_verify_signed:
  assumes "disc_verify env d data = Inr m" and "di_pubkey d = Some k"
  shows "de_unmarshal env data = Some m \<and> signed_manifest env k m"
  using assms by (auto simp: disc_verify_def signed_manifest_def split: option.splits if_splits)

lemma disc_persist_fields [simp]:
  "di_pubkey (disc_persist env x d) = di_pubkey d" "di_controls (disc_persist env x d) = di_controls d"
  "di_serverURLs (disc_persist env x d) = di_serverURLs d" "di_manifestSource (disc_persist env x d) = di_manifestSource d"
  "di_events (disc_persist env x d) = di_events d" "di_onChange (disc_persist env x d) = di_onChange d"
  "di_regions (disc_persist env x d) = di_regions d" "di_notifications (disc_persist env x d) = di_notifications d"
  "di_nodeSNIs (disc_persist env x d) = di_nodeSNIs d" "di_nodeAltUDPPorts (disc_persist env x d) = di_nodeAltUDPPorts d"
  by (simp_all add: disc_persist_def split: option.splits)

lemma disc_inv_setControls:
  assumes "disc_inv env k url d" and "signed_manifest env k m"
  shows "disc_inv env k url (setControls m d)"
proof -
  have "manifest_controls m \<noteq> []" and "signed_controls env k (manifest_controls m)"
    using assms(2) by (auto simp: signed_manifest_def signed_controls_def)
  then show ?thesis using assms(1) by (simp add: disc_inv_def setControls_def Let_def event_ok_def)
qed

lemma disc_inv_signed:
  "disc_inv env k url d \<Longrightarrow> di_controls d \<noteq> [] \<Longrightarrow> disc_inv env k url (d\<lparr>di_manifestSource := n\<rparr>)"
  by (simp add: disc_inv_def)

lemma ManifestStatus_cong: "di_manifestSource d' = di_manifestSource d \<Longrightarrow> ManifestStatus d' = ManifestStatus d"
  by (simp add: ManifestStatus_def)

lemma disc_inv_persist: "disc_inv env k url d \<Longrightarrow> disc_inv env k url (disc_persist env x d)"
  by (simp add: disc_inv_def ManifestStatus_cong [of "disc_persist env x d" d])

lemma disc_inv_OnFetch:
  "disc_inv env k url d \<Longrightarrow> event_ok env k (OnFetch data t) \<Longrightarrow> disc_inv env k url (d\<lparr>di_events := OnFetch data t # di_events d\<rparr>)"
  by (simp add: disc_inv_def ManifestStatus_cong [of "d\<lparr>di_events := OnFetch data t # di_events d\<rparr>" d])

lemma setControls_nonempty: "signed_manifest env k m \<Longrightarrow> di_controls (setControls m d) \<noteq> []"
  by (simp add: signed_manifest_def setControls_def Let_def)

lemma disc_step_inv:
  assumes "disc_inv env k url d"
  shows "disc_inv env k url (disc_step env op d)"
proof -
  have key: "di_pubkey d = Some k" using assms by (simp add: disc_inv_def)
  note signed = disc_verify_signed [OF _ key]
  have set: "disc_inv env k url ((setControls m d)\<lparr>di_manifestSource := n\<rparr>)" "disc_inv env k url (setControls m d)"
    if "disc_verify env d data = Inr m" for data m n
    using disc_inv_setControls [OF assms] signed [OF that] setControls_nonempty disc_inv_signed by blast+
  show ?thesis
  proof (cases op)
    case (DFetch http shuf)
    show ?thesis
    proof (cases "\<exists>data m. disc_fetch http shuf d = Some data \<and> disc_verify env d data = Inr m")
      case True
      then obtain data m where f: "disc_fetch http shuf d = Some data" and v: "disc_verify env d data = Inr m" by blast
      let ?d1 = "(setControls m d)\<lparr>di_manifestSource := 2\<rparr>"
      let ?d2 = "if di_cacheFile d \<noteq> [] then disc_persist env data ?d1 else ?d1"
      have "disc_inv env k url ?d2" using set(1) [OF v] disc_inv_persist by simp
      moreover have "event_ok env k (OnFetch data t)" for t using signed [OF v] by (simp add: event_ok_def)
      ultimately have "disc_inv env k url (?d2\<lparr>di_events := OnFetch data (de_ts env data) # di_events ?d2\<rparr>)"
        by (rule disc_inv_OnFetch)
      then show ?thesis using DFetch f v \<open>disc_inv env k url ?d2\<close> by (simp add: fetchAndApply_def Let_def)
    next
      case False
      then show ?thesis using DFetch assms by (auto simp: fetchAndApply_def split: option.splits sum.splits)
    qed
  next
    case (DInject data)
    then show ?thesis using assms set(2) disc_inv_persist by (auto simp: InjectRaw_def Let_def split: sum.splits)
  next
    case DLoad
    then show ?thesis using assms set(1) by (auto simp: disc_LoadCached_def split: option.splits sum.splits)
  qed (use assms in \<open>auto simp: disc_inv_def ManifestStatus_def SetFetchCallback_def SetNotificationCallback_def disc_Stop_def\<close>)
qed

lemma disc_run_inv: "disc_inv env k url d \<Longrightarrow> disc_inv env k url (fold (disc_step env) ops d)"
  by (induction ops arbitrary: d) (simp_all add: disc_step_inv)

lemma NewDiscoverer_inv:
  assumes "NewDiscoverer url hex cache cb disk = Some d" and "hex \<noteq> []"
  shows "\<exists>k. hex_decode hex = Some k \<and> length k = 32 \<and> disc_inv env k (trim_slashes url) d \<and> di_onChange d = cb"
  using assms by (auto simp: NewDiscoverer_def Let_def zeroDiscoverer_def disc_inv_def ManifestStatus_def
    split: option.splits if_splits)

lemma disc_step_onChange [simp]: "di_onChange (disc_step env op d) = di_onChange d"
  by (cases op) (auto simp: fetchAndApply_def InjectRaw_def disc_LoadCached_def setControls_def Let_def
    SetFetchCallback_def SetNotificationCallback_def disc_Stop_def split: option.splits sum.splits)

lemma disc_run_onChange [simp]: "di_onChange (fold (disc_step env) ops d) = di_onChange d"
  by (induction ops arbitrary: d) simp_all

text \<open>Property C12. A discoverer created with the arbiter's key, whatever the controls answer, gossip injects and
  the cache file holds: its control list is empty, with only the first server asked and no manifest, or it
  is the list of a manifest whose type, time and nodes carry the arbiter's signature, and then exactly
  these controls are asked next; every list given to \<^verbatim>\<open>onChange\<close> is of such a manifest, and every document
  given to \<^verbatim>\<open>onFetch\<close> decodes to one; and a listener of \<^verbatim>\<open>onChange\<close> always knows the current list.\<close>

theorem controls_rest_on_signed_manifests:
  assumes "NewDiscoverer url hex cache cb disk = Some d0" and "hex \<noteq> []" and "d = fold (disc_step env) ops d0"
  shows "\<exists>k. hex_decode hex = Some k \<and> length k = 32 \<and>
    (Controls d = [] \<and> di_serverURLs d = [trim_slashes url] \<and> ManifestStatus d = ''none'' \<or>
     signed_controls env k (Controls d) \<and> di_serverURLs d = map control_url (Controls d)) \<and>
    list_all (event_ok env k) (di_events d) \<and> (cb \<longrightarrow> last_change (di_events d) = Controls d)"
proof -
  obtain k where k: "hex_decode hex = Some k" "length k = 32" "disc_inv env k (trim_slashes url) d0" "di_onChange d0 = cb"
    using NewDiscoverer_inv [OF assms(1,2)] by blast
  have "disc_inv env k (trim_slashes url) d" unfolding assms(3) by (rule disc_run_inv [OF k(3)])
  moreover have "di_onChange d = cb" using assms(3) k(4) by simp
  ultimately show ?thesis using k(1,2) by (auto simp: disc_inv_def Controls_def)
qed


definition sample_manifest :: "string \<Rightarrow> signedManifest" where
  "sample_manifest sig = \<lparr>sm_Type = ''manifest'', sm_TS = 7,
     sm_Nodes = map (\<lambda>a. \<lparr>mn_Addr = a, mn_Fingerprint = [], mn_RTTms = 0, mn_Load = 0, mn_DataPlaneOK = None\<rparr>) [''a:1'', ''b:1''],
     sm_Sig = sig, sm_Regions = Some [(''a:1'', ''X'')], sm_Notifications = [], sm_NodeSNIs = [], sm_Excluded = [''b:1''],
     sm_NodeAltUDPPorts = []\<rparr>"

text \<open>An environment with one document that is signed and one that is not.\<close>

definition sample_disc_env :: disc_env where
  "sample_disc_env =
     \<lparr>de_unmarshal = (\<lambda>x. if x = [1] then Some (sample_manifest ''AQ'') else if x = [2] then Some (sample_manifest ''Ag'') else None),
      de_ts = (\<lambda>x. 7), de_marshal = (\<lambda>t ts ns. [word_of_int ts]), de_verify = (\<lambda>k p s. s = [1]),
      de_encrypt = (\<lambda>x. Some (0 # x)), de_decrypt = (\<lambda>x. case x of [] \<Rightarrow> None | y # z \<Rightarrow> if y = 0 then Some z else None),
      de_writable = True\<rparr>"

definition sample_hex :: string where "sample_hex = replicate 64 CHR ''0''"

theorem controls_rest_on_signed_manifests_witness:
  "\<exists>k. hex_decode sample_hex = Some k \<and>
     signed_controls sample_disc_env k
       (Controls (fold (disc_step sample_disc_env) [DInject [2], DInject [1], DDisk (Some [5]), DLoad]
          (the (NewDiscoverer ''https://c/'' sample_hex ''f'' True None))))"
proof -
  let ?d = "fold (disc_step sample_disc_env) [DInject [2], DInject [1], DDisk (Some [5]), DLoad]
          (the (NewDiscoverer ''https://c/'' sample_hex ''f'' True None))"
  have new: "NewDiscoverer ''https://c/'' sample_hex ''f'' True None =
      Some (the (NewDiscoverer ''https://c/'' sample_hex ''f'' True None))" by code_simp
  have hex: "sample_hex \<noteq> []" by code_simp
  have ctl: "Controls ?d = [''a:1'']" by code_simp
  show ?thesis
    using controls_rest_on_signed_manifests [OF new hex refl,
        where env = sample_disc_env and ops = "[DInject [2], DInject [1], DDisk (Some [5]), DLoad]"]
    unfolding ctl by blast
qed

section \<open>The cache\<close>

text \<open>The file system accepts the write, and what was encrypted decrypts to itself.\<close>

definition cache_works :: "disc_env \<Rightarrow> bytes \<Rightarrow> bool" where
  "cache_works env data \<longleftrightarrow> de_writable env \<and> (\<exists>enc. de_encrypt env data = Some enc \<and> de_decrypt env enc = Some data)"

lemma applied_manifest:
  assumes "disc_verify env d data = Inr m" and "cache_works env data" and "di_cacheFile d \<noteq> []"
    and "d' = snd (InjectRaw env data d) \<or> disc_fetch http shuf d = Some data \<and> d' = fetchAndApply env http shuf d"
  shows "Controls d' = manifest_controls m" "Regions d' = sm_Regions m" "Notifications d' = sm_Notifications m"
    "di_nodeSNIs d' = sm_NodeSNIs m" "di_nodeAltUDPPorts d' = sm_NodeAltUDPPorts m"
    "di_serverURLs d' = map control_url (manifest_controls m)"
    "\<exists>enc. di_disk d' = Some enc \<and> cache_plain env enc = data"
proof -
  have ne: "manifest_controls m \<noteq> []" using assms(1) by (auto simp: disc_verify_def split: option.splits if_splits)
  obtain enc where e: "de_encrypt env data = Some enc" "de_decrypt env enc = Some data" "de_writable env"
    using assms(2) by (auto simp: cache_works_def)
  note d = assms(1,3,4) ne e
  show "Controls d' = manifest_controls m" "Regions d' = sm_Regions m" "Notifications d' = sm_Notifications m"
    "di_nodeSNIs d' = sm_NodeSNIs m" "di_nodeAltUDPPorts d' = sm_NodeAltUDPPorts m"
    "di_serverURLs d' = map control_url (manifest_controls m)"
    "\<exists>enc. di_disk d' = Some enc \<and> cache_plain env enc = data"
    using d by (auto simp: InjectRaw_def fetchAndApply_def Let_def setControls_def disc_persist_def cache_plain_def
      Controls_def Regions_def Notifications_def)
qed

lemma disc_verify_cong: "di_pubkey r = di_pubkey d \<Longrightarrow> disc_verify env r data = disc_verify env d data"
  by (simp add: disc_verify_def split: option.split)

text \<open>Property C28. A manifest that was accepted, from gossip or by a fetch, survives a restart: when the cache file
  could be written and decrypts to what was encrypted, a discoverer with the same key that finds this file
  loads it without an error and has the same controls, regions, notifications, server names, ports and
  servers to ask, with the status \<^verbatim>\<open>cached\<close>; and reading the file before a discoverer exists gives the same
  controls and regions.\<close>

theorem manifest_cache_round_trip:
  assumes "disc_verify env d data = Inr m" and "cache_works env data" and "di_cacheFile d \<noteq> []"
    and "d' = snd (InjectRaw env data d) \<or> disc_fetch http shuf d = Some data \<and> d' = fetchAndApply env http shuf d"
    and "di_pubkey r = di_pubkey d" and "di_cacheFile r \<noteq> []" and "di_disk r = di_disk d'"
  shows "(\<exists>r'. disc_LoadCached env r = (None, r') \<and> Controls r' = Controls d' \<and> Regions r' = Regions d' \<and>
      Notifications r' = Notifications d' \<and> (\<forall>rnd addr. SNIFor rnd addr r' = SNIFor rnd addr d') \<and>
      (\<forall>addr. AltUDPPorts addr r' = AltUDPPorts addr d') \<and> di_serverURLs r' = di_serverURLs d' \<and>
      ManifestStatus r' = ''cached'') \<and>
    (hex \<noteq> [] \<and> length k = 32 \<and> hex_decode hex = Some k \<and> di_pubkey d = Some k \<longrightarrow>
      ReadManifestCacheControlsAndRegions env (di_disk d') hex = Some (Controls d', Regions d'))"
proof -
  note ap = applied_manifest [OF assms(1-4)]
  obtain enc where enc: "di_disk d' = Some enc" "cache_plain env enc = data" using ap(7) by blast
  have ne: "manifest_controls m \<noteq> []" using assms(1) by (auto simp: disc_verify_def split: option.splits if_splits)
  have v: "disc_verify env r data = Inr m" using assms(1) disc_verify_cong [OF assms(5)] by simp
  have load: "disc_LoadCached env r = (None, (setControls m r)\<lparr>di_manifestSource := 1\<rparr>)"
    using assms(6,7) enc v by (simp add: disc_LoadCached_def)
  have read: "ReadManifestCacheControlsAndRegions env (di_disk d') hex = Some (Controls d', Regions d')"
    if "hex \<noteq> []" "length k = 32" "hex_decode hex = Some k" "di_pubkey d = Some k"
    using that enc ap assms(1) disc_verify_cong [of "zeroDiscoverer\<lparr>di_pubkey := Some k\<rparr>" d env data]
    by (simp add: ReadManifestCacheControlsAndRegions_def)
  show ?thesis
    using load ap ne read
    by (simp add: setControls_def Let_def Controls_def Regions_def Notifications_def SNIFor_def AltUDPPorts_def ManifestStatus_def)
qed

theorem manifest_cache_round_trip_witness:
  "\<exists>r'. disc_LoadCached sample_disc_env (the (NewDiscoverer ''https://z'' sample_hex ''f'' True
       (di_disk (snd (InjectRaw sample_disc_env [1] (the (NewDiscoverer ''https://c/'' sample_hex ''f'' True None))))))) = (None, r') \<and>
     Controls r' = [''a:1''] \<and> ManifestStatus r' = ''cached''"
proof -
  let ?d = "the (NewDiscoverer ''https://c/'' sample_hex ''f'' True None)"
  let ?r = "the (NewDiscoverer ''https://z'' sample_hex ''f'' True (di_disk (snd (InjectRaw sample_disc_env [1] ?d))))"
  have v: "disc_verify sample_disc_env ?d [1] = Inr (sample_manifest ''AQ'')" by code_simp
  have w: "cache_works sample_disc_env [1]" by (simp add: cache_works_def sample_disc_env_def)
  have c: "di_cacheFile ?d \<noteq> []" "di_cacheFile ?r \<noteq> []" "di_pubkey ?r = di_pubkey ?d"
    "di_disk ?r = di_disk (snd (InjectRaw sample_disc_env [1] ?d))" by code_simp+
  have a: "Controls (snd (InjectRaw sample_disc_env [1] ?d)) = [''a:1'']" by code_simp
  show ?thesis
    using manifest_cache_round_trip [OF v w c(1) disjI1 [OF refl] c(3,2,4), where hex = "[]" and k = "[]"] unfolding a by blast
qed

text \<open>A key that does not decode to 32 bytes disables the verification of the cache.\<close>

lemma malformed_key_skips_verification:
  assumes "hex_decode hex = None \<or> (\<exists>b. hex_decode hex = Some b \<and> length b \<noteq> 32)"
  shows "ReadManifestCacheControlsAndRegions env f hex = ReadManifestCacheControlsAndRegions env f []"
  using assms by (auto simp: ReadManifestCacheControlsAndRegions_def split: option.splits)

text \<open>A signed manifest is applied whatever its time: an older one replaces a newer one, in memory and on disk.\<close>

lemma older_manifest_replaces_newer:
  assumes "disc_verify env d new = Inr m" and "disc_verify env d old = Inr m'" and "sm_TS m' < sm_TS m"
  shows "Controls (snd (InjectRaw env old (snd (InjectRaw env new d)))) = manifest_controls m'"
proof -
  have "di_pubkey (snd (InjectRaw env new d)) = di_pubkey d"
    using assms(1) by (simp add: InjectRaw_def setControls_def Let_def)
  then show ?thesis
    using assms(2) disc_verify_cong [of "snd (InjectRaw env new d)" d env old]
    by (simp add: InjectRaw_def [of env old] setControls_def Let_def Controls_def)
qed

end
