(* ===== verification/Tunnel_Dial.thy ===== *)
theory Tunnel_Dial
  imports Tunnel_Conn Watchdog
begin

text \<open>
  Opening a connection through the tunnel (\<^verbatim>\<open>tunnel.go\<close>: the constructors, \<open>Dial\<close> with its \<open>send\<close> closure, and
  \<open>openStreamPost\<close>): \<open>doPost\<close>, the outcome window, the traffic monitor and the connection put together.
  The k-th attempt of a dial happens at the time \<open>tm k\<close> in the environment \<open>env k\<close>. HTTP clients are
  not part of the state, and the path of a request does not matter. A panic is \<^term>\<open>None\<close>.
\<close>

record dialer =
  dl_td :: TunnelDialer
  dl_streaming :: bool
  dl_activeConns :: int
  dl_window :: dial_window
  dl_monitor :: TunnelTrafficMonitor

definition newTunnelDialer :: "string \<Rightarrow> bool \<Rightarrow> TunnelTrafficMonitor \<Rightarrow> dialer" where
  "newTunnelDialer token streaming mon =
     \<lparr>dl_td = \<lparr>td_token = token, td_udpRelay = None, td_onUDPFailed = False\<rparr>, dl_streaming = streaming, dl_activeConns = 0,
      dl_window = newWindow, dl_monitor = mon\<rparr>"

definition NewTunnelDialer :: "string \<Rightarrow> TunnelTrafficMonitor \<Rightarrow> dialer" where
  "NewTunnelDialer token mon = newTunnelDialer token True mon"

definition NewTunnelDialerPolling :: "string \<Rightarrow> TunnelTrafficMonitor \<Rightarrow> dialer" where
  "NewTunnelDialerPolling token mon = newTunnelDialer token False mon"

definition NewUDPRelayDialer :: "bool \<Rightarrow> string \<Rightarrow> TunnelTrafficMonitor \<Rightarrow> dialer" where
  "NewUDPRelayDialer failed token mon =
     (let d = newTunnelDialer token False mon in d\<lparr>dl_td := (dl_td d)\<lparr>td_udpRelay := Some failed\<rparr>\<rparr>)"

definition newConnID :: "bytes \<Rightarrow> string" where "newConnID rnd = hex_encode (take 16 rnd)"

text \<open>The cryptography a dialer works with.\<close>

type_synonym tunnel_crypto = "(bytes \<Rightarrow> bytes) \<times> keyed_seal \<times> keyed_open"

text \<open>The closure \<open>send\<close>: only the first request names the target.\<close>

definition dial_send ::
  "tunnel_crypto \<Rightarrow> post_env \<Rightarrow> time \<Rightarrow> string \<Rightarrow> string \<Rightarrow> nat \<Rightarrow> bytes \<Rightarrow> dialer \<Rightarrow> ((post_failure + bytes) \<times> dialer) option" where
  "dial_send cr env now connID target s payload d = do {
     let (blake, sealk, openk) = cr;
     plain \<leftarrow> buildUploadPlain connID (word_of_nat s) (if s = 0 then target else []) payload;
     let d = (if length payload > 0 then d\<lparr>dl_monitor := RecordTunnelSent now (length payload) (dl_monitor d)\<rparr> else d);
     let (res, td) = doPost blake sealk openk env plain True True (dl_td d);
     let d = d\<lparr>dl_td := td\<rparr>;
     case res of
       Inl PostPanic \<Rightarrow> None
     | Inl e \<Rightarrow> Some (Inl e, d)
     | Inr resp \<Rightarrow>
        Some (Inr resp, if length resp > 0 then d\<lparr>dl_monitor := RecordTunnelRecv now (length resp) (dl_monitor d)\<rparr> else d) }"

definition post_error_of :: "post_failure \<Rightarrow> post_error" where
  "post_error_of e = (case e of PostHTTP n \<Rightarrow> ControlHTTP n | _ \<Rightarrow> TransportErr)"

definition outcome_of :: "post_failure + bytes \<Rightarrow> post_error option" where
  "outcome_of res = (case res of Inl e \<Rightarrow> Some (post_error_of e) | Inr b \<Rightarrow> None)"

definition classify :: "time \<Rightarrow> post_failure + bytes \<Rightarrow> dialer \<Rightarrow> dialer" where
  "classify now res d = d\<lparr>dl_window := fst (recordClassified now (outcome_of res) (dl_window d))\<rparr>"

text \<open>The attempts: \<open>n\<close> more are allowed after this one, number \<open>k\<close>. Every one is classified; only errors
  that are no answer of the control are retried.\<close>

fun dial_attempts ::
  "nat \<Rightarrow> tunnel_crypto \<Rightarrow> (nat \<Rightarrow> post_env) \<Rightarrow> (nat \<Rightarrow> time) \<Rightarrow> nat \<Rightarrow> string \<Rightarrow> string \<Rightarrow> dialer \<Rightarrow>
   ((post_failure + bytes) \<times> dialer) option" where
  "dial_attempts n cr env tm k connID target d = do {
     (res, d1) \<leftarrow> dial_send cr (env k) (tm k) connID target 0 [] d;
     let d2 = classify (tm k) res d1;
     case (outcome_of res, n) of
       (Some TransportErr, Suc m) \<Rightarrow> dial_attempts m cr env tm (Suc k) connID target d2
     | _ \<Rightarrow> Some (res, d2) }"

declare dial_attempts.simps [simp del]

definition Dial ::
  "tunnel_crypto \<Rightarrow> (nat \<Rightarrow> post_env) \<Rightarrow> (nat \<Rightarrow> time) \<Rightarrow> bytes \<Rightarrow> string \<Rightarrow> dialer \<Rightarrow> ((post_failure + TunnelConn) \<times> dialer) option" where
  "Dial cr env tm rnd target d = do {
     let connID = newConnID rnd;
     (res, d1) \<leftarrow> dial_attempts 2 cr env tm 0 connID target d;
     case res of
       Inl e \<Rightarrow> Some (Inl e, d1)
     | Inr resp \<Rightarrow>
        Some (Inr (tc_established resp (newTunnelConn (dl_streaming d) (if dl_streaming d then tunnelPipelineWidth else 0))),
          d1\<lparr>dl_activeConns := dl_activeConns d1 + 1\<rparr>) }"

text \<open>The callback when a connection closes.\<close>

definition dial_onClose :: "dialer \<Rightarrow> dialer" where "dial_onClose d = d\<lparr>dl_activeConns := dl_activeConns d - 1\<rparr>"
definition OpenConns :: "dialer \<Rightarrow> int" where "OpenConns d = dl_activeConns d"

section \<open>Opening the stream\<close>

datatype stream_error = StreamSeal | StreamTransport | StreamHTTP nat

text \<open>\<open>http token body\<close> is the answer to the streaming POST: its status and the bytes of its body.\<close>

definition openStreamPost ::
  "tunnel_crypto \<Rightarrow> (string \<Rightarrow> bytes \<Rightarrow> http_result) \<Rightarrow> bytes \<Rightarrow> string \<Rightarrow> dialer \<Rightarrow> (stream_error + framedDecryptReader) option" where
  "openStreamPost cr http nonce connID d = do {
     let (blake, sealk, openk) = cr;
     let token = td_token (dl_td d);
     let key = sessionKey blake token;
     plain \<leftarrow> buildStreamOpenPlain connID;
     case sealFrame sealk key nonce plain of
       None \<Rightarrow> Some (Inl StreamSeal)
     | Some body \<Rightarrow> (case http token body of
          HttpErr \<Rightarrow> Some (Inl StreamTransport)
        | HttpResp st resp \<Rightarrow> if st \<noteq> 200 then Some (Inl (StreamHTTP st)) else Some (Inr (newFramedDecryptReader resp key))) }"

section \<open>Facts\<close>

lemma newConnID_hex: "16 \<le> length rnd \<Longrightarrow> \<exists>c. length c = 16 \<and> newConnID rnd = hex_encode c"
  by (auto simp: newConnID_def)

lemma recordClassified_success_window:
  "dw_window (fst (recordClassified now None w)) = trim now (dw_window w) @ [\<lparr>do_at = now, do_success = True\<rparr>]"
  by (simp add: recordClassified_def classifyDialErr_def recordDialOutcome_def judge_def Let_def split: prod.split)

lemma recordClassified_failure_window:
  "dw_window (fst (recordClassified now (Some TransportErr) w)) = trim now (dw_window w) @ [\<lparr>do_at = now, do_success = False\<rparr>]"
  by (simp add: recordClassified_def classifyDialErr_def recordDialOutcome_def judge_def Let_def split: prod.split)

lemma buildStreamOpenPlain_layout:
  "length c = 16 \<Longrightarrow> buildStreamOpenPlain (hex_encode c) = Some (frameTypeStreamOpen # c)"
  by (simp add: buildStreamOpenPlain_def codec_simps)

lemma parse_of_send:
  assumes "16 \<le> length rnd" and "length target < 65536" and "s < 2 ^ 32"
  shows "\<exists>plain. buildUploadPlain (newConnID rnd) (word_of_nat s) target payload = Some plain \<and>
    parseUploadFrame plain = Some (Inr (newConnID rnd, word_of_nat s, target, payload))"
proof -
  obtain c where c: "length c = 16" "newConnID rnd = hex_encode c" using newConnID_hex [OF assms(1)] by blast
  then show ?thesis using buildUploadPlain_layout [OF c(1)] parse_buildUpload [OF c(1) assms(2)] by auto
qed

text \<open>What the attempts leave alone, and what they record.\<close>

definition recorded :: "(time \<times> post_error option) list \<Rightarrow> dial_window \<Rightarrow> dial_window" where
  "recorded os w = fold (\<lambda>(t, e) w. fst (recordClassified t e w)) os w"

definition same_dialer :: "dialer \<Rightarrow> dialer \<Rightarrow> bool" where
  "same_dialer d d' \<longleftrightarrow> td_token (dl_td d') = td_token (dl_td d) \<and> dl_streaming d' = dl_streaming d \<and> dl_activeConns d' = dl_activeConns d"

lemma send_fails:
  assumes "\<forall>t. length (blake t) = KeySize" and "pe_send env = (\<lambda>udp tok body. HttpErr)"
    and "buildUploadPlain connID 0 target [] = Some plain"
  shows "\<exists>d'. dial_send (blake, sealk, openk) env now connID target 0 [] d = Some (Inl PostTransport, d') \<and>
    same_dialer d d' \<and> dl_window d' = dl_window d"
proof -
  obtain udp td' where ct: "choose_transport (dl_td d) = (udp, td')" by fastforce
  have "doPost blake sealk openk env plain True True (dl_td d) = (Inl PostTransport, td')"
    using assms(1,2) ct by (subst doPost.simps) (simp add: sealFrame_def sessionKey_def Let_def)
  then show ?thesis
    using assms(3) choose_transport_token [OF ct] by (simp add: dial_send_def same_dialer_def)
qed

text \<open>The cryptography and a control that can answer every request.\<close>

definition working_control ::
  "(bytes \<Rightarrow> bytes) \<Rightarrow> keyed_seal \<Rightarrow> keyed_open \<Rightarrow> (bytes \<Rightarrow> bytes) \<Rightarrow> bytes \<Rightarrow> bytes \<Rightarrow> bool" where
  "working_control blake sealk openk handler pad nonce \<longleftrightarrow> (\<forall>t. length (blake t) = KeySize) \<and>
     (\<forall>key. aead (sealk key) (openk key)) \<and> length nonce = NonceSize \<and>
     (\<forall>p. length (handler p) < 4294967296 \<and> minPadding \<le> length pad + length (handler p))"

lemma send_answered:
  assumes "working_control blake sealk openk handler pad nonce"
    and "\<forall>b. length (pe_nonce env b) = NonceSize" and "pe_send env = control blake sealk openk valid handler pad nonce"
    and "valid (td_token (dl_td d))"
    and "buildUploadPlain connID (word_of_nat s) (if s = 0 then target else []) payload = Some plain"
  shows "\<exists>d'. dial_send (blake, sealk, openk) env now connID target s payload d = Some (Inr (handler plain), d') \<and>
    same_dialer d d' \<and> dl_window d' = dl_window d"
proof -
  obtain td' where "doPost blake sealk openk env plain True True (dl_td d) = (Inr (handler plain), td')" "td_token td' = td_token (dl_td d)"
    using doPost_valid [of blake sealk openk env nonce valid handler pad plain "dl_td d" True True]
      assms(1-4) unfolding working_control_def by blast
  then show ?thesis using assms(5) by (simp add: dial_send_def same_dialer_def Let_def)
qed

lemma attempts_reach_control:
  assumes wc: "working_control blake sealk openk handler pad nonce"
    and "\<forall>i < j. pe_send (env (k + i)) = (\<lambda>udp tok body. HttpErr)" and "j \<le> n"
    and "\<forall>b. length (pe_nonce (env (k + j)) b) = NonceSize"
    and "pe_send (env (k + j)) = control blake sealk openk valid handler pad nonce"
    and "valid (td_token (dl_td d))" and "buildUploadPlain connID 0 target [] = Some plain"
  shows "\<exists>d'. dial_attempts n (blake, sealk, openk) env tm k connID target d = Some (Inr (handler plain), d') \<and> same_dialer d d' \<and>
    dl_window d' = recorded (map (\<lambda>i. (tm (k + i), Some TransportErr)) [0..<j] @ [(tm (k + j), None)]) (dl_window d)"
  using assms(2-6)
proof (induction j arbitrary: k n d)
  case 0
  obtain d' where "dial_send (blake, sealk, openk) (env k) (tm k) connID target 0 [] d = Some (Inr (handler plain), d')"
      "same_dialer d d'" "dl_window d' = dl_window d"
    using send_answered [OF wc, of "env k" valid d connID 0 target "[]" plain] 0 assms(7) by auto
  then show ?case
    by (subst dial_attempts.simps) (simp add: outcome_of_def classify_def recorded_def same_dialer_def)
next
  case (Suc j)
  obtain m where n: "n = Suc m" "j \<le> m" using Suc.prems(2) by (cases n) auto
  obtain d1 where d1: "dial_send (blake, sealk, openk) (env k) (tm k) connID target 0 [] d = Some (Inl PostTransport, d1)"
      "same_dialer d d1" "dl_window d1 = dl_window d"
    using send_fails [of blake "env k" connID target plain sealk openk "tm k" d] spec [OF Suc.prems(1), of 0] assms(7) wc
    by (auto simp: working_control_def)
  let ?d2 = "classify (tm k) (Inl PostTransport) d1"
  have prem: "\<forall>i < j. pe_send (env (Suc k + i)) = (\<lambda>udp tok body. HttpErr)"
  proof (intro allI impI)
    fix i assume "i < j"
    then show "pe_send (env (Suc k + i)) = (\<lambda>udp tok body. HttpErr)" using spec [OF Suc.prems(1), of "Suc i"] by simp
  qed
  have here: "\<forall>b. length (pe_nonce (env (Suc k + j)) b) = NonceSize"
    "pe_send (env (Suc k + j)) = control blake sealk openk valid handler pad nonce" using Suc.prems(3,4) by simp_all
  have tok: "valid (td_token (dl_td ?d2))" using d1(2) Suc.prems(5) by (simp add: classify_def same_dialer_def)
  obtain d' where d': "dial_attempts m (blake, sealk, openk) env tm (Suc k) connID target ?d2 = Some (Inr (handler plain), d')"
      "same_dialer ?d2 d'"
      "dl_window d' = recorded (map (\<lambda>i. (tm (Suc k + i), Some TransportErr)) [0..<j] @ [(tm (Suc k + j), None)]) (dl_window ?d2)"
    using Suc.IH [OF prem n(2) here tok] by blast
  have "dial_attempts n (blake, sealk, openk) env tm k connID target d = Some (Inr (handler plain), d')"
    using d1(1) d'(1) n(1) by (subst dial_attempts.simps) (simp add: outcome_of_def post_error_of_def)
  moreover have "[0..<Suc j] = 0 # map Suc [0..<j]" by (simp add: map_Suc_upt upt_conv_Cons del: upt_Suc)
  then have "dl_window d' = recorded (map (\<lambda>i. (tm (k + i), Some TransportErr)) [0..<Suc j] @ [(tm (k + Suc j), None)]) (dl_window d)"
    using d'(3) d1(3) by (simp add: recorded_def classify_def outcome_of_def post_error_of_def comp_def)
  moreover have "same_dialer d d'" using d1(2) d'(2) by (simp add: same_dialer_def classify_def)
  ultimately show ?case by blast
qed

text \<open>Property C5. Dialling through a faulty network: when up to two attempts fail before the control is reached and
  the session token is valid, \<open>Dial\<close> still opens the connection. The control has received exactly the id of
  the connection, sequence number 0, the target and no data; what it answered is the first that will be
  read, and writing continues with number 1. One more connection is counted, every attempt is in the
  outcome window in its order, the failed ones as failures. Every later request of the connection
  carries its own number and data under the same id and no target.\<close>

theorem dial_through_faulty_network:
  assumes "working_control blake sealk openk handler pad nonce" and "j \<le> 2"
    and "\<forall>i < j. pe_send (env i) = (\<lambda>udp tok body. HttpErr)"
    and "\<forall>i b. length (pe_nonce (env i) b) = NonceSize"
    and "\<forall>i \<ge> j. pe_send (env i) = control blake sealk openk valid handler pad nonce"
    and "valid (td_token (dl_td d))" and "16 \<le> length rnd" and "length target < 65536"
  shows "\<exists>plain conn d'. Dial (blake, sealk, openk) env tm rnd target d = Some (Inr conn, d') \<and>
    parseUploadFrame plain = Some (Inr (newConnID rnd, 0, target, [])) \<and>
    tc_readBuf conn = handler plain \<and> tc_seq conn = 1 \<and> OpenConns d' = OpenConns d + 1 \<and>
    dl_window d' = recorded (map (\<lambda>i. (tm i, Some TransportErr)) [0..<j] @ [(tm j, None)]) (dl_window d) \<and>
    (\<forall>s payload now. 0 < s \<and> s < 2 ^ 32 \<longrightarrow> (\<exists>plain' d''.
       parseUploadFrame plain' = Some (Inr (newConnID rnd, word_of_nat s, [], payload)) \<and>
       dial_send (blake, sealk, openk) (env j) now (newConnID rnd) target s payload d' = Some (Inr (handler plain'), d'')))"
proof -
  obtain plain where plain: "buildUploadPlain (newConnID rnd) 0 target [] = Some plain"
      "parseUploadFrame plain = Some (Inr (newConnID rnd, 0, target, []))"
    using parse_of_send [OF assms(7,8), of 0 "[]"] by auto
  obtain d1 where d1: "dial_attempts 2 (blake, sealk, openk) env tm 0 (newConnID rnd) target d = Some (Inr (handler plain), d1)"
      "same_dialer d d1"
      "dl_window d1 = recorded (map (\<lambda>i. (tm i, Some TransportErr)) [0..<j] @ [(tm j, None)]) (dl_window d)"
    using attempts_reach_control [OF assms(1), of j env 0 2 valid d "newConnID rnd" target plain tm] assms plain(1) by auto
  define d' where "d' = d1\<lparr>dl_activeConns := dl_activeConns d1 + 1\<rparr>"
  have tok: "valid (td_token (dl_td d'))" using d1(2) assms(6) by (simp add: d'_def same_dialer_def)
  have later: "\<exists>plain' d''. parseUploadFrame plain' = Some (Inr (newConnID rnd, word_of_nat s, [], payload)) \<and>
      dial_send (blake, sealk, openk) (env j) now (newConnID rnd) target s payload d' = Some (Inr (handler plain'), d'')"
    if s: "0 < s" "s < 2 ^ 32" for s payload now
  proof -
    obtain plain' where p: "buildUploadPlain (newConnID rnd) (word_of_nat s) [] payload = Some plain'"
        "parseUploadFrame plain' = Some (Inr (newConnID rnd, word_of_nat s, [], payload))"
      using parse_of_send [OF assms(7) _ s(2), of "[]" payload] by auto
    then show ?thesis
      using send_answered [OF assms(1), of "env j" valid d' "newConnID rnd" s target payload plain' now] assms(4,5) tok s(1) by auto
  qed
  have "Dial (blake, sealk, openk) env tm rnd target d =
      Some (Inr (tc_established (handler plain) (newTunnelConn (dl_streaming d) (if dl_streaming d then tunnelPipelineWidth else 0))), d')"
    using d1(1) by (simp add: Dial_def Let_def d'_def)
  moreover have "OpenConns d' = OpenConns d + 1" using d1(2) by (simp add: OpenConns_def d'_def same_dialer_def)
  moreover have "dl_window d' = dl_window d1" by (simp add: d'_def)
  ultimately show ?thesis
    using plain(2) d1(3) later
    by (intro exI [of _ plain] exI [of _ "tc_established (handler plain) (newTunnelConn (dl_streaming d) (if dl_streaming d then tunnelPipelineWidth else 0))"]
      exI [of _ d']) (auto simp: tc_established_def newTunnelConn_def)
qed

definition sample_dial_env :: "nat \<Rightarrow> post_env" where
  "sample_dial_env i =
     \<lparr>pe_send = (if i < 2 then (\<lambda>udp tok body. HttpErr)
        else control (\<lambda>_. replicate 32 0) toy_sealk toy_openk (\<lambda>t. t = ''token'') (\<lambda>p. [1, 2]) (replicate 512 0) (replicate 12 0)),
      pe_refresh = (\<lambda>_. ReauthFailed), pe_nonce = (\<lambda>_. replicate 12 0)\<rparr>"

theorem dial_through_faulty_network_witness:
  "\<exists>conn d'. Dial (\<lambda>_. replicate 32 0, toy_sealk, toy_openk) sample_dial_env int (replicate 16 7) ''example.org:443''
      (NewTunnelDialer ''token'' TunnelMonitor) = Some (Inr conn, d') \<and> tc_readBuf conn = [1, 2] \<and> OpenConns d' = 1"
proof -
  have wc: "working_control (\<lambda>_. replicate 32 0) toy_sealk toy_openk (\<lambda>p. [1, 2]) (replicate 512 0) (replicate 12 0)"
    using toy_aead by (simp add: working_control_def KeySize_def NonceSize_def minPadding_def)
  have "OpenConns (NewTunnelDialer ''token'' TunnelMonitor) = 0" "td_token (dl_td (NewTunnelDialer ''token'' TunnelMonitor)) = ''token''"
    by (simp_all add: OpenConns_def NewTunnelDialer_def newTunnelDialer_def)
  then show ?thesis
    using dial_through_faulty_network [OF wc, of 2 sample_dial_env "\<lambda>t. t = ''token''" "NewTunnelDialer ''token'' TunnelMonitor"
        "replicate 16 7" "''example.org:443''" int]
    by (auto simp: sample_dial_env_def NonceSize_def)
qed

end
