(* ===== verification/Peer_Probe.thy ===== *)
theory Peer_Probe
  imports UDP_Relay DHT_Node Host_Addr Tunnel_Frames
begin

text \<open>
  Three exchanges over raw UDP: the probe of a control (\<^verbatim>\<open>udp_control.go\<close>), the question for the external
  endpoint (\<^verbatim>\<open>nat.go\<close>) and hole punching (\<^verbatim>\<open>holepunch.go\<close>). Sockets are parameters: whether one opens, and
  the datagrams it delivers before the deadline, cut to the buffer of the reader. \<open>unm\<close> decodes the JSON
  of a ping with the round trip in nanoseconds. A panic is the outer \<^term>\<open>None\<close>.
\<close>

section \<open>Probing a control\<close>

definition udpControlProbeReqID :: u32 where "udpControlProbeReqID = 0xCAFEBABE"

definition default_port :: "string \<Rightarrow> string" where
  "default_port addr = (if SplitHostPort addr = None then addr @ '':443'' else addr)"

text \<open>The verdict on the answer that was read after the time \<open>elapsed\<close>.\<close>

definition probe_answer :: "(bytes \<Rightarrow> (bool \<times> int) option) \<Rightarrow> int \<Rightarrow> bytes \<Rightarrow> int option option" where
  "probe_answer unm elapsed data =
     (if length data < 15 then Some None
      else do {
        m \<leftarrow> get_be32 data;
        if m \<noteq> udpRelayMagic then Some None
        else do {
          d \<leftarrow> slice_from data 4;
          r \<leftarrow> get_be32 d;
          if r \<noteq> udpControlProbeReqID then Some None
          else do {
            t \<leftarrow> idx data 8;
            if t \<noteq> udpRelayTypeResponse then Some None
            else do {
              d \<leftarrow> slice_from data 9;
              st \<leftarrow> get_be16 d;
              if unat st \<noteq> 200 then Some None
              else do {
                d \<leftarrow> slice_from data 11;
                b \<leftarrow> get_be32 d;
                let bLen = unat b;
                if 15 + bLen > length data then Some None
                else do {
                  body \<leftarrow> slice data 15 (15 + bLen);
                  Some (case unm body of
                    None \<Rightarrow> None
                  | Some (ok, rtt) \<Rightarrow> if \<not> ok then None else if rtt > 0 then Some rtt else Some elapsed) } } } } } })"

text \<open>\<open>dial\<close>: the socket opens; \<open>net\<close> takes the frame and gives the datagram that answers it, if any, with
  the time that passed.\<close>

definition probeControlUDP ::
  "(bytes \<Rightarrow> (bool \<times> int) option) \<Rightarrow> (string \<Rightarrow> bool) \<Rightarrow> (bytes \<Rightarrow> (bytes \<times> int) option) \<Rightarrow> string \<Rightarrow> int option option" where
  "probeControlUDP unm dial net addr =
     (if \<not> dial (default_port addr) then Some None
      else do {
        frame \<leftarrow> udpEncodeRequest udpControlProbeReqID ''/p/v1/ping'' [] [];
        case net frame of
          None \<Rightarrow> Some None
        | Some (dgram, elapsed) \<Rightarrow> probe_answer unm elapsed (take 512 dgram) })"

definition newUDPControlConn :: "(string \<Rightarrow> bool) \<Rightarrow> string \<Rightarrow> UDPRelayConn option" where
  "newUDPControlConn dial addr = (if dial (default_port addr) then Some (NewUDPRelayConn []) else None)"

section \<open>External endpoint\<close>

record ExternalEndpoint =
  ee_IP :: ip
  ee_Port :: nat

definition endpoint_String :: "ExternalEndpoint \<Rightarrow> string" where
  "endpoint_String e = IP_String (ee_IP e) @ '':'' @ itoa (int (ee_Port e))"

definition natReflectorKey :: "(bytes \<Rightarrow> bytes) \<Rightarrow> bytes" where
  "natReflectorKey blake = blake (to_bytes ''snc-udp-reflect-v1'')"

datatype nat_error = NatAead | NatResolve | NatDial | NatSend | NatRecv | NatTooShort | NatDecrypt | NatPayload | NatFamily | NatTruncated

definition nat_request :: "keyed_seal \<Rightarrow> bytes \<Rightarrow> bytes \<Rightarrow> nat \<Rightarrow> bytes" where
  "nat_request sealk key nonce ms = nonce @ sealk key nonce (be_bytes 8 ms)"

definition nat_payload :: "bytes \<Rightarrow> (nat_error + ExternalEndpoint) option" where
  "nat_payload resp =
     (if length resp < 4 then Some (Inl NatPayload)
      else do {
        f \<leftarrow> get_be16 resp;
        if unat f \<noteq> 4 \<and> unat f \<noteq> 6 then Some (Inl NatFamily)
        else
          let ipLen = (if unat f = 4 then 4 else 16) in
          if length resp < 2 + ipLen + 2 then Some (Inl NatTruncated)
          else do {
            a \<leftarrow> slice resp 2 (2 + ipLen);
            d \<leftarrow> slice_from resp (2 + ipLen);
            p \<leftarrow> get_be16 d;
            Some (Inr \<lparr>ee_IP = a, ee_Port = unat p\<rparr>) } })"

definition nat_response :: "keyed_open \<Rightarrow> bytes \<Rightarrow> bytes \<Rightarrow> (nat_error + ExternalEndpoint) option" where
  "nat_response openk key pkt =
     (if length pkt < NonceSize + 2 + 4 + 2 + aead_Overhead then Some (Inl NatTooShort)
      else do {
        nonce \<leftarrow> slice pkt 0 NonceSize;
        ct \<leftarrow> slice_from pkt NonceSize;
        case openk key nonce ct of
          None \<Rightarrow> Some (Inl NatDecrypt)
        | Some resp \<Rightarrow> nat_payload resp })"

text \<open>\<open>dial\<close> and \<open>send\<close> tell whether the socket opens and takes the request; \<open>net\<close> is the answer to a request.\<close>

definition probeExternalEndpoint ::
  "(bytes \<Rightarrow> bytes) \<Rightarrow> keyed_seal \<Rightarrow> keyed_open \<Rightarrow> bytes \<Rightarrow> nat \<Rightarrow> bool \<Rightarrow> bool \<Rightarrow> bool \<Rightarrow> (bytes \<Rightarrow> bytes option) \<Rightarrow>
   (nat_error + ExternalEndpoint) option" where
  "probeExternalEndpoint blake sealk openk nonce ms resolved dial send net =
     (let key = natReflectorKey blake in
      if length key \<noteq> KeySize then Some (Inl NatAead)
      else if \<not> resolved then Some (Inl NatResolve)
      else if \<not> dial then Some (Inl NatDial)
      else if \<not> send then Some (Inl NatSend)
      else case net (nat_request sealk key nonce ms) of
        None \<Rightarrow> Some (Inl NatRecv)
      | Some dgram \<Rightarrow> nat_response openk key (take 256 dgram))"

section \<open>Hole punching\<close>


definition punch_probe :: "aead_seal \<Rightarrow> byte \<Rightarrow> bytes \<Rightarrow> bytes \<Rightarrow> bytes" where
  "punch_probe sealf padByte rnd nonce = Seal sealf MsgHolePunch 1 [] padByte rnd nonce"

text \<open>The receiving loop over the datagrams that arrive before the deadline: the result tells whether a
  probe of the peer was among them.\<close>

fun punch :: "aead_open \<Rightarrow> bytes list \<Rightarrow> bool option" where
  "punch openf [] = Some False"
| "punch openf (d # ds) = do {
     r \<leftarrow> Open openf (take 256 d);
     case r of
       Inl e \<Rightarrow> punch openf ds
     | Inr (msgType, ttl, body) \<Rightarrow> if msgType \<noteq> MsgHolePunch then punch openf ds else Some True }"

section \<open>Facts\<close>

lemma probe_answer_total [panic_free]: "returns (probe_answer unm elapsed data)"
  unfolding probe_answer_def by (intro returns_intros) (auto dest!: slice_lengths)

text \<open>The probe never panics, and a control that answers it with the relay codec, status 200 and a ping that
  is ok is found alive, with the time it reports; an answer that does not fit the buffer is refused.\<close>

lemma probeControlUDP_total: "returns (probeControlUDP unm dial net addr)"
  unfolding probeControlUDP_def
  by (auto simp: udpEncodeRequest_layout returns_Some probe_answer_total split: option.split)

lemma probe_answer_encode:
  assumes "udpEncodeResponse udpControlProbeReqID 200 body = Some bs" and "length body \<le> 497" and "unm body = Some (True, rtt)"
  shows "probe_answer unm elapsed (take 512 bs) = Some (Some (if rtt > 0 then rtt else elapsed))"
proof -
  have bs: "bs = put_be32 udpRelayMagic @ put_be32 udpControlProbeReqID @ [udpRelayTypeResponse] @
      put_be16 200 @ put_be32 (word_of_nat (length body)) @ body"
    using assms(1) by (simp add: udpEncodeResponse_layout)
  then have "take 512 bs = bs" using assms(2) by simp
  moreover have "length body < 4294967296" using assms(2) by simp
  ultimately show ?thesis
    unfolding bs probe_answer_def using assms(3) by (simp add: Let_def drop_Cons' nth_append)
qed

lemma nat_payload_total [panic_free]: "returns (nat_payload resp)"
  unfolding nat_payload_def Let_def by (intro returns_intros) (auto dest!: slice_lengths)

lemma nat_response_total: "returns (nat_response openk key pkt)"
  unfolding nat_response_def
  by (auto simp: slice_def slice_from_def NonceSize_def returns_Some nat_payload_total split: option.split)

text \<open>The endpoint a reflector seals is the endpoint the client reads.\<close>

lemma nat_round_trip:
  assumes "aead (sealk key) (openk key)" and "length nonce = NonceSize" and "port < 65536"
    and "length a = 4 \<and> fam = 4 \<or> length a = 16 \<and> fam = 6"
  shows "nat_response openk key (nonce @ sealk key nonce (put_be16 fam @ a @ put_be16 (word_of_nat port))) =
    Some (Inr \<lparr>ee_IP = a, ee_Port = port\<rparr>)"
proof -
  let ?p = "put_be16 fam @ a @ put_be16 (word_of_nat port)"
  have open': "openk key nonce (sealk key nonce ?p) = Some ?p" and len: "length (sealk key nonce ?p) = length ?p + aead_Overhead"
    using assms(1,2) by (auto simp: aead_def)
  have "get_be16 (put_be16 (word_of_nat port)) = Some (word_of_nat port :: u16)"
    using get_put_be16 [of "word_of_nat port" "[]"] by simp
  then have "nat_payload ?p = Some (Inr \<lparr>ee_IP = a, ee_Port = port\<rparr>)"
    using assms(3,4) by (auto simp: nat_payload_def Let_def slice_def slice_from_def)
  then show ?thesis
    using open' len assms(2,4) by (auto simp: nat_response_def slice_def slice_from_def)
qed

lemma punch_iff:
  assumes "\<forall>d \<in> set ds. returns (Open openf (take 256 d))"
  shows "punch openf ds = Some (\<exists>d \<in> set ds. \<exists>ttl body. Open openf (take 256 d) = Some (Inr (MsgHolePunch, ttl, body)))"
  using assms
proof (induction ds)
  case (Cons d ds)
  then obtain r where "Open openf (take 256 d) = Some r" by (auto simp: returns_def)
  then show ?case using Cons by (cases r) auto
qed simp

text \<open>A probe is smaller than the buffer of the peer, which accepts it whatever else arrives.\<close>

lemma probe_punches:
  assumes "aead sealf openf" and "length nonce = NonceSize" and "unat (padByte AND 0x0F) \<le> length rnd"
  shows "punch openf (pre @ punch_probe sealf padByte rnd nonce # post) = Some True"
proof -
  let ?d = "punch_probe sealf padByte rnd nonce"
  have "length ?d \<le> 256"
    using assms padLen_less [of padByte] seal_plain_layout [OF refl assms(3), of MsgHolePunch 1 "[]"]
    by (simp add: punch_probe_def Seal_def aead_def NonceSize_def aead_Overhead_def)
  then have "Open openf (take 256 ?d) = Some (Inr (MsgHolePunch, 1, []))"
    using Open_Seal [OF assms] by (simp add: punch_probe_def)
  then show ?thesis
    using punch_iff [of "pre @ ?d # post" openf] Open_total [OF assms(1)] by (auto simp: returns_def)
qed

end
