(* ===== verification/Node_Identity.thy ===== *)
theory Node_Identity
  imports Relay_Store "HOL-Library.Sublist"
begin

text \<open>
  The identity of a node (\<^verbatim>\<open>nodeid.go\<close>, \<^verbatim>\<open>nodeid_other.go\<close>), the relay entries it signs, and the check
  of signed payloads (\<^verbatim>\<open>key.go\<close>). \<^verbatim>\<open>ed25519\<close> and the platform's encryption of files are parameters;
  \<open>ed25519_ok\<close> states what the documentation of the former promises. The two files are part of the
  state. A failed write may leave anything in its file: it is the argument of \<open>WriteFailed\<close>.
\<close>

section \<open>Strings\<close>

text \<open>\<^verbatim>\<open>base64.RawURLEncoding.EncodeToString\<close>.\<close>

definition b64_digit :: "nat \<Rightarrow> char" where
  "b64_digit n = (if n < 26 then char_of (65 + n) else if n < 52 then char_of (71 + n) else if n < 62 then char_of (n - 4)
     else if n = 62 then CHR ''-'' else CHR ''_'')"

fun base64_encode :: "bytes \<Rightarrow> string" where
  "base64_encode [] = []"
| "base64_encode [a] = map b64_digit [unat a div 4, unat a mod 4 * 16]"
| "base64_encode [a, b] = map b64_digit [unat a div 4, unat a mod 4 * 16 + unat b div 16, unat b mod 16 * 4]"
| "base64_encode (a # b # c # r) =
     map b64_digit [unat a div 4, unat a mod 4 * 16 + unat b div 16, unat b mod 16 * 4 + unat c div 64, unat c mod 64]
     @ base64_encode r"

text \<open>\<^verbatim>\<open>strings.TrimSpace\<close>: the encodings of the Unicode white space characters are removed on both ends.\<close>

definition space_codes :: "nat list list" where
  "space_codes = [[9], [10], [11], [12], [13], [32], [0xC2, 0x85], [0xC2, 0xA0], [0xE1, 0x9A, 0x80]]
     @ map (\<lambda>n. [0xE2, 0x80, n]) ([0x80..<0x8B] @ [0xA8, 0xA9, 0xAF]) @ [[0xE2, 0x81, 0x9F], [0xE3, 0x80, 0x80]]"

definition spaces :: "string list" where "spaces = map (map char_of) space_codes"

fun trim_left :: "nat \<Rightarrow> string list \<Rightarrow> string \<Rightarrow> string" where
  "trim_left 0 ws s = s"
| "trim_left (Suc n) ws s = (case find (\<lambda>w. prefix w s) ws of None \<Rightarrow> s | Some w \<Rightarrow> trim_left n ws (drop (length w) s))"

definition TrimSpace :: "string \<Rightarrow> string" where
  "TrimSpace s = (let l = trim_left (length s) spaces s in rev (trim_left (length l) (map rev spaces) (rev l)))"

text \<open>\<^verbatim>\<open>hex.DecodeString\<close> with its error ignored: the bytes before the first bad digit.\<close>

fun hex_prefix :: "string \<Rightarrow> bytes" where
  "hex_prefix (a # b # r) = (case (hex_value a, hex_value b) of
     (Some x, Some y) \<Rightarrow> word_of_nat (16 * x + y) # hex_prefix r
   | _ \<Rightarrow> [])"
| "hex_prefix _ = []"

section \<open>The identity\<close>

record node_state =
  ns_pub :: "bytes option"
  ns_priv :: "bytes option"
  ns_pubFile :: "bytes option"
  ns_keyFile :: "bytes option"

datatype write_result = WriteOK | WriteFailed "bytes option"

record id_env =
  ie_generate :: "(bytes \<times> bytes) option"
  ie_encrypt :: "bytes \<Rightarrow> bytes option"
  ie_decrypt :: "bytes \<Rightarrow> bytes option"
  ie_mkdir :: bool
  ie_writePub :: write_result
  ie_writeKey :: write_result

text \<open>Encryption on platforms without a key store.\<close>

definition nodeIDEncrypt :: "bytes \<Rightarrow> bytes option" where "nodeIDEncrypt plain = Some plain"
definition nodeIDDecrypt :: "bytes \<Rightarrow> bytes option" where "nodeIDDecrypt enc = Some enc"

datatype id_error = IDGenerate | IDMkdir | IDWritePub | IDEncrypt | IDWriteKey

text \<open>The identity on disk, if it can be used.\<close>

definition load_identity :: "id_env \<Rightarrow> node_state \<Rightarrow> (string \<times> bytes) option" where
  "load_identity env s = do {
     pubHex \<leftarrow> ns_pubFile s;
     let i = TrimSpace (of_bytes pubHex);
     if length i \<noteq> 64 then None
     else do {
       encPriv \<leftarrow> ns_keyFile s;
       priv \<leftarrow> ie_decrypt env encPriv;
       if length priv \<noteq> 64 then None else Some (i, priv) } }"

definition generate_identity :: "id_env \<Rightarrow> node_state \<Rightarrow> (id_error + string) \<times> node_state" where
  "generate_identity env s = (case ie_generate env of
     None \<Rightarrow> (Inl IDGenerate, s)
   | Some (pub, priv) \<Rightarrow>
      if \<not> ie_mkdir env then (Inl IDMkdir, s)
      else (case ie_writePub env of
          WriteFailed f \<Rightarrow> (Inl IDWritePub, s\<lparr>ns_pubFile := f\<rparr>)
        | WriteOK \<Rightarrow>
           (let i = hex_encode pub; s1 = s\<lparr>ns_pubFile := Some (to_bytes i)\<rparr> in
            case ie_encrypt env priv of
              None \<Rightarrow> (Inl IDEncrypt, s1)
            | Some encPriv \<Rightarrow>
               (case ie_writeKey env of
                  WriteFailed f \<Rightarrow> (Inl IDWriteKey, s1\<lparr>ns_keyFile := f\<rparr>)
                | WriteOK \<Rightarrow> (Inr i, s1\<lparr>ns_keyFile := Some encPriv, ns_pub := Some pub, ns_priv := Some priv\<rparr>)))))"

definition LoadOrGenNodeID :: "id_env \<Rightarrow> node_state \<Rightarrow> (id_error + string) \<times> node_state" where
  "LoadOrGenNodeID env s = (case load_identity env s of
     Some (i, priv) \<Rightarrow> (Inr i, s\<lparr>ns_priv := Some priv, ns_pub := Some (hex_prefix i)\<rparr>)
   | None \<Rightarrow> generate_identity env s)"

definition SignNodePayload :: "(bytes \<Rightarrow> bytes \<Rightarrow> bytes) \<Rightarrow> bytes \<Rightarrow> node_state \<Rightarrow> bytes option" where
  "SignNodePayload sign payload s = map_option (\<lambda>priv. sign priv payload) (ns_priv s)"

definition BuildSignedRelayEntry ::
  "(bytes \<Rightarrow> bytes \<Rightarrow> bytes) \<Rightarrow> int \<Rightarrow> string \<Rightarrow> string \<Rightarrow> string \<Rightarrow> node_state \<Rightarrow> RelayEntry option" where
  "BuildSignedRelayEntry sign now nodeID addr cc s =
     (let entry = \<lparr>NodeID = nodeID, reAddr = addr, CountryCode = cc, TS = now, Sig = []\<rparr> in
      map_option (\<lambda>sig. entry\<lparr>Sig := base64_encode sig\<rparr>) (SignNodePayload sign (relayEntryPayload entry) s))"

section \<open>Signed payloads\<close>

datatype payload_error = EmptyPubkey | InvalidPubkey | InvalidSigEncoding | PayloadSigFailed

definition VerifySignedPayload ::
  "(bytes \<Rightarrow> bytes \<Rightarrow> bytes \<Rightarrow> bool) \<Rightarrow> bytes \<Rightarrow> string \<Rightarrow> string \<Rightarrow> payload_error option" where
  "VerifySignedPayload edv payload pubkeyHex sigB64 =
     (if pubkeyHex = [] then Some EmptyPubkey
      else case hex_decode pubkeyHex of
        None \<Rightarrow> Some InvalidPubkey
      | Some pubBytes \<Rightarrow>
         if length pubBytes \<noteq> 32 then Some InvalidPubkey
         else (case base64_decode sigB64 of
             None \<Rightarrow> Some InvalidSigEncoding
           | Some sig \<Rightarrow>
              if length sig \<noteq> 64 then Some InvalidSigEncoding
              else if \<not> edv pubBytes payload sig then Some PayloadSigFailed
              else None))"

section \<open>Facts\<close>

lemma byte_split: "unat (a :: byte) < 256"
  using unsigned_less [of a, where ?'a = nat] by simp

lemma of_char_b64_digit:
  "n < 64 \<Longrightarrow> (of_char (b64_digit n) :: nat) =
     (if n < 26 then 65 + n else if n < 52 then 71 + n else if n < 62 then n - 4 else if n = 62 then 45 else 95)"
  by (simp add: b64_digit_def)

lemma b64_value_digit: "n < 64 \<Longrightarrow> b64_value (b64_digit n) = Some n"
  by (auto simp: b64_value_def of_char_b64_digit Let_def)

lemma b64_digit_no_newline: "n < 64 \<Longrightarrow> b64_digit n \<noteq> CHR 0x0A \<and> b64_digit n \<noteq> CHR 0x0D"
proof -
  assume "n < 64"
  then have "(of_char (b64_digit n) :: nat) \<noteq> of_char (CHR 0x0A) \<and> (of_char (b64_digit n) :: nat) \<noteq> of_char (CHR 0x0D)"
    by (auto simp: of_char_b64_digit)
  then show ?thesis by metis
qed

lemma base64_decode_digits:
  "\<forall>n \<in> set ns. n < 64 \<Longrightarrow> base64_decode (map b64_digit ns) = b64_quanta ns"
proof -
  assume ns: "\<forall>n \<in> set ns. n < 64"
  then have "filter (\<lambda>c. c \<noteq> CHR 0x0A \<and> c \<noteq> CHR 0x0D) (map b64_digit ns) = map b64_digit ns"
    by (auto simp: filter_id_conv b64_digit_no_newline)
  moreover have "those (map b64_value (map b64_digit ns)) = Some ns"
    using ns by (induction ns) (simp_all add: b64_value_digit)
  ultimately show ?thesis by (simp add: base64_decode_def)
qed

fun b64_digits :: "bytes \<Rightarrow> nat list" where
  "b64_digits [] = []"
| "b64_digits [a] = [unat a div 4, unat a mod 4 * 16]"
| "b64_digits [a, b] = [unat a div 4, unat a mod 4 * 16 + unat b div 16, unat b mod 16 * 4]"
| "b64_digits (a # b # c # r) =
     [unat a div 4, unat a mod 4 * 16 + unat b div 16, unat b mod 16 * 4 + unat c div 64, unat c mod 64] @ b64_digits r"

lemma base64_encode_digits: "base64_encode bs = map b64_digit (b64_digits bs)"
  by (induction bs rule: b64_digits.induct) simp_all

lemma b64_bounds [simp]:
  "unat (a :: byte) div 4 < 64" "unat a mod 4 * 16 < 64" "unat a mod 16 * 4 < 64"
  "unat a mod 4 * 16 + unat (b :: byte) div 16 < 64" "unat a mod 16 * 4 + unat b div 64 < 64"
proof -
  have "unat a div 4 < 64" "unat b div 16 < 16" "unat b div 64 < 4" "unat a mod 4 < 4" "unat a mod 16 < 16"
    using byte_split [of a] byte_split [of b] by (simp_all add: less_mult_imp_div_less)
  then show "unat a div 4 < 64" "unat a mod 4 * 16 < 64" "unat a mod 16 * 4 < 64"
    "unat a mod 4 * 16 + unat b div 16 < 64" "unat a mod 16 * 4 + unat b div 64 < 64" by linarith+
qed

lemma b64_digits_small: "\<forall>n \<in> set (b64_digits bs). n < 64"
  by (induction bs rule: b64_digits.induct) simp_all

lemma word_of_nat_byte: "n mod 256 = unat (a :: byte) \<Longrightarrow> word_of_nat n = a"
  by (simp add: word_unat_eq_iff unat_of_nat)

text \<open>The bytes of a quantum, as numbers.\<close>

lemma quantum_first: "b < 256 \<Longrightarrow> 4 * (a div 4) + (a mod 4 * 16 + b div 16) div 16 = (a :: nat)"
proof -
  assume "b < 256"
  then have "b div 16 < 16" by (simp add: less_mult_imp_div_less)
  then have "(b div 16 + a mod 4 * 16) div 16 = a mod 4" by simp
  then show ?thesis by (simp add: add.commute)
qed

lemma quantum_second: "c < 256 \<Longrightarrow> (16 * (x * 16 + b div 16) + (b mod 16 * 4 + c div 64) div 4) mod 256 = (b :: nat) mod 256"
proof -
  assume "c < 256"
  then have "c div 64 < 4" by (simp add: less_mult_imp_div_less)
  then have "(c div 64 + b mod 16 * 4) div 4 = b mod 16" by simp
  then have "16 * (x * 16 + b div 16) + (b mod 16 * 4 + c div 64) div 4 = b + x * 256" by (simp add: add.commute algebra_simps)
  then show ?thesis by simp
qed

lemma quantum_third: "(64 * (x * 4 + c div 64) + c mod 64) mod 256 = (c :: nat) mod 256"
proof -
  have "64 * (x * 4 + c div 64) + c mod 64 = c + x * 256" by (simp add: algebra_simps)
  then show ?thesis by simp
qed

lemma quantum_bytes:
  "word_of_nat (4 * (unat a div 4) + unat a mod 4 * 16 div 16) = (a :: byte)"
  "word_of_nat (4 * (unat a div 4) + (unat a mod 4 * 16 + unat b div 16) div 16) = a"
  "word_of_nat (16 * (unat a mod 4 * 16 + unat b div 16) + unat b mod 16 * 4 div 4) = (b :: byte)"
  "word_of_nat (16 * (unat a mod 4 * 16 + unat b div 16) + (unat b mod 16 * 4 + unat c div 64) div 4) = b"
  "word_of_nat (64 * (unat b mod 16 * 4 + unat c div 64) + unat c mod 64) = (c :: byte)"
proof -
  have word_of_nat_unat: "word_of_nat (unat w) = w" for w :: byte by simp
  note small = mod_less [OF byte_split]
  note b = byte_split [of b] and c = byte_split [of c]
  have "4 * (unat a div 4) + unat a mod 4 * 16 div 16 = unat a" using quantum_first [of 0 "unat a"] by simp
  then show "word_of_nat (4 * (unat a div 4) + unat a mod 4 * 16 div 16) = a" by (simp only: word_of_nat_unat)
  show "word_of_nat (4 * (unat a div 4) + (unat a mod 4 * 16 + unat b div 16) div 16) = a"
    by (simp only: quantum_first [OF b] word_of_nat_unat)
  show "word_of_nat (16 * (unat a mod 4 * 16 + unat b div 16) + (unat b mod 16 * 4 + unat c div 64) div 4) = b"
    by (rule word_of_nat_byte) (simp only: quantum_second [OF c] small)
  show "word_of_nat (16 * (unat a mod 4 * 16 + unat b div 16) + unat b mod 16 * 4 div 4) = b"
    by (rule word_of_nat_byte) (use quantum_second [of 0 "unat a mod 4" "unat b"] in \<open>simp only: small div_0 add_0_right zero_less_numeral\<close>)
  show "word_of_nat (64 * (unat b mod 16 * 4 + unat c div 64) + unat c mod 64) = c"
    by (rule word_of_nat_byte) (simp only: quantum_third small)
qed

lemma b64_quanta_digits: "b64_quanta (b64_digits bs) = Some bs"
  by (induction bs rule: b64_digits.induct)
    (simp_all only: b64_digits.simps b64_quanta.simps append.simps quantum_bytes option.map)

lemma base64_decode_encode [simp]: "base64_decode (base64_encode bs) = Some bs"
  by (simp add: base64_encode_digits base64_decode_digits [OF b64_digits_small] b64_quanta_digits)

section \<open>A node's entries are accepted\<close>

text \<open>What \<^verbatim>\<open>crypto/ed25519\<close> documents of a generated key pair: the sizes, and that its signatures verify.\<close>

definition ed25519_ok :: "(bytes \<Rightarrow> bytes \<Rightarrow> bytes) \<Rightarrow> (bytes \<Rightarrow> bytes \<Rightarrow> bytes \<Rightarrow> bool) \<Rightarrow> bytes \<Rightarrow> bytes \<Rightarrow> bool" where
  "ed25519_ok sign edv pub priv \<longleftrightarrow> length pub = 32 \<and> length priv = 64 \<and>
     (\<forall>msg. length (sign priv msg) = 64 \<and> edv pub msg (sign priv msg))"

lemma space_not_hex: "w \<in> set spaces \<Longrightarrow> w \<noteq> [] \<and> hex_value (hd w) = None \<and> hex_value (last w) = None"
proof -
  have "list_all (\<lambda>w. w \<noteq> [] \<and> hex_value (hd w) = None \<and> hex_value (last w) = None) spaces"
    by (simp add: spaces_def space_codes_def hex_value_def upt_conv_Cons)
  then show "w \<in> set spaces \<Longrightarrow> ?thesis" by (simp add: list_all_iff)
qed

lemma trim_left_hex:
  assumes "\<forall>w \<in> set ws. w \<noteq> [] \<and> hex_value (hd w) = None" and "\<forall>c \<in> set s. hex_value c \<noteq> None"
  shows "trim_left n ws s = s"
proof -
  have "\<not> prefix w s" if "w \<in> set ws" for w
    using assms that by (cases w) (auto simp: prefix_def)
  then have "find (\<lambda>w. prefix w s) ws = None" by (auto simp: find_None_iff)
  then show ?thesis by (cases n) auto
qed

lemma TrimSpace_hex: "\<forall>c \<in> set s. hex_value c \<noteq> None \<Longrightarrow> TrimSpace s = s"
  using trim_left_hex [of spaces s] trim_left_hex [of "map rev spaces" "rev s"] space_not_hex
  by (simp add: TrimSpace_def hd_rev)

lemma hex_encode_chars: "c \<in> set (hex_encode bs) \<Longrightarrow> hex_value c \<noteq> None"
  by (induction bs rule: hex_encode.induct) (auto simp: hex_value_hex_digit less_mult_imp_div_less byte_split)

lemma hex_prefix_encode: "hex_decode s = Some bs \<Longrightarrow> hex_prefix s = bs"
  by (induction s arbitrary: bs rule: hex_decode.induct) (auto split: bind_splits option.splits)

definition holds_identity :: "string \<Rightarrow> bytes \<Rightarrow> bytes \<Rightarrow> node_state \<Rightarrow> bool" where
  "holds_identity i pub priv s \<longleftrightarrow> ns_pub s = Some pub \<and> ns_priv s = Some priv \<and> i = hex_encode pub"

lemma generate_holds:
  assumes "generate_identity env s = (Inr i, s')"
  shows "\<exists>pub priv enc. ie_generate env = Some (pub, priv) \<and> ie_encrypt env priv = Some enc \<and>
    holds_identity i pub priv s' \<and> ns_pubFile s' = Some (to_bytes i) \<and> ns_keyFile s' = Some enc"
  using assms by (auto simp: generate_identity_def holds_identity_def Let_def split: option.splits write_result.splits if_splits)

lemma reload_identity:
  assumes "ns_pubFile s = Some (to_bytes (hex_encode pub))" and "ns_keyFile s = Some enc" and "ie_decrypt env enc = Some priv"
    and "length pub = 32" and "length priv = 64"
  shows "\<exists>s'. LoadOrGenNodeID env s = (Inr (hex_encode pub), s') \<and> holds_identity (hex_encode pub) pub priv s'"
proof -
  have "TrimSpace (hex_encode pub) = hex_encode pub" by (intro TrimSpace_hex ballI hex_encode_chars)
  then have "load_identity env s = Some (hex_encode pub, priv)"
    using assms by (simp add: load_identity_def)
  then show ?thesis by (simp add: LoadOrGenNodeID_def holds_identity_def hex_prefix_encode)
qed

lemma BuildSignedRelayEntry_verifies:
  assumes "holds_identity i pub priv s" and "ed25519_ok sign edv pub priv"
  shows "\<exists>e. BuildSignedRelayEntry sign now i addr cc s = Some e \<and> VerifyRelayEntry edv e = None \<and>
    NodeID e = i \<and> reAddr e = addr \<and> CountryCode e = cc \<and> TS e = now"
proof -
  show ?thesis
    using assms by (auto simp: relayEntryPayload_def BuildSignedRelayEntry_def SignNodePayload_def holds_identity_def ed25519_ok_def VerifyRelayEntry_ok Let_def)
qed


definition sample_pub :: bytes where "sample_pub = replicate 32 5"

definition sample_id_env :: id_env where
  "sample_id_env = \<lparr>ie_generate = Some (sample_pub, sample_pub @ sample_pub), ie_encrypt = nodeIDEncrypt, ie_decrypt = nodeIDDecrypt,
     ie_mkdir = True, ie_writePub = WriteOK, ie_writeKey = WriteOK\<rparr>"

definition empty_node :: node_state where
  "empty_node = \<lparr>ns_pub = None, ns_priv = None, ns_pubFile = None, ns_keyFile = None\<rparr>"

text \<open>A key pair whose public half is the first half of the private key and of every signature.\<close>

lemma sample_ed25519: "ed25519_ok (\<lambda>priv msg. take 64 priv) (\<lambda>pub msg sig. take 32 sig = pub) sample_pub (sample_pub @ sample_pub)"
  by (simp add: ed25519_ok_def sample_pub_def)


text \<open>A file of 64 characters that are no hex digits is taken as the node's id, and no peer accepts it.\<close>

lemma corrupt_id_never_accepted:
  assumes "load_identity env s = Some (i, priv)" and "hex_decode i = None" and "NodeID e = i"
  shows "fst (LoadOrGenNodeID env s) = Inr i" and "fst (relayStore_store edv now e store) \<noteq> None"
  using assms by (auto simp: LoadOrGenNodeID_def relayStore_store_def VerifyRelayEntry_def)

lemma VerifySignedPayload_ok:
  "VerifySignedPayload edv payload hex sig64 = None \<longleftrightarrow>
     (\<exists>pub sig. hex_decode hex = Some pub \<and> length pub = 32 \<and> base64_decode sig64 = Some sig \<and> length sig = 64 \<and> edv pub payload sig)"
  by (auto simp: VerifySignedPayload_def split: option.splits)

lemma VerifySignedPayload_own:
  "ed25519_ok sign edv pub priv \<Longrightarrow> VerifySignedPayload edv msg (hex_encode pub) (base64_encode (sign priv msg)) = None"
  by (simp add: VerifySignedPayload_ok ed25519_ok_def)

end
