(* ===== verification/Relay_API.thy ===== *)
theory Relay_API
  imports Tunnel_Auth Peer_Probe Node_Identity "HOL-Library.Multiset"
begin

text \<open>
  The calls of the relay API (\<^verbatim>\<open>relay.go\<close>) and the para-exit client (\<^verbatim>\<open>para_exit.go\<close>). HTTP answers, JSON
  decoders, \<^verbatim>\<open>ed25519.Sign\<close> and the file of the relay list are parameters. A yamux session is a state
  machine over what can happen to it.
\<close>

section \<open>Relay lists\<close>

record RelayListEntry =
  rl_NodeID :: string
  rl_Addr :: string
  rl_CountryCode :: string
  rl_ExpiresAt :: int

datatype api_error = ApiHTTP | ApiParse | ApiEmpty | ApiVersion | ApiStatus | ApiFile

definition FetchMyIP :: "(bytes \<Rightarrow> string option) \<Rightarrow> (string \<Rightarrow> http_result) \<Rightarrow> string \<Rightarrow> api_error + string" where
  "FetchMyIP unm http apiURL = (case http (trim_slashes apiURL @ ''/p/v1/myip'') of
     HttpErr \<Rightarrow> Inl ApiHTTP
   | HttpResp st body \<Rightarrow> (case unm body of
        None \<Rightarrow> Inl ApiParse
      | Some i \<Rightarrow> if i = [] then Inl ApiEmpty else Inr i))"

definition FetchRelayList ::
  "(bytes \<Rightarrow> (int \<times> RelayListEntry list) option) \<Rightarrow> (string \<Rightarrow> http_result) \<Rightarrow> int \<Rightarrow> string \<Rightarrow> api_error + RelayListEntry list" where
  "FetchRelayList unm http now apiURL = (case http (trim_slashes apiURL @ ''/p/v1/relay/list'') of
     HttpErr \<Rightarrow> Inl ApiHTTP
   | HttpResp st body \<Rightarrow> (case unm body of
        None \<Rightarrow> Inl ApiParse
      | Some (version, relays) \<Rightarrow>
         if version < 2 then Inl ApiVersion
         else Inr (filter (\<lambda>e. rl_NodeID e \<noteq> [] \<and> rl_Addr e \<noteq> [] \<and> rl_ExpiresAt e > now) relays)))"

text \<open>The file is absent, unreadable, or has a content.\<close>

datatype file_state = FileAbsent | FileUnreadable | FileData bytes

definition SaveRelayList ::
  "(RelayListEntry list \<Rightarrow> bytes) \<Rightarrow> bool \<Rightarrow> RelayListEntry list \<Rightarrow> file_state \<Rightarrow> bool \<times> file_state" where
  "SaveRelayList mar writable relays f = (if writable then (True, FileData (mar relays)) else (False, f))"

definition LoadRelayList :: "(bytes \<Rightarrow> RelayListEntry list option) \<Rightarrow> file_state \<Rightarrow> api_error + RelayListEntry list" where
  "LoadRelayList unm f = (case f of
     FileAbsent \<Rightarrow> Inr []
   | FileUnreadable \<Rightarrow> Inl ApiFile
   | FileData d \<Rightarrow> (case unm d of None \<Rightarrow> Inl ApiParse | Some rs \<Rightarrow> Inr rs))"

definition RelaysByCountry :: "string \<Rightarrow> RelayListEntry list \<Rightarrow> RelayListEntry list" where
  "RelaysByCountry preferCC relays =
     (if preferCC = [] \<or> relays = [] then relays
      else filter (\<lambda>r. rl_CountryCode r = preferCC) relays @ filter (\<lambda>r. rl_CountryCode r \<noteq> preferCC) relays)"

text \<open>Ordering by country is the stable sort that puts the preferred country first.\<close>

lemma RelaysByCountry_sort:
  "preferCC \<noteq> [] \<Longrightarrow> RelaysByCountry preferCC rs = sort_key (\<lambda>r. if rl_CountryCode r = preferCC then 0 else 1 :: nat) rs"
proof (induction rs)
  case (Cons r rs)
  let ?k = "\<lambda>r. if rl_CountryCode r = preferCC then 0 else 1 :: nat"
  have ins: "insort_key ?k x (filter (\<lambda>r. rl_CountryCode r = preferCC) as @ filter (\<lambda>r. rl_CountryCode r \<noteq> preferCC) bs) =
      (if rl_CountryCode x = preferCC then x # filter (\<lambda>r. rl_CountryCode r = preferCC) as @ filter (\<lambda>r. rl_CountryCode r \<noteq> preferCC) bs
       else filter (\<lambda>r. rl_CountryCode r = preferCC) as @ x # filter (\<lambda>r. rl_CountryCode r \<noteq> preferCC) bs)" for x and as bs :: "RelayListEntry list"
  proof (induction as)
    case Nil
    show ?case by (induction bs) auto
  next
    case (Cons a as)
    then show ?case by auto
  qed
  have "RelaysByCountry preferCC rs = filter (\<lambda>r. rl_CountryCode r = preferCC) rs @ filter (\<lambda>r. rl_CountryCode r \<noteq> preferCC) rs"
    using Cons.prems by (cases rs) (auto simp: RelaysByCountry_def)
  then show ?case using Cons ins [of r rs rs] by (simp add: RelaysByCountry_def)
qed (simp add: RelaysByCountry_def)

lemma relay_list_round_trip:
  "unm (mar rs) = Some rs \<Longrightarrow> SaveRelayList mar True rs f = (ok, f') \<Longrightarrow> ok \<and> LoadRelayList unm f' = Inr rs"
  by (auto simp: SaveRelayList_def LoadRelayList_def)

section \<open>Para-exit client\<close>

definition exitDialAddr :: "string \<Rightarrow> string" where "exitDialAddr addr = default_port addr"

definition fetchExits :: "(bytes \<Rightarrow> string list option) \<Rightarrow> (string \<Rightarrow> http_result) \<Rightarrow> string \<Rightarrow> api_error + string list" where
  "fetchExits unm http apiURL = (case http (apiURL @ ''/p/v1/para-exits'') of
     HttpErr \<Rightarrow> Inl ApiHTTP
   | HttpResp st body \<Rightarrow>
      if st \<noteq> 200 then Inl ApiStatus
      else (case unm (take (64 * 2 ^ 10) body) of
          None \<Rightarrow> Inl ApiParse
        | Some addrs \<Rightarrow> Inr (map exitDialAddr (filter (\<lambda>a. a \<noteq> []) addrs))))"

definition parseFirstJSON :: "(bytes \<Rightarrow> 'a option) \<Rightarrow> bytes \<Rightarrow> 'a option" where
  "parseFirstJSON unm buf = unm (takeWhile (\<lambda>b. b \<noteq> 10) buf)"

text \<open>The target a stream asks for: one read of at most 256 bytes, \<^term>\<open>None\<close> when it fails.\<close>

definition stream_target :: "(bytes \<Rightarrow> string option) \<Rightarrow> bytes option \<Rightarrow> string option" where
  "stream_target unm rd = (case rd of
     None \<Rightarrow> None
   | Some data \<Rightarrow>
      let hdr = take 256 data in
      if hdr = [] then None
      else (case parseFirstJSON unm hdr of None \<Rightarrow> None | Some t \<Rightarrow> if t = [] then None else Some t))"

text \<open>The fields of the registration frame: id, time and the signature over their encoding.\<close>

definition para_register :: "(string \<Rightarrow> int \<Rightarrow> bytes) \<Rightarrow> (bytes \<Rightarrow> bytes) \<Rightarrow> string \<Rightarrow> int \<Rightarrow> string \<times> int \<times> string" where
  "para_register mar sign nodeID ts = (nodeID, ts, base64_encode (sign (mar nodeID ts)))"

text \<open>One round of \<open>loop\<close>: the exits to connect to, the wait, and the next backoff.\<close>

definition para_round :: "api_error + string list \<Rightarrow> int \<Rightarrow> string list \<times> int \<times> int" where
  "para_round res bo = (case res of
     Inl e \<Rightarrow> ([], bo, if bo < 5 * minute then bo * 2 else bo)
   | Inr exits \<Rightarrow> (exits, if exits = [] then 5 * minute else 60 * minute, 10 * second))"

text \<open>The wait after a session of \<open>connectToExit\<close> and the next backoff; a planned reconnect does not wait.\<close>

definition connect_round :: "bool \<Rightarrow> int \<Rightarrow> int \<times> int" where
  "connect_round planned bo =
     (if planned then (0, second) else (bo, if bo < 60 * second then bo * 2 else bo))"

text \<open>A session. \<open>ps_timer\<close>: the goroutine of the planned reconnect still waits; \<open>ps_planned\<close>: its channel is
  closed; \<open>ps_open\<close>: the yamux session is open; \<open>ps_running\<close>: \<open>runSession\<close> has not returned.\<close>

record para_session =
  ps_timer :: bool
  ps_planned :: bool
  ps_open :: bool
  ps_running :: bool

definition new_session :: para_session where
  "new_session = \<lparr>ps_timer = True, ps_planned = False, ps_open = True, ps_running = True\<rparr>"

datatype para_event = TimerFired | ChildStop | ClientStop | RemoteClosed | AcceptLoop

definition para_step :: "para_event \<Rightarrow> para_session \<Rightarrow> para_session" where
  "para_step ev s = (case ev of
     TimerFired \<Rightarrow> if ps_timer s then s\<lparr>ps_timer := False, ps_planned := True, ps_open := False\<rparr> else s
   | ChildStop \<Rightarrow> s\<lparr>ps_timer := False\<rparr>
   | ClientStop \<Rightarrow> s\<lparr>ps_timer := False, ps_open := False\<rparr>
   | RemoteClosed \<Rightarrow> s\<lparr>ps_open := False\<rparr>
   | AcceptLoop \<Rightarrow> if ps_open s then s else s\<lparr>ps_running := False\<rparr>)"

text \<open>Backoffs stay bounded.\<close>

lemma para_backoff_bounded:
  "10 * second \<le> b \<Longrightarrow> b < 10 * minute \<Longrightarrow> 10 * second \<le> snd (snd (para_round res b)) \<and> snd (snd (para_round res b)) < 10 * minute"
  by (auto simp: para_round_def split: sum.split)

lemma connect_backoff_bounded:
  "second \<le> b \<Longrightarrow> b < 120 * second \<Longrightarrow> second \<le> snd (connect_round pl b) \<and> snd (connect_round pl b) < 120 * second"
  by (auto simp: connect_round_def)

text \<open>The hourly refresh of the exit list closes the channel of the children and waits for them. A running
  session is not closed by that: until the exit or the client closes it, it keeps accepting, and the
  planned reconnect no longer comes.\<close>

lemma refresh_waits_for_exit:
  assumes "ps_open s" and "ps_running s" and "set evs \<subseteq> {TimerFired, ChildStop, AcceptLoop}"
  shows "ps_open (fold para_step evs (para_step ChildStop s)) \<and> ps_running (fold para_step evs (para_step ChildStop s))"
proof -
  have "ps_open (fold para_step evs t) \<and> ps_running (fold para_step evs t) \<and> \<not> ps_timer (fold para_step evs t)"
    if "ps_open t" "ps_running t" "\<not> ps_timer t" for t
    using that assms(3)
  proof (induction evs arbitrary: t)
    case (Cons ev evs)
    have "ps_open (para_step ev t) \<and> ps_running (para_step ev t) \<and> \<not> ps_timer (para_step ev t)"
      using Cons.prems by (auto simp: para_step_def)
    then show ?case using Cons by simp
  qed simp
  then show ?thesis using assms(1,2) by (simp add: para_step_def)
qed

end
