(* ===== verification/Log_Rotation.thy ===== *)
theory Log_Rotation
  imports Prelude "HOL-Library.AList" "HOL-Library.Sublist" "HOL-Library.List_Lexorder" "HOL-Library.Char_ord"
begin

text \<open>
  Log files (\<^verbatim>\<open>log.go\<close>): the writer that starts a new file when the present one is full, and the pruning
  of old files. The names formatted from the time of day, the outcomes of file operations and the cutoff
  \<open>now - keepDays\<close> are arguments. The pruning that a rotation starts in the background is not part of
  \<open>rw_Write\<close>, and the setup of the package loggers is configuration.
\<close>


section \<open>Rotating writer\<close>

text \<open>\<open>rw_f\<close> is the name of the file and whether it is open; \<open>rw_fs\<close> the content of the files.\<close>

record rotatingWriter =
  rw_maxBytes :: int
  rw_f :: "string \<times> bool"
  rw_written :: int
  rw_fs :: "(string \<times> bytes) list"
  rw_stderr :: bytes

definition file_content :: "string \<Rightarrow> rotatingWriter \<Rightarrow> bytes" where
  "file_content n rw = (case map_of (rw_fs rw) n of None \<Rightarrow> [] | Some b \<Rightarrow> b)"

text \<open>Opening the file \<open>name\<close> for appending; \<^term>\<open>None\<close> when that fails. \<open>stat\<close> tells whether its size is known.\<close>

definition openNewLocked :: "string option \<Rightarrow> bool \<Rightarrow> rotatingWriter \<Rightarrow> rotatingWriter option" where
  "openNewLocked name stat rw = map_option (\<lambda>n.
     rw\<lparr>rw_f := (n, True), rw_written := (if stat then int (length (file_content n rw)) else 0),
        rw_fs := AList.update n (file_content n rw) (rw_fs rw)\<rparr>) name"

definition newRotatingWriter :: "int \<Rightarrow> string option \<Rightarrow> bool \<Rightarrow> (string \<times> bytes) list \<Rightarrow> rotatingWriter option" where
  "newRotatingWriter maxBytes name stat fs =
     openNewLocked name stat \<lparr>rw_maxBytes = maxBytes, rw_f = ([], False), rw_written = 0, rw_fs = fs, rw_stderr = []\<rparr>"

text \<open>Writing to the file: \<open>k\<close> is the number of bytes the system takes; a closed file takes none.\<close>

definition file_write :: "nat \<Rightarrow> bytes \<Rightarrow> rotatingWriter \<Rightarrow> nat \<times> rotatingWriter" where
  "file_write k p rw =
     (if \<not> snd (rw_f rw) then (0, rw)
      else (length (take k p),
        rw\<lparr>rw_fs := AList.update (fst (rw_f rw)) (file_content (fst (rw_f rw)) rw @ take k p) (rw_fs rw),
           rw_written := rw_written rw + int (length (take k p))\<rparr>))"

definition rw_Write :: "string option \<Rightarrow> bool \<Rightarrow> nat \<Rightarrow> bytes \<Rightarrow> rotatingWriter \<Rightarrow> nat \<times> rotatingWriter" where
  "rw_Write name stat k p rw =
     (if rw_written rw + int (length p) > rw_maxBytes rw then
        (let closed = rw\<lparr>rw_f := (fst (rw_f rw), False)\<rparr> in
         case openNewLocked name stat closed of
           None \<Rightarrow> (length p, closed\<lparr>rw_stderr := rw_stderr closed @ p\<rparr>)
         | Some rw1 \<Rightarrow> file_write k p rw1)
      else file_write k p rw)"

section \<open>Pruning\<close>

record dir_entry =
  en_name :: string
  en_isDir :: bool
  en_stat :: bool
  en_size :: int
  en_mod :: time

definition is_log :: "string \<Rightarrow> dir_entry \<Rightarrow> bool" where
  "is_log pre e \<longleftrightarrow> \<not> en_isDir e \<and> prefix pre (en_name e) \<and> suffix ''.log'' (en_name e) \<and>
     (case drop (length pre) (en_name e) of [] \<Rightarrow> False | c # cs \<Rightarrow> CHR ''0'' \<le> c \<and> c \<le> CHR ''9'')"

text \<open>The files removed to get below the limit; \<open>rm\<close> tells whether \<^verbatim>\<open>os.Remove\<close> succeeds.\<close>

fun prune_total :: "(string \<Rightarrow> bool) \<Rightarrow> int \<Rightarrow> int \<Rightarrow> dir_entry list \<Rightarrow> dir_entry list" where
  "prune_total rm limit tot [] = []"
| "prune_total rm limit tot (f # fs) =
     (if tot > limit then
        (if rm (en_name f) then f # prune_total rm limit (tot - en_size f) fs else prune_total rm limit tot fs)
      else [])"

definition logs_of :: "string \<Rightarrow> dir_entry list \<Rightarrow> dir_entry list" where
  "logs_of pre entries = sort_key en_name (filter (\<lambda>e. is_log pre e \<and> en_stat e) entries)"

definition pruneLogFiles :: "(string \<Rightarrow> bool) \<Rightarrow> time \<Rightarrow> string \<Rightarrow> int \<Rightarrow> dir_entry list \<Rightarrow> dir_entry list" where
  "pruneLogFiles rm cutoff pre totalBytes entries =
     (let logs = logs_of pre entries;
          old = filter (\<lambda>f. en_mod f < cutoff \<and> rm (en_name f)) logs;
          keep = filter (\<lambda>f. \<not> en_mod f < cutoff) logs;
          over = prune_total rm totalBytes (sum_list (map en_size keep)) keep;
          gone = map en_name (old @ over) in
      filter (\<lambda>e. en_name e \<notin> set gone) entries)"

section \<open>What the writer keeps\<close>

lemma file_write_open:
  assumes "snd (rw_f rw)" and "length p \<le> k"
  shows "fst (file_write k p rw) = length p"
    and "file_content n (snd (file_write k p rw)) = file_content n rw @ (if n = fst (rw_f rw) then p else [])"
    and "rw_written (snd (file_write k p rw)) = rw_written rw + int (length p)"
    and "rw_f (snd (file_write k p rw)) = rw_f rw" and "rw_maxBytes (snd (file_write k p rw)) = rw_maxBytes rw"
    and "rw_stderr (snd (file_write k p rw)) = rw_stderr rw"
  using assms by (simp_all add: file_write_def file_content_def update_conv')

lemma openNewLocked_open:
  assumes "openNewLocked name stat rw = Some rw1"
  shows "rw_f rw1 = (the name, True)" and "file_content n rw1 = file_content n rw" and "rw_maxBytes rw1 = rw_maxBytes rw"
    and "stat \<Longrightarrow> rw_written rw1 = int (length (file_content (the name) rw1))" and "rw_stderr rw1 = rw_stderr rw"
  using assms by (auto simp: openNewLocked_def file_content_def update_conv')

text \<open>With every operation successful a message is appended whole to one file, which is the present file if
  it has room and the newly opened one otherwise, and \<open>rw_written\<close> is the size of the present file.\<close>

lemma rw_Write_appends:
  assumes "snd (rw_f rw)" and "rw_written rw = int (length (file_content (fst (rw_f rw)) rw))" and "length p \<le> k"
    and "rw_Write (Some name) True k p rw = (n, rw')"
  shows "n = length p \<and> snd (rw_f rw') \<and> rw_written rw' = int (length (file_content (fst (rw_f rw')) rw')) \<and>
    (\<forall>f. file_content f rw' = file_content f rw @ (if f = fst (rw_f rw') then p else [])) \<and>
    fst (rw_f rw') = (if rw_written rw + int (length p) > rw_maxBytes rw then name else fst (rw_f rw))"
proof (cases "rw_written rw + int (length p) > rw_maxBytes rw")
  case True
  let ?c = "rw\<lparr>rw_f := (fst (rw_f rw), False)\<rparr>"
  obtain rw1 where o: "openNewLocked (Some name) True ?c = Some rw1" by (simp add: openNewLocked_def)
  note o1 = openNewLocked_open [OF o, simplified]
  have "file_content f ?c = file_content f rw" for f by (simp add: file_content_def)
  then show ?thesis
    using True o assms(3,4) o1 file_write_open [of rw1 p k] by (auto simp: rw_Write_def)
next
  case False
  then show ?thesis using assms file_write_open [OF assms(1,3)] by (auto simp: rw_Write_def)
qed

text \<open>After a rotation that failed, a shorter message that fits the closed file is written nowhere.\<close>

lemma failed_rotation_loses_messages:
  assumes "rw_written rw + int (length p) > rw_maxBytes rw" and "rw_written rw + int (length q) \<le> rw_maxBytes rw"
  shows "rw_Write name stat k q (snd (rw_Write None stat' k' p rw)) = (0, snd (rw_Write None stat' k' p rw))"
  using assms by (simp add: rw_Write_def openNewLocked_def file_write_def Let_def)

section \<open>What pruning keeps\<close>

lemma prune_total_prefix:
  assumes "\<forall>f \<in> set fs. rm (en_name f)"
  shows "\<exists>n. prune_total rm limit tot fs = take n fs \<and> n \<le> length fs \<and>
    (n = length fs \<or> tot - sum_list (map en_size (take n fs)) \<le> limit) \<and>
    (\<forall>j < n. tot - sum_list (map en_size (take j fs)) > limit)"
  using assms
proof (induction fs arbitrary: tot)
  case (Cons f fs)
  show ?case
  proof (cases "tot > limit")
    case True
    obtain n where n: "prune_total rm limit (tot - en_size f) fs = take n fs" "n \<le> length fs"
        "n = length fs \<or> tot - en_size f - sum_list (map en_size (take n fs)) \<le> limit"
        "\<forall>j < n. tot - en_size f - sum_list (map en_size (take j fs)) > limit"
      using Cons.IH [of "tot - en_size f"] Cons.prems by (elim meta_impE exE conjE) simp_all
    have "tot - sum_list (map en_size (take j (f # fs))) > limit" if "j < Suc n" for j
      using that True n(4) by (cases j) (auto simp: algebra_simps)
    moreover have "prune_total rm limit tot (f # fs) = take (Suc n) (f # fs)" using True Cons.prems n(1) by simp
    ultimately show ?thesis using n(2,3) by (intro exI [of _ "Suc n"]) (simp add: algebra_simps)
  next
    case False
    then show ?thesis by (intro exI [of _ 0]) auto
  qed
qed simp


text \<open>The young files of a directory in the order of their names.\<close>

definition young_logs :: "time \<Rightarrow> string \<Rightarrow> dir_entry list \<Rightarrow> dir_entry list" where
  "young_logs cutoff pre entries = filter (\<lambda>f. \<not> en_mod f < cutoff) (logs_of pre entries)"

lemma set_logs_of [simp]: "set (logs_of pre es) = {e \<in> set es. is_log pre e \<and> en_stat e}"
  by (auto simp: logs_of_def)

lemma young_sorted:
  assumes "distinct (map en_name es)"
  shows "sorted_wrt (<) (map en_name (young_logs c pre es))"
proof -
  have "distinct (map en_name (filter P es))" for P using assms by (rule distinct_map_filter)
  then have "distinct (map en_name (logs_of pre es))" by (simp add: logs_of_def distinct_map)
  then have "distinct (map en_name (young_logs c pre es))" unfolding young_logs_def by (rule distinct_map_filter)
  moreover have "sorted (map en_name (young_logs c pre es))"
    unfolding young_logs_def logs_of_def by (intro sorted_filter) simp
  ultimately show ?thesis by (simp add: strict_sorted_iff)
qed

lemma inj_names: "distinct (map en_name es) \<Longrightarrow> e \<in> set es \<Longrightarrow> f \<in> set es \<Longrightarrow> en_name e = en_name f \<longleftrightarrow> e = f"
  by (auto simp: distinct_map inj_on_def)

lemma pruned_set:
  assumes "distinct (map en_name es)" and "\<forall>e \<in> set es. is_log pre e \<longrightarrow> en_stat e \<and> rm (en_name e)"
    and "prune_total rm limit (sum_list (map en_size (young_logs c pre es))) (young_logs c pre es) = take n (young_logs c pre es)"
    and "e \<in> set es"
  shows "e \<in> set (pruneLogFiles rm c pre limit es) \<longleftrightarrow> \<not> is_log pre e \<or> e \<in> set (drop n (young_logs c pre es))"
proof -
  let ?y = "young_logs c pre es"
  have dy: "distinct ?y" using young_sorted [OF assms(1), of c pre] by (metis distinct_map strict_sorted_iff)
  have sub: "set (take n ?y) \<subseteq> set es" using set_take_subset [of n ?y] by (auto simp: young_logs_def)
  have names: "en_name e \<in> en_name ` A \<longleftrightarrow> e \<in> A" if "A \<subseteq> set es" for A
    using that assms(4) inj_names [OF assms(1)] by blast
  have y: "e \<in> set ?y \<longleftrightarrow> is_log pre e \<and> \<not> en_mod e < c" using assms(2,4) by (auto simp: young_logs_def)
  have split: "e \<in> set ?y \<longleftrightarrow> e \<in> set (take n ?y) \<or> e \<in> set (drop n ?y)" by (metis append_take_drop_id set_append Un_iff)
  have excl: "\<not> (e \<in> set (take n ?y) \<and> e \<in> set (drop n ?y))"
    using dy set_take_disj_set_drop_if_distinct [of ?y n n] by blast
  let ?old = "filter (\<lambda>f. en_mod f < c \<and> rm (en_name f)) (logs_of pre es)"
  have "e \<in> set (pruneLogFiles rm c pre limit es) \<longleftrightarrow> e \<notin> set ?old \<and> e \<notin> set (take n ?y)"
    using assms(3,4) names [of "set ?old"] names [OF sub]
    by (auto simp: pruneLogFiles_def Let_def young_logs_def)
  moreover have "e \<in> set ?old \<longleftrightarrow> is_log pre e \<and> en_mod e < c" using assms(2,4) by auto
  ultimately show ?thesis using y split excl by blast
qed

lemma sum_young:
  assumes "distinct (map en_name xs)" and "distinct (map en_name ys)" and "set xs = set ys"
  shows "sum_list (map en_size xs) = sum_list (map en_size ys)"
  using assms by (simp add: distinct_map sum_list_distinct_conv_sum_set)

lemma left_young:
  assumes "distinct (map en_name es)" and "\<forall>e \<in> set es. is_log pre e \<longrightarrow> en_stat e \<and> rm (en_name e)"
    and "prune_total rm limit (sum_list (map en_size (young_logs c pre es))) (young_logs c pre es) = take n (young_logs c pre es)"
  shows "sum_list (map en_size (young_logs c pre (pruneLogFiles rm c pre limit es))) = sum_list (map en_size (drop n (young_logs c pre es)))"
proof (rule sum_young)
  let ?l = "pruneLogFiles rm c pre limit es" and ?y = "young_logs c pre es"
  have sub: "set ?l \<subseteq> set es" and "distinct (map en_name ?l)"
    using assms(1) by (auto simp: pruneLogFiles_def Let_def distinct_map_filter)
  then show "distinct (map en_name (young_logs c pre ?l))" using young_sorted [of ?l c pre] by (simp add: strict_sorted_iff)
  show "distinct (map en_name (drop n ?y))"
    using young_sorted [OF assms(1), of c pre] by (simp add: strict_sorted_iff flip: drop_map)
  have y: "set (drop n ?y) \<subseteq> {e \<in> set es. is_log pre e \<and> en_stat e \<and> \<not> en_mod e < c}"
    using set_drop_subset [of n ?y] by (auto simp: young_logs_def)
  show "set (young_logs c pre ?l) = set (drop n ?y)"
    using pruned_set [OF assms] y sub unfolding young_logs_def [of c pre ?l] by auto
qed

lemma name_mono:
  assumes "sorted_wrt (<) (map en_name ys)" and "i \<le> k" and "k < length ys"
  shows "en_name (ys ! i) \<le> en_name (ys ! k)"
proof (cases "i = k")
  case False
  then have "map en_name ys ! i < map en_name ys ! k"
    using assms by (intro sorted_wrt_nth_less [of "(<)"]) auto
  then show ?thesis using assms False by simp
qed simp

lemma name_strict:
  assumes "sorted_wrt (<) (map en_name ys)" and "i < k" and "k < length ys"
  shows "en_name (ys ! i) < en_name (ys ! k)"
  using sorted_wrt_nth_less [OF assms(1,2)] assms by simp

lemma sorted_above:
  assumes "sorted_wrt (<) (map en_name ys)" and "j < length ys"
  shows "filter (\<lambda>f. en_name (ys ! j) \<le> en_name f) ys = drop j ys"
proof -
  have "\<not> en_name (ys ! j) \<le> en_name f" if "f \<in> set (take j ys)" for f
    using that name_strict [OF assms(1) _ assms(2)] by (auto simp: in_set_conv_nth not_le)
  then have "filter (\<lambda>f. en_name (ys ! j) \<le> en_name f) (take j ys) = []" by (simp add: filter_empty_conv)
  moreover have "en_name (ys ! j) \<le> en_name f" if f: "f \<in> set (drop j ys)" for f
  proof -
    obtain i where "i < length (drop j ys)" and "f = drop j ys ! i" using f by (auto simp: in_set_conv_nth)
    then show ?thesis using name_mono [OF assms(1), of j "j + i"] assms(2) by simp
  qed
  then have "filter (\<lambda>f. en_name (ys ! j) \<le> en_name f) (drop j ys) = drop j ys" by (simp add: filter_id_conv)
  ultimately have "filter (\<lambda>f. en_name (ys ! j) \<le> en_name f) (take j ys @ drop j ys) = drop j ys"
    by (simp only: filter_append append_Nil)
  then show ?thesis by (simp only: append_take_drop_id)
qed

lemma in_take_nth: "e \<in> set ys \<Longrightarrow> e \<notin> set (drop n ys) \<Longrightarrow> \<exists>j < n. j < length ys \<and> e = ys ! j"
proof -
  assume e: "e \<in> set ys" "e \<notin> set (drop n ys)"
  then have "e \<in> set (take n ys @ drop n ys)" by (simp only: append_take_drop_id)
  with e(2) have "e \<in> set (take n ys)" by (simp only: set_append Un_iff) blast
  then show ?thesis by (auto simp: in_set_conv_nth)
qed

text \<open>Property C35. Pruning a directory whose log files can be examined and removed: what is left of the log files
  with the prefix is no older than the cutoff and at most \<^verbatim>\<open>totalBytes\<close> large together; every other file is
  left alone, in particular those of a longer prefix; among the files that are young enough, only ones
  with smaller names, that is earlier time stamps, than all that stay are removed; and none is removed
  without need: it and the later ones together exceed the limit.\<close>

theorem pruning_bounds_logs:
  assumes "distinct (map en_name es)" and "\<forall>e \<in> set es. is_log pre e \<longrightarrow> en_stat e \<and> rm (en_name e)" and "0 \<le> limit"
    and "left = pruneLogFiles rm c pre limit es"
  shows "sum_list (map en_size (young_logs c pre left)) \<le> limit \<and>
    (\<forall>e \<in> set left. is_log pre e \<longrightarrow> c \<le> en_mod e) \<and>
    (\<forall>e \<in> set es. \<not> is_log pre e \<longrightarrow> e \<in> set left) \<and> set left \<subseteq> set es \<and>
    (\<forall>e \<in> set (young_logs c pre es) - set left.
       (\<forall>f \<in> set left. is_log pre f \<longrightarrow> en_name e < en_name f) \<and>
       sum_list (map en_size (filter (\<lambda>f. en_name e \<le> en_name f) (young_logs c pre es))) > limit)"
proof -
  let ?y = "young_logs c pre es" let ?tot = "sum_list (map en_size ?y)"
  have "\<forall>f \<in> set ?y. rm (en_name f)" using assms(2) by (auto simp: young_logs_def)
  from prune_total_prefix [OF this, of limit ?tot] obtain n where
      n: "prune_total rm limit ?tot ?y = take n ?y" "n \<le> length ?y" and
      fits: "n = length ?y \<or> ?tot - sum_list (map en_size (take n ?y)) \<le> limit" and
      need: "\<forall>j < n. ?tot - sum_list (map en_size (take j ?y)) > limit" by blast
  note inl = pruned_set [OF assms(1,2) n(1), folded assms(4)]
  have sub: "set left \<subseteq> set es" by (auto simp: assms(4) pruneLogFiles_def Let_def)
  have sums: "?tot - sum_list (map en_size (take j ?y)) = sum_list (map en_size (drop j ?y))" for j
  proof -
    have "?tot = sum_list (map en_size (take j ?y @ drop j ?y))" by (simp only: append_take_drop_id)
    also have "\<dots> = sum_list (map en_size (take j ?y)) + sum_list (map en_size (drop j ?y))"
      by (simp only: map_append sum_list_append)
    finally show ?thesis by simp
  qed
  have srt: "sorted_wrt (<) (map en_name ?y)" by (rule young_sorted [OF assms(1)])
  have logs: "f \<in> set (drop n ?y)" if "f \<in> set left" "is_log pre f" for f using inl that sub by blast
  have fit: "sum_list (map en_size (young_logs c pre left)) \<le> limit"
    using left_young [OF assms(1,2) n(1)] fits assms(3) sums [of n] by (auto simp: assms(4))
  have young: "c \<le> en_mod e" if "e \<in> set left" "is_log pre e" for e
    using logs [OF that] set_drop_subset [of n ?y] by (auto simp: young_logs_def)
  have gone: "(\<forall>f \<in> set left. is_log pre f \<longrightarrow> en_name e < en_name f) \<and>
      sum_list (map en_size (filter (\<lambda>f. en_name e \<le> en_name f) ?y)) > limit" if e: "e \<in> set ?y - set left" for e
  proof -
    have "e \<in> set es" using e by (auto simp: young_logs_def)
    with e inl have "e \<notin> set (drop n ?y)" by blast
    with e obtain j where j: "j < n" "j < length ?y" "e = ?y ! j" using in_take_nth [of e ?y n] by blast
    have "en_name e < en_name f" if f: "f \<in> set (drop n ?y)" for f
    proof -
      obtain i where "i < length (drop n ?y)" and "f = drop n ?y ! i" using f by (auto simp: in_set_conv_nth)
      then show ?thesis using name_strict [OF srt, of j "n + i"] j by simp
    qed
    then have "\<forall>f \<in> set left. is_log pre f \<longrightarrow> en_name e < en_name f" using logs by blast
    moreover have "sum_list (map en_size (drop j ?y)) > limit" using need [rule_format, OF j(1)] unfolding sums .
    ultimately show ?thesis using sorted_above [OF srt j(2)] j(3) by simp
  qed
  have "\<forall>e \<in> set left. is_log pre e \<longrightarrow> c \<le> en_mod e" using young by blast
  moreover have "\<forall>e \<in> set es. \<not> is_log pre e \<longrightarrow> e \<in> set left" using inl by blast
  ultimately show ?thesis using fit sub ballI [OF gone] by (intro conjI)
qed

definition sample_dir :: "dir_entry list" where
  "sample_dir = map (\<lambda>(n, sz, m). \<lparr>en_name = n, en_isDir = False, en_stat = True, en_size = sz, en_mod = m\<rparr>)
     [(''snc_2.log'', 4, 9), (''snc_1.log'', 5, 8), (''snc_tun_1.log'', 50, 1), (''snc_0.log'', 1, 2), (''snc_3.log'', 3, 10)]"

theorem pruning_bounds_logs_witness:
  "map en_name (pruneLogFiles (\<lambda>n. True) 5 ''snc_'' 8 sample_dir) = [''snc_2.log'', ''snc_tun_1.log'', ''snc_3.log''] \<and>
   sum_list (map en_size (young_logs 5 ''snc_'' (pruneLogFiles (\<lambda>n. True) 5 ''snc_'' 8 sample_dir))) \<le> 8"
proof -
  have d: "distinct (map en_name sample_dir)" by code_simp
  have r: "\<forall>e \<in> set sample_dir. is_log ''snc_'' e \<longrightarrow> en_stat e \<and> True" by (simp add: sample_dir_def)
  have z: "(0 :: int) \<le> 8" by simp
  have "map en_name (pruneLogFiles (\<lambda>n. True) 5 ''snc_'' 8 sample_dir) = [''snc_2.log'', ''snc_tun_1.log'', ''snc_3.log'']"
    by code_simp
  then show ?thesis using pruning_bounds_logs [OF d r z refl, where c = 5] by blast
qed

end
