(* ===== verification/Cover_Traffic.thy ===== *)
theory Cover_Traffic
  imports Complex_Main Prelude "HOL-Library.Sublist"
begin

text \<open>
  What makes the traffic look ordinary: the jitter of requests (\<^verbatim>\<open>pacing.go\<close>), decoy requests (\<^verbatim>\<open>decoy.go\<close>) and
  browser headers (\<^verbatim>\<open>headers.go\<close>). Random numbers are arguments: \<open>rnd n\<close> is below \<open>n\<close>. The scale of the
  jitter is an exact rational where the code has \<^verbatim>\<open>float64\<close>.
\<close>

section \<open>Jitter\<close>

definition jitterBusyIRI :: int where "jitterBusyIRI = 20 * millisecond"
definition jitterFullIRI :: int where "jitterFullIRI = 200 * millisecond"
definition jitterMax :: int where "jitterMax = 40 * millisecond"

definition jitter_ceiling :: "int \<Rightarrow> int" where
  "jitter_ceiling iri =
     (let scale = of_int (iri - jitterBusyIRI) / of_int (jitterFullIRI - jitterBusyIRI) :: rat;
          scale = (if scale > 1 then 1 else scale) in
      \<lfloor>of_int jitterMax * scale\<rfloor>)"

definition adaptiveJitter :: "(int \<Rightarrow> int) \<Rightarrow> int \<Rightarrow> int" where
  "adaptiveJitter rnd iri0 =
     (let iri = (if iri0 = 0 then jitterFullIRI else iri0) in
      if iri < jitterBusyIRI then 0
      else let ceiling = jitter_ceiling iri in
      if ceiling \<le> 0 then 0 else rnd ceiling)"

lemma jitter_ceiling_exact:
  "jitterBusyIRI \<le> iri \<Longrightarrow> jitter_ceiling iri = (if iri \<ge> jitterFullIRI then jitterMax else (2 * (iri - jitterBusyIRI)) div 9)"
proof -
  assume "jitterBusyIRI \<le> iri"
  have "of_int jitterMax * (of_int (iri - jitterBusyIRI) / of_int (jitterFullIRI - jitterBusyIRI)) =
      (of_int (2 * (iri - jitterBusyIRI)) / of_int 9 :: rat)"
    by (simp add: jitterMax_def jitterBusyIRI_def jitterFullIRI_def field_simps)
  then have "\<lfloor>of_int jitterMax * (of_int (iri - jitterBusyIRI) / of_int (jitterFullIRI - jitterBusyIRI) :: rat)\<rfloor> =
      (2 * (iri - jitterBusyIRI)) div 9"
    by (simp only: floor_divide_of_int_eq)
  moreover have "(of_int (iri - jitterBusyIRI) / of_int (jitterFullIRI - jitterBusyIRI) :: rat) > 1 \<longleftrightarrow> iri > jitterFullIRI"
    by (simp add: jitterBusyIRI_def jitterFullIRI_def field_simps flip: of_int_diff)
  ultimately show ?thesis
    by (auto simp: jitter_ceiling_def Let_def jitterMax_def jitterFullIRI_def jitterBusyIRI_def)
qed

text \<open>No delay under load, and always less than 40 ms; the bound grows with the interval.\<close>

lemma adaptiveJitter_bounds:
  assumes "\<forall>n > 0. 0 \<le> rnd n \<and> rnd n < n"
  shows "0 \<le> adaptiveJitter rnd iri \<and> adaptiveJitter rnd iri < jitterMax \<and>
    (iri \<noteq> 0 \<and> iri \<le> jitterBusyIRI \<longrightarrow> adaptiveJitter rnd iri = 0)"
proof -
  have "jitter_ceiling i \<le> jitterMax" if "jitterBusyIRI \<le> i" for i
    using jitter_ceiling_exact [OF that] that by (auto simp: jitterMax_def jitterFullIRI_def jitterBusyIRI_def)
  then have le: "rnd (jitter_ceiling i) < jitterMax" if "jitterBusyIRI \<le> i" "0 < jitter_ceiling i" for i
    using assms that by (meson order_less_le_trans)
  have zero: "jitter_ceiling jitterBusyIRI = 0" by (simp add: jitter_ceiling_def)
  have pos: "0 < jitterMax" "0 < jitterBusyIRI" "jitterBusyIRI \<le> jitterFullIRI"
    by (simp_all add: jitterMax_def jitterBusyIRI_def jitterFullIRI_def)
  have "0 \<le> adaptiveJitter rnd iri" "adaptiveJitter rnd iri < jitterMax"
    using assms le pos by (simp_all add: adaptiveJitter_def Let_def)
  moreover have "adaptiveJitter rnd iri = 0" if "iri \<noteq> 0" "iri \<le> jitterBusyIRI"
    using that zero by (cases "iri = jitterBusyIRI") (simp_all add: adaptiveJitter_def Let_def)
  ultimately show ?thesis by blast
qed

section \<open>Decoys\<close>

definition decoyBusyWindow :: int where "decoyBusyWindow = 500 * millisecond"
definition decoyDormantAfter :: int where "decoyDormantAfter = 10 * minute"
definition decoyMinInterval :: int where "decoyMinInterval = 20 * second"
definition decoyMaxInterval :: int where "decoyMaxInterval = 60 * second"

definition decoyTargets :: "string list" where
  "decoyTargets = [
     ''https://cdn.jsdelivr.net/'',
     ''https://cdnjs.cloudflare.com/'',
     ''https://ajax.googleapis.com/'',
     ''https://fonts.googleapis.com/css2'',
     ''https://code.jquery.com/jquery-3.7.1.min.js'',
     ''https://unpkg.com/react@18/umd/react.production.min.js'',
     ''https://stackpath.bootstrapcdn.com/bootstrap/4.5.2/css/bootstrap.min.css'',
     ''https://d3js.org/d3.v7.min.js'',
     ''https://cdnjs.cloudflare.com/ajax/libs/lodash.js/4.17.21/lodash.min.js'',
     ''https://maxcdn.bootstrapcdn.com/font-awesome/4.7.0/css/font-awesome.min.css'']"

record DecoyManager =
  dm_targets :: "string list"
  dm_lastAct :: "time option"
  dm_cancelled :: bool

definition NewDecoyManager :: DecoyManager where
  "NewDecoyManager = \<lparr>dm_targets = decoyTargets, dm_lastAct = None, dm_cancelled = False\<rparr>"

definition MarkActivity :: "time \<Rightarrow> DecoyManager \<Rightarrow> DecoyManager" where "MarkActivity now d = d\<lparr>dm_lastAct := Some now\<rparr>"
definition decoy_Stop :: "DecoyManager \<Rightarrow> DecoyManager" where "decoy_Stop d = d\<lparr>dm_cancelled := True\<rparr>"

definition idleSince :: "time \<Rightarrow> DecoyManager \<Rightarrow> int" where
  "idleSince now d = (case dm_lastAct d of None \<Rightarrow> decoyDormantAfter + second | Some t \<Rightarrow> now - t)"

text \<open>One round of the loop: the index of the target that is fetched, if any, and the wait.\<close>

definition decoy_round :: "(int \<Rightarrow> int) \<Rightarrow> time \<Rightarrow> DecoyManager \<Rightarrow> int option \<times> int" where
  "decoy_round rnd now d =
     (let idle = idleSince now d in
      if idle < decoyBusyWindow then (None, decoyBusyWindow - idle + 50 * millisecond)
      else if idle > decoyDormantAfter then (None, 2 * minute)
      else (Some (rnd (int (length (dm_targets d)))), decoyMinInterval + rnd (decoyMaxInterval - decoyMinInterval)))"

text \<open>The loop from a time on, with the activity the tunnel shows at each round; cut off after \<open>n\<close> rounds. The
  result lists the times of the decoys.\<close>

fun decoy_loop :: "nat \<Rightarrow> (int \<Rightarrow> int) \<Rightarrow> (time \<Rightarrow> time option) \<Rightarrow> time \<Rightarrow> DecoyManager \<Rightarrow> time list" where
  "decoy_loop 0 rnd act now d = []"
| "decoy_loop (Suc n) rnd act now d =
     (if dm_cancelled d then []
      else let (fire, wait) = decoy_round rnd now (d\<lparr>dm_lastAct := act now\<rparr>) in
        (if fire = None then [] else [now]) @ decoy_loop n rnd act (now + wait) d)"

lemma decoy_loop_later:
  assumes "\<forall>n > 0. 0 \<le> rnd n \<and> rnd n < n"
  shows "t \<in> set (decoy_loop n rnd act now d) \<Longrightarrow> now \<le> t"
proof (induction n arbitrary: now)
  case (Suc n)
  have "0 \<le> snd (decoy_round rnd now (d\<lparr>dm_lastAct := act now\<rparr>))"
    using assms by (auto simp: decoy_round_def Let_def decoyMinInterval_def decoyMaxInterval_def decoyBusyWindow_def)
  moreover obtain fire wait where r: "decoy_round rnd now (d\<lparr>dm_lastAct := act now\<rparr>) = (fire, wait)" by force
  ultimately have "0 \<le> wait" by simp
  moreover have "t = now \<or> t \<in> set (decoy_loop n rnd act (now + wait) d)"
    using Suc.prems r by (auto split: if_splits)
  ultimately show ?case using Suc.IH [of "now + wait"] by auto
qed simp

text \<open>Decoys go out only while the tunnel is lightly loaded, at least twenty seconds apart.\<close>

lemma decoys_spaced:
  assumes "\<forall>n > 0. 0 \<le> rnd n \<and> rnd n < n"
  shows "sorted_wrt (\<lambda>s t. s + decoyMinInterval \<le> t) (decoy_loop n rnd act now d) \<and>
    (\<forall>t \<in> set (decoy_loop n rnd act now d). \<exists>a. act t = Some a \<and> decoyBusyWindow \<le> t - a \<and> t - a \<le> decoyDormantAfter)"
proof (induction n arbitrary: now)
  case (Suc n)
  show ?case
  proof (cases "dm_cancelled d")
    case False
    obtain fire wait where r: "decoy_round rnd now (d\<lparr>dm_lastAct := act now\<rparr>) = (fire, wait)" by force
    have later: "now + wait \<le> t" if "t \<in> set (decoy_loop n rnd act (now + wait) d)" for t
      using decoy_loop_later [OF assms that] .
    have "fire \<noteq> None \<Longrightarrow> decoyMinInterval \<le> wait \<and> (\<exists>a. act now = Some a \<and> decoyBusyWindow \<le> now - a \<and> now - a \<le> decoyDormantAfter)"
      using r assms by (auto simp: decoy_round_def idleSince_def Let_def decoyMinInterval_def decoyMaxInterval_def decoyDormantAfter_def
        split: if_splits option.splits)
    note fired = this
    show ?thesis
    proof (cases fire)
      case None
      then show ?thesis using Suc [of "now + wait"] False r by simp
    next
      case (Some k)
      then have "now + decoyMinInterval \<le> t" if "t \<in> set (decoy_loop n rnd act (now + wait) d)" for t
        using fired later [OF that] by simp
      then show ?thesis using Suc [of "now + wait"] False r Some fired by simp
    qed
  qed simp
qed simp

section \<open>Headers\<close>

definition userAgents :: "string list" where
  "userAgents = [
     ''Mozilla/5.0 (Windows NT 10.0; Win64; x64) AppleWebKit/537.36 (KHTML, like Gecko) Chrome/124.0.0.0 Safari/537.36'',
     ''Mozilla/5.0 (Windows NT 10.0; Win64; x64) AppleWebKit/537.36 (KHTML, like Gecko) Chrome/123.0.0.0 Safari/537.36'',
     ''Mozilla/5.0 (Windows NT 10.0; Win64; x64) AppleWebKit/537.36 (KHTML, like Gecko) Chrome/122.0.0.0 Safari/537.36'',
     ''Mozilla/5.0 (Macintosh; Intel Mac OS X 10_15_7) AppleWebKit/537.36 (KHTML, like Gecko) Chrome/124.0.0.0 Safari/537.36'',
     ''Mozilla/5.0 (Macintosh; Intel Mac OS X 10_15_7) AppleWebKit/537.36 (KHTML, like Gecko) Chrome/123.0.0.0 Safari/537.36'',
     ''Mozilla/5.0 (X11; Linux x86_64) AppleWebKit/537.36 (KHTML, like Gecko) Chrome/124.0.0.0 Safari/537.36'',
     ''Mozilla/5.0 (Windows NT 10.0; Win64; x64; rv:125.0) Gecko/20100101 Firefox/125.0'',
     ''Mozilla/5.0 (Windows NT 10.0; Win64; x64; rv:124.0) Gecko/20100101 Firefox/124.0'',
     ''Mozilla/5.0 (Windows NT 10.0; Win64; x64; rv:123.0) Gecko/20100101 Firefox/123.0'',
     ''Mozilla/5.0 (Macintosh; Intel Mac OS X 10.15; rv:125.0) Gecko/20100101 Firefox/125.0'',
     ''Mozilla/5.0 (X11; Linux x86_64; rv:125.0) Gecko/20100101 Firefox/125.0'',
     ''Mozilla/5.0 (Macintosh; Intel Mac OS X 14_4_1) AppleWebKit/605.1.15 (KHTML, like Gecko) Version/17.4.1 Safari/605.1.15'',
     ''Mozilla/5.0 (Macintosh; Intel Mac OS X 13_6_6) AppleWebKit/605.1.15 (KHTML, like Gecko) Version/17.4.1 Safari/605.1.15'',
     ''Mozilla/5.0 (iPhone; CPU iPhone OS 17_4_1 like Mac OS X) AppleWebKit/605.1.15 (KHTML, like Gecko) Version/17.4.1 Mobile/15E148 Safari/604.1'',
     ''Mozilla/5.0 (Windows NT 10.0; Win64; x64) AppleWebKit/537.36 (KHTML, like Gecko) Chrome/124.0.0.0 Safari/537.36 Edg/124.0.0.0'',
     ''Mozilla/5.0 (Windows NT 10.0; Win64; x64) AppleWebKit/537.36 (KHTML, like Gecko) Chrome/123.0.0.0 Safari/537.36 Edg/123.0.0.0'',
     ''Mozilla/5.0 (Linux; Android 14; Pixel 8) AppleWebKit/537.36 (KHTML, like Gecko) Chrome/124.0.0.0 Mobile Safari/537.36'',
     ''Mozilla/5.0 (Linux; Android 13; SM-S918B) AppleWebKit/537.36 (KHTML, like Gecko) Chrome/124.0.0.0 Mobile Safari/537.36'',
     ''Mozilla/5.0 (Linux; Android 14; SAMSUNG SM-S918B) AppleWebKit/537.36 (KHTML, like Gecko) SamsungBrowser/24.0 Chrome/117.0.0.0 Mobile Safari/537.36'',
     ''Mozilla/5.0 (Windows NT 10.0; Win64; x64) AppleWebKit/537.36 (KHTML, like Gecko) Chrome/124.0.0.0 Safari/537.36 OPR/110.0.0.0'']"

definition refererPool :: "string list" where
  "refererPool = [
     ''https://www.google.com/'', ''https://www.youtube.com/'', ''https://www.facebook.com/'',
     ''https://www.instagram.com/'', ''https://twitter.com/'', ''https://www.reddit.com/'',
     ''https://www.wikipedia.org/'', ''https://www.amazon.com/'', ''https://www.linkedin.com/'',
     ''https://www.netflix.com/'', ''https://www.twitch.tv/'', ''https://www.tiktok.com/'',
     ''https://www.pinterest.com/'', ''https://www.ebay.com/'', ''https://www.bing.com/'',
     ''https://www.yahoo.com/'', ''https://www.whatsapp.com/'', ''https://www.telegram.org/'',
     ''https://www.apple.com/'', ''https://www.microsoft.com/'', ''https://github.com/'',
     ''https://stackoverflow.com/'', ''https://www.nytimes.com/'', ''https://www.bbc.com/'',
     ''https://www.cnn.com/'', ''https://www.theguardian.com/'', ''https://www.forbes.com/'',
     ''https://www.medium.com/'', ''https://www.spotify.com/'', ''https://www.dropbox.com/'',
     ''https://drive.google.com/'', ''https://docs.google.com/'', ''https://mail.google.com/'',
     ''https://www.paypal.com/'', ''https://www.zoom.us/'', ''https://slack.com/'',
     ''https://www.notion.so/'', ''https://www.figma.com/'', ''https://trello.com/'',
     ''https://www.shopify.com/'', ''https://www.wordpress.com/'', ''https://www.wix.com/'',
     ''https://www.cloudflare.com/'', ''https://www.adobe.com/'', ''https://www.salesforce.com/'',
     ''https://www.coursera.org/'', ''https://www.udemy.com/'', ''https://www.airbnb.com/'',
     ''https://www.booking.com/'', ''https://www.aliexpress.com/'']"

record headerSet =
  hs_accept :: string
  hs_acceptLanguage :: string
  hs_acceptEncoding :: string
  hs_secFetchSite :: string
  hs_secFetchMode :: string
  hs_secFetchDest :: string

definition chromeHeaders :: headerSet where
  "chromeHeaders = \<lparr>hs_accept = ''text/html,application/xhtml+xml,application/xml;q=0.9,image/avif,image/webp,image/apng,*/*;q=0.8,application/signed-exchange;v=b3;q=0.7'',
     hs_acceptLanguage = ''en-US,en;q=0.9'', hs_acceptEncoding = ''gzip, deflate, br'', hs_secFetchSite = ''none'',
     hs_secFetchMode = ''navigate'', hs_secFetchDest = ''document''\<rparr>"

definition firefoxHeaders :: headerSet where
  "firefoxHeaders = \<lparr>hs_accept = ''text/html,application/xhtml+xml,application/xml;q=0.9,image/avif,image/webp,*/*;q=0.8'',
     hs_acceptLanguage = ''en-US,en;q=0.5'', hs_acceptEncoding = ''gzip, deflate, br'', hs_secFetchSite = ''none'',
     hs_secFetchMode = ''navigate'', hs_secFetchDest = ''document''\<rparr>"

definition safariHeaders :: headerSet where
  "safariHeaders = \<lparr>hs_accept = ''text/html,application/xhtml+xml,application/xml;q=0.9,*/*;q=0.8'',
     hs_acceptLanguage = ''en-US,en;q=0.9'', hs_acceptEncoding = ''gzip, deflate, br'', hs_secFetchSite = [],
     hs_secFetchMode = [], hs_secFetchDest = []\<rparr>"

record Session =
  se_ua :: string
  se_referer :: string
  se_hs :: headerSet

definition containsAny :: "string \<Rightarrow> string list \<Rightarrow> bool" where
  "containsAny s subs = list_ex (\<lambda>sub. length sub \<le> length s \<and>
     list_ex (\<lambda>i. take (length sub) (drop i s) = sub) [0..<Suc (length s - length sub)]) subs"

definition pickHeaderSet :: "string \<Rightarrow> headerSet" where
  "pickHeaderSet ua =
     (if containsAny ua [''Firefox''] then firefoxHeaders
      else if containsAny ua [''Safari''] \<and> \<not> containsAny ua [''Chrome'', ''Chromium'', ''CriOS''] then safariHeaders
      else chromeHeaders)"

definition NewSession :: "(nat \<Rightarrow> nat) \<Rightarrow> (nat \<Rightarrow> nat) \<Rightarrow> Session option" where
  "NewSession rnd rnd' = do {
     ua \<leftarrow> idx userAgents (rnd (length userAgents));
     ref \<leftarrow> idx refererPool (rnd' (length refererPool));
     Some \<lparr>se_ua = ua, se_referer = ref, se_hs = pickHeaderSet ua\<rparr> }"

definition RandomReferer :: "(nat \<Rightarrow> nat) \<Rightarrow> string option" where
  "RandomReferer rnd = idx refererPool (rnd (length refererPool))"

definition session_UA :: "Session \<Rightarrow> string" where "session_UA s = se_ua s"

definition session_Headers :: "string \<Rightarrow> Session \<Rightarrow> (string \<times> string) list" where
  "session_Headers host s =
     [(''User-Agent'', se_ua s), (''Accept'', hs_accept (se_hs s)), (''Accept-Language'', hs_acceptLanguage (se_hs s)),
      (''Accept-Encoding'', hs_acceptEncoding (se_hs s)), (''Referer'', ''https://'' @ host @ ''/''), (''Origin'', ''https://'' @ host),
      (''Connection'', ''keep-alive'')] @
     (if hs_secFetchSite (se_hs s) = [] then []
      else [(''Sec-Fetch-Site'', hs_secFetchSite (se_hs s)), (''Sec-Fetch-Mode'', hs_secFetchMode (se_hs s)),
            (''Sec-Fetch-Dest'', hs_secFetchDest (se_hs s))])"

text \<open>\<open>containsAny\<close> is the search for a substring.\<close>

lemma containsAny_sublist: "containsAny s subs \<longleftrightarrow> (\<exists>sub \<in> set subs. sublist sub s)"
proof -
  have "sublist sub s \<longleftrightarrow> length sub \<le> length s \<and> (\<exists>i \<in> set [0..<Suc (length s - length sub)]. take (length sub) (drop i s) = sub)" for sub
  proof
    assume "sublist sub s"
    then obtain ps ss where "s = ps @ sub @ ss" by (auto simp: sublist_def)
    then show "length sub \<le> length s \<and> (\<exists>i \<in> set [0..<Suc (length s - length sub)]. take (length sub) (drop i s) = sub)"
      by (auto intro!: bexI [of _ "length ps"])
  next
    assume "length sub \<le> length s \<and> (\<exists>i \<in> set [0..<Suc (length s - length sub)]. take (length sub) (drop i s) = sub)"
    then show "sublist sub s" using sublist_take sublist_drop sublist_order.order_trans by metis
  qed
  then show ?thesis by (simp add: containsAny_def list_ex_iff del: upt_Suc)
qed

text \<open>A session never mixes browsers: the fetch metadata headers are sent exactly when the agent is not Safari
  alone, and each header occurs once.\<close>

lemma session_headers_consistent:
  assumes "NewSession rnd rnd' = Some s"
  shows "distinct (map fst (session_Headers host s)) \<and>
    (''Sec-Fetch-Mode'' \<in> set (map fst (session_Headers host s)) \<longleftrightarrow>
      sublist ''Firefox'' (se_ua s) \<or> \<not> sublist ''Safari'' (se_ua s) \<or> containsAny (se_ua s) [''Chrome'', ''Chromium'', ''CriOS''])"
proof -
  have "se_hs s = pickHeaderSet (se_ua s)" using assms by (auto simp: NewSession_def split: bind_splits)
  then show ?thesis
    by (auto simp: session_Headers_def pickHeaderSet_def containsAny_sublist firefoxHeaders_def safariHeaders_def chromeHeaders_def)
qed

end
