(* ===== verification/Spec2Isabelle.thy ===== *)
theory Spec2Isabelle
  imports DHT_Protocol UDP_Relay Mirror_Sync CIDR_Set Ring_Buffer Tunnel_Conn Socks_Server Router_Paths Discovery
    Tunnel_Dial Relay_API Log_Rotation Cover_Traffic TZ_Country
begin

text \<open>
  A model of \<^verbatim>\<open>tunnelcat-core\<close>, the client-side library of a censorship-resistant tunnel, and
  the theorems that make its parts correct.

  Plan of the library, one theory per component, in the order the data flows:

    \<^item> Prelude, Go_Strings: bytes, slices, big-endian integers, hex, base64, decimal, host:port.
    \<^item> Kad_ID, Routing_Table, Relay_Store, DHT_Wire, DHT_Node, DHT_Content: the package \<^verbatim>\<open>dht/\<close>.
    \<^item> Tunnel_Frames, Dial_Window, Dialer_Pool, Stream_Loop, Auth: \<^verbatim>\<open>tunnel.go\<close>, \<^verbatim>\<open>session.go\<close>,
      \<^verbatim>\<open>dialer_pool.go\<close>.
    \<^item> UDP_Relay, UDP_Assoc, Mirror_Transport, Mirror_Sync: datagram relaying and the mirror.
    \<^item> CIDR_Set, Ring_Buffer, SOCKS5, Bypass, DNS_Cache, Router, Discovery, Watchdog, Pacing.
\<close>

section \<open>From signed manifests to paths\<close>

text \<open>
  A client runs a discoverer and a router side by side: the router starts with the bootstrap addresses, and
  whenever the client decides to, it hands the discoverer's controls and regions to the router. Everything
  else that happens to the two is arbitrary.
\<close>

inductive client_step :: "disc_env \<Rightarrow> node_sort \<Rightarrow> path_shuffle \<Rightarrow> (int \<Rightarrow> int \<Rightarrow> int) \<Rightarrow>
    Discoverer \<times> Router \<Rightarrow> Discoverer \<times> Router \<Rightarrow> bool"
  for env srt shuf blend where
  cs_discovery: "client_step env srt shuf blend (d, r) (disc_step env op d, r)"
| cs_router: "router_op srt shuf blend r r' \<Longrightarrow> client_step env srt shuf blend (d, r) (d, r')"
| cs_handover: "client_step env srt shuf blend (d, r)
    (d, SetControlsWithRegions now (Controls d) (case Regions d of None \<Rightarrow> [] | Some m \<Rightarrow> m) r)"

text \<open>The addresses a client may talk to: its bootstrap addresses and those of signed manifests.\<close>

definition trusted_addr :: "disc_env \<Rightarrow> bytes \<Rightarrow> string list \<Rightarrow> string \<Rightarrow> bool" where
  "trusted_addr env k boot a \<longleftrightarrow> (\<exists>b. a = normaliseAddr b \<and> (b \<in> set boot \<or> (\<exists>as. signed_controls env k as \<and> b \<in> set as)))"

definition client_inv :: "disc_env \<Rightarrow> bytes \<Rightarrow> string \<Rightarrow> string list \<Rightarrow> Discoverer \<times> Router \<Rightarrow> bool" where
  "client_inv env k url boot s \<longleftrightarrow> disc_inv env k url (fst s) \<and>
     list_all (trusted_addr env k boot) (AllControlAddrs (snd s)) \<and>
     list_all (\<lambda>p. trusted_addr env k boot (rp_ControlAddr p)) (ro_paths (snd s))"

lemma client_step_inv:
  assumes "client_step env srt shuf blend s s'" and "slice_sort srt" and "shuffles shuf" and "client_inv env k url boot s"
  shows "client_inv env k url boot s'"
  using assms(1)
proof cases
  case (cs_discovery d r op)
  then show ?thesis using assms(4) disc_step_inv by (simp add: client_inv_def)
next
  case (cs_router r r' d)
  then have "list_all (trusted_addr env k boot) (AllControlAddrs r)" using assms(4) by (simp add: client_inv_def)
  then have "trusted_addr env k boot (rp_ControlAddr p)" if "p \<in> set (ro_paths (BuildPaths srt shuf blend now r))" for p now
    using BuildPaths_controls [OF assms(2,3) that] by (simp add: list_all_iff)
  then show ?thesis
    using cs_router assms(4) router_op_addrs [OF cs_router(3)] router_op_paths [OF cs_router(3)]
    by (auto simp: client_inv_def list_all_iff)
next
  case (cs_handover d r now)
  have "Controls d = [] \<or> signed_controls env k (Controls d)"
    using cs_handover assms(4) by (auto simp: client_inv_def disc_inv_def Controls_def)
  then have "trusted_addr env k boot (normaliseAddr b)" if "b \<in> set (Controls d)" for b
    using that by (auto simp: trusted_addr_def)
  then show ?thesis
    using cs_handover assms(4)
    by (auto simp: client_inv_def SetControlsWithRegions_def AllControlAddrs_def new_node_def list_all_iff)
qed

lemma client_run_inv:
  assumes "(client_step env srt shuf blend)\<^sup>*\<^sup>* s s'" and "slice_sort srt" and "shuffles shuf" and "client_inv env k url boot s"
  shows "client_inv env k url boot s'"
  using assms(1)
proof (induction rule: rtranclp_induct)
  case base
  show ?case by (rule assms(4))
next
  case (step s s')
  then show ?case using client_step_inv [OF _ assms(2,3)] by blast
qed

text \<open>Property C4. A client whose discoverer has the arbiter's key never routes to an address the arbiter did not
  sign: over every run of the discoverer and the router together, with arbitrary answers from the network,
  injected documents, cache files and probes, every control of the router and the control of every path
  is a bootstrap address or an address of a manifest that carries the arbiter's signature.\<close>

theorem paths_end_in_signed_controls:
  assumes "NewDiscoverer url hex cache cb disk = Some d0" and "hex \<noteq> []" and "slice_sort srt" and "shuffles shuf"
    and "(client_step env srt shuf blend)\<^sup>*\<^sup>* (d0, SetControls t boot NewRouter) (d, r)"
  shows "\<exists>k. hex_decode hex = Some k \<and> list_all (trusted_addr env k boot) (AllControlAddrs r) \<and>
    list_all (\<lambda>p. trusted_addr env k boot (rp_ControlAddr p)) (router_Paths r)"
proof -
  obtain k where k: "hex_decode hex = Some k" "disc_inv env k (trim_slashes url) d0"
    using NewDiscoverer_inv [OF assms(1,2)] by blast
  then have "client_inv env k (trim_slashes url) boot (d0, SetControls t boot NewRouter)"
    by (auto simp: client_inv_def SetControls_def NewRouter_def AllControlAddrs_def new_node_def trusted_addr_def list_all_iff)
  from client_run_inv [OF assms(5,3,4) this] show ?thesis
    using k(1) by (auto simp: client_inv_def router_Paths_def)
qed

theorem paths_end_in_signed_controls_witness:
  "\<exists>k. hex_decode sample_hex = Some k \<and>
     list_all (\<lambda>p. trusted_addr sample_disc_env k [''boot''] (rp_ControlAddr p))
       (router_Paths (BuildPaths (\<lambda>f. sort_key f) rev (\<lambda>a b. b) 1
          (SetControlsWithRegions 1 (Controls (snd (InjectRaw sample_disc_env [1] (the (NewDiscoverer ''https://c/'' sample_hex ''f'' True None)))))
             [(''a:1'', ''X'')] (SetControls 0 [''boot''] NewRouter))))"
proof -
  let ?S = "client_step sample_disc_env (\<lambda>f. sort_key f) rev (\<lambda>a b. b)"
  let ?d0 = "the (NewDiscoverer ''https://c/'' sample_hex ''f'' True None)"
  let ?d1 = "snd (InjectRaw sample_disc_env [1] ?d0)" and ?r0 = "SetControls 0 [''boot''] NewRouter"
  let ?r1 = "SetControlsWithRegions 1 (Controls ?d1) [(''a:1'', ''X'')] ?r0"
  have new: "NewDiscoverer ''https://c/'' sample_hex ''f'' True None = Some ?d0" by code_simp
  have hex: "sample_hex \<noteq> []" by code_simp
  have reg: "Regions ?d1 = Some [(''a:1'', ''X'')]" by code_simp
  have s1: "?S (?d0, ?r0) (?d1, ?r0)" using cs_discovery [where op = "DInject [1]"] by simp
  have s2: "?S (?d1, ?r0) (?d1, ?r1)" using cs_handover [where d = ?d1 and now = 1 and r = ?r0] by (simp add: reg)
  have s3: "?S (?d1, ?r1) (?d1, BuildPaths (\<lambda>f. sort_key f) rev (\<lambda>a b. b) 1 ?r1)"
    by (rule cs_router) (rule ro_op_build)
  have run: "?S\<^sup>*\<^sup>* (?d0, ?r0) (?d1, BuildPaths (\<lambda>f. sort_key f) rev (\<lambda>a b. b) 1 ?r1)"
    using s1 s2 s3 by (meson rtranclp.rtrancl_refl rtranclp.rtrancl_into_rtrancl)
  show ?thesis
    using paths_end_in_signed_controls [OF new hex sort_key_slice_sort rev_shuffles run] by blast
qed

end
